(* ===== verification/Prelude.thy ===== *)
theory Prelude
  imports Main "HOL-Library.Finite_Map" "HOL-Library.Char_ord" "HOL-Library.List_Lexorder"
begin

text \<open>
  What every component shares: the Go values the sources use (byte slices, fixed-width unsigned
  integers, errors and \<^verbatim>\<open>errors.Is\<close>, maps and their iteration), the fact collections of the
  development and the generic lemmas on lists and finite maps.

  A \<^verbatim>\<open>[]byte\<close> and a Go \<^verbatim>\<open>string\<close> are both lists of 8-bit characters: the conversion between them
  is the identity on contents.  A nil slice and an empty slice are identified.  An unsigned integer
  is a \<^typ>\<open>nat\<close>; every increment of one is written with its wrap-around.
\<close>

named_theorems wf_intros \<open>rules that establish a well-formedness invariant\<close>
named_theorems lock_defs \<open>definitions of the lock state\<close>
named_theorems store_defs \<open>definitions of the key-value store\<close>

type_synonym bytes = "char list"

section \<open>Fixed-width unsigned integers\<close>

definition inc64 :: "nat \<Rightarrow> nat" where
  "inc64 n = (n + 1) mod 2 ^ 64"

definition inc32 :: "nat \<Rightarrow> nat" where
  "inc32 n = (n + 1) mod 2 ^ 32"

lemma inc64_Suc: "Suc n < 2 ^ 64 \<Longrightarrow> inc64 n = Suc n"
  unfolding inc64_def by simp

lemma inc64_bound: "inc64 n < 2 ^ 64"
  unfolding inc64_def by simp

lemma inc32_Suc: "Suc n < 2 ^ 32 \<Longrightarrow> inc32 n = Suc n"
  unfolding inc32_def by simp

text \<open>Equations for evaluation that do not build the modulus for small numbers.\<close>

lemma inc64_eval [code]: "inc64 n = (if n < 16 then Suc n else (n + 1) mod 2 ^ 64)"
  by (simp add: inc64_def)

lemma inc32_eval [code]: "inc32 n = (if n < 16 then Suc n else (n + 1) mod 2 ^ 32)"
  by (simp add: inc32_def)

section \<open>Errors\<close>

text \<open>
  A package-level \<^verbatim>\<open>errors.New\<close> variable is a \<open>Sentinel\<close> identified by its text (all of them are
  distinct in the program), an error made in place is a \<open>Message\<close>, and \<^verbatim>\<open>fmt.Errorf\<close> with
  \<^verbatim>\<open>%w\<close> verbs is a \<open>Wrapf\<close> of the wrapped errors.  The formatted arguments of a message are left
  out: the text is the format string.
\<close>

datatype go_error = Sentinel string | Message string | Wrapf string "go_error list"

fun errors_is :: "go_error \<Rightarrow> go_error \<Rightarrow> bool" where
  "errors_is (Wrapf m es) t = (Wrapf m es = t \<or> list_ex (\<lambda>e. errors_is e t) es)"
| "errors_is e t = (e = t)"

lemma errors_is_refl [simp]: "errors_is e e"
  by (cases e) auto

type_synonym 'a result = "go_error + 'a"

definition is_ok :: "'a result \<Rightarrow> bool" where
  "is_ok r = (case r of Inl _ \<Rightarrow> False | Inr _ \<Rightarrow> True)"

lemma is_ok_simps [simp]: "is_ok (Inr x)" "\<not> is_ok (Inl e)"
  by (simp_all add: is_ok_def)

lemma is_ok_iff: "is_ok r \<longleftrightarrow> (\<exists>x. r = Inr x)"
  by (cases r) auto

section \<open>Maps\<close>

text \<open>
  A Go map is a finite map.  Ranging over one visits the keys in an order the language leaves
  open; \<open>map_range\<close> fixes the increasing order of the keys.
\<close>

definition map_range :: "('k::linorder, 'v) fmap \<Rightarrow> ('k \<times> 'v) list" where
  "map_range m = sorted_list_of_fmap m"

lemma set_map_range: "set (map_range m) = {(k, v). fmlookup m k = Some v}"
proof -
  have "set (sorted_list_of_fset (fmdom m)) = fset (fmdom m)"
    by (simp add: sorted_list_of_fset.rep_eq)
  then show ?thesis
    by (auto simp: map_range_def sorted_list_of_fmap_def image_iff fmdomI dest: fmdomI
        intro!: bexI [of _ "fst _"])
qed

lemma list_all_map_range: "list_all P (map_range m) \<longleftrightarrow> (\<forall>k v. fmlookup m k = Some v \<longrightarrow> P (k, v))"
  by (auto simp: list_all_iff set_map_range)

lemma distinct_keys_map_range: "distinct (map fst (map_range m))"
  by (simp add: map_range_def sorted_list_of_fmap_def comp_def sorted_list_of_fset.rep_eq)

text \<open>The first error a loop over a list returns, the shape of every validation loop.\<close>

fun first_error :: "('a \<Rightarrow> go_error option) \<Rightarrow> 'a list \<Rightarrow> go_error option" where
  "first_error f [] = None"
| "first_error f (x # xs) = (case f x of Some e \<Rightarrow> Some e | None \<Rightarrow> first_error f xs)"

lemma first_error_None: "first_error f xs = None \<longleftrightarrow> (\<forall>x \<in> set xs. f x = None)"
  by (induction xs) (auto split: option.splits)

end
