(* ===== verification/Model_Types.thy ===== *)
theory Model_Types
  imports Prelude
begin

text \<open>
  The shared types of \<^verbatim>\<open>internal/model\<close>: log entries, snapshots, voter configurations, the
  persistent Raft state and jobs.  \<^verbatim>\<open>NodeID\<close> and \<^verbatim>\<open>JobID\<close> are Go strings, \<^verbatim>\<open>Term\<close> and \<^verbatim>\<open>LogIndex\<close>
  are \<^verbatim>\<open>uint64\<close>; the zero value of a type is named after it.
\<close>

type_synonym node_id = string
type_synonym raft_term = nat
type_synonym log_index = nat

record log_entry =
  Index :: log_index
  Term :: raft_term
  Data :: bytes

record snapshot =
  LastIncludedIndex :: log_index
  LastIncludedTerm :: raft_term
  SnapData :: bytes

definition zero_snapshot :: snapshot where
  "zero_snapshot = \<lparr>LastIncludedIndex = 0, LastIncludedTerm = 0, SnapData = []\<rparr>"

record configuration =
  Voters :: "node_id list"

record joint_configuration =
  Old :: configuration
  New :: configuration

record membership =
  Current :: configuration
  Joint :: "joint_configuration option"

record persistent_state =
  CurrentTerm :: raft_term
  VotedFor :: node_id
  Membership :: membership

definition zero_persistent_state :: persistent_state where
  "zero_persistent_state =
     \<lparr>CurrentTerm = 0, VotedFor = [], Membership = \<lparr>Current = \<lparr>Voters = []\<rparr>, Joint = None\<rparr>\<rparr>"

section \<open>Jobs\<close>

type_synonym job_id = string
type_synonym job_state = string

abbreviation JobPending :: job_state where "JobPending \<equiv> ''PENDING''"
abbreviation JobScheduled :: job_state where "JobScheduled \<equiv> ''SCHEDULED''"
abbreviation JobRunning :: job_state where "JobRunning \<equiv> ''RUNNING''"
abbreviation JobSucceeded :: job_state where "JobSucceeded \<equiv> ''SUCCEEDED''"
abbreviation JobFailed :: job_state where "JobFailed \<equiv> ''FAILED''"

record job =
  JobIDOf :: job_id
  Payload :: bytes
  JState :: job_state
  ScheduledAt :: int
  AssignedWorkerID :: string
  JobToken :: nat
  Attempt :: nat
  JobExecutionID :: string
  CreatedIndex :: log_index

definition zero_job :: job where
  "zero_job = \<lparr>JobIDOf = [], Payload = [], JState = [], ScheduledAt = 0, AssignedWorkerID = [],
     JobToken = 0, Attempt = 0, JobExecutionID = [], CreatedIndex = 0\<rparr>"

end
