(* ===== verification/Lock_State.thy ===== *)
theory Lock_State
  imports Model_Types
begin

text \<open>
  The fencing-token lock table of \<^verbatim>\<open>internal/lock\<close>: \<^verbatim>\<open>State.Get\<close>, \<^verbatim>\<open>State.Acquire\<close> and
  \<^verbatim>\<open>State.Expire\<close>, the table's invariant, and the interface a client of the table relies on.
\<close>

section \<open>The table and its operations\<close>

abbreviation ErrLockBusy :: go_error where "ErrLockBusy \<equiv> Sentinel ''lock is already held''"
abbreviation ErrLockNotFound :: go_error where "ErrLockNotFound \<equiv> Sentinel ''lock not found''"
abbreviation ErrNotOwner :: go_error where "ErrNotOwner \<equiv> Sentinel ''lock owner mismatch''"
abbreviation ErrInvalidOwner :: go_error where "ErrInvalidOwner \<equiv> Sentinel ''invalid lock owner''"
abbreviation ErrInvalidKey :: go_error where "ErrInvalidKey \<equiv> Sentinel ''invalid lock key''"
abbreviation ErrStaleFencingToken :: go_error where
  "ErrStaleFencingToken \<equiv> Sentinel ''stale fencing token''"

record lock =
  LockKey :: string
  OwnerID :: string
  FencingToken :: nat
  ExpiresAt :: int
  GrantIndex :: log_index

definition zero_lock :: lock where
  "zero_lock = \<lparr>LockKey = [], OwnerID = [], FencingToken = 0, ExpiresAt = 0, GrantIndex = 0\<rparr>"

record lock_state =
  Locks :: "(string, lock) fmap"
  NextToken :: nat

definition NewState :: lock_state where
  "NewState = \<lparr>Locks = fmempty, NextToken = 0\<rparr>"

definition lock_Get :: "lock_state \<Rightarrow> string \<Rightarrow> lock option" where
  "lock_Get s key = fmlookup (Locks s) key"

definition lock_Acquire ::
  "lock_state \<Rightarrow> string \<Rightarrow> string \<Rightarrow> int \<Rightarrow> log_index \<Rightarrow> lock \<times> bool \<times> lock_state" where
  "lock_Acquire s key ownerID expiresAt grantIndex =
     (case fmlookup (Locks s) key of
        Some current \<Rightarrow> (current, False, s)
      | None \<Rightarrow>
          let next = inc64 (NextToken s);
              current = \<lparr>LockKey = key, OwnerID = ownerID, FencingToken = next,
                         ExpiresAt = expiresAt, GrantIndex = grantIndex\<rparr>
          in (current, True, s\<lparr>NextToken := next, Locks := fmupd key current (Locks s)\<rparr>))"

definition lock_Expire :: "lock_state \<Rightarrow> string \<Rightarrow> nat \<Rightarrow> lock \<times> bool \<times> lock_state" where
  "lock_Expire s key expectedToken =
     (case fmlookup (Locks s) key of
        None \<Rightarrow> (zero_lock, False, s)
      | Some current \<Rightarrow>
          if FencingToken current \<noteq> expectedToken then (current, False, s)
          else (current, True, s\<lparr>Locks := fmdrop key (Locks s)\<rparr>))"

lemmas lock_op_defs = lock_Get_def lock_Acquire_def lock_Expire_def

section \<open>The invariant of the table\<close>

text \<open>
  Every lock is stored under its own key with a token that has been issued (tokens start at 1 and
  never exceed the counter), and no two locks share a token.
\<close>

definition lock_wf :: "lock_state \<Rightarrow> bool" where
  "lock_wf s \<longleftrightarrow>
     fmpred (\<lambda>k l. LockKey l = k \<and> 0 < FencingToken l \<and> FencingToken l \<le> NextToken s) (Locks s) \<and>
     fmpred (\<lambda>k l. fmpred (\<lambda>k' l'. FencingToken l = FencingToken l' \<longrightarrow> k = k') (Locks s)) (Locks s)"

lemma lock_wf_NewState [wf_intros]: "lock_wf NewState"
  by (simp add: lock_wf_def NewState_def)

lemma lock_wf_key: "lock_wf s \<Longrightarrow> fmlookup (Locks s) k = Some l \<Longrightarrow> LockKey l = k"
  by (auto simp: lock_wf_def)

lemma lock_wf_bound:
  "lock_wf s \<Longrightarrow> fmlookup (Locks s) k = Some l \<Longrightarrow> 0 < FencingToken l \<and> FencingToken l \<le> NextToken s"
  by (auto simp: lock_wf_def)

lemma lock_wf_token_unique:
  assumes "lock_wf s" "fmlookup (Locks s) k = Some l" "fmlookup (Locks s) k' = Some l'"
    and "FencingToken l = FencingToken l'"
  shows "k = k'"
  using assms unfolding lock_wf_def fmpred_iff by blast

lemma lock_wf_remove [wf_intros]: "lock_wf s \<Longrightarrow> lock_wf (s\<lparr>Locks := fmdrop k (Locks s)\<rparr>)"
  unfolding lock_wf_def fmpred_iff by (simp split: if_splits)

lemma lock_Acquire_held:
  "fmlookup (Locks s) k = Some l \<Longrightarrow> lock_Acquire s k w e g = (l, False, s)"
  by (simp add: lock_Acquire_def)

lemma lock_Acquire_free:
  assumes "fmlookup (Locks s) k = None" and "Suc (NextToken s) < 2 ^ 64"
  shows "lock_Acquire s k w e g =
    (let l = \<lparr>LockKey = k, OwnerID = w, FencingToken = Suc (NextToken s), ExpiresAt = e,
              GrantIndex = g\<rparr>
     in (l, True, s\<lparr>NextToken := Suc (NextToken s), Locks := fmupd k l (Locks s)\<rparr>))"
  using assms by (simp add: lock_Acquire_def Let_def inc64_Suc)

lemma lock_wfI:
  assumes "\<And>k l. fmlookup (Locks s) k = Some l \<Longrightarrow>
      LockKey l = k \<and> 0 < FencingToken l \<and> FencingToken l \<le> NextToken s"
    and "\<And>k l k' l'. fmlookup (Locks s) k = Some l \<Longrightarrow> fmlookup (Locks s) k' = Some l' \<Longrightarrow>
      FencingToken l = FencingToken l' \<Longrightarrow> k = k'"
  shows "lock_wf s"
  unfolding lock_wf_def fmpred_iff using assms by blast

lemma lock_wf_grant [wf_intros]:
  assumes wf: "lock_wf s" and key: "LockKey l = k" and tok: "FencingToken l = Suc (NextToken s)"
  shows "lock_wf (s\<lparr>NextToken := Suc (NextToken s), Locks := fmupd k l (Locks s)\<rparr>)"
    (is "lock_wf ?s'")
proof (rule lock_wfI)
  have old: "FencingToken l' < FencingToken l" if "fmlookup (Locks s) k' = Some l'" for k' l'
    using lock_wf_bound [OF wf that] tok by simp
  fix k1 l1
  assume 1: "fmlookup (Locks ?s') k1 = Some l1"
  then show "LockKey l1 = k1 \<and> 0 < FencingToken l1 \<and> FencingToken l1 \<le> NextToken ?s'"
    using lock_wf_bound [OF wf, of k1 l1] lock_wf_key [OF wf, of k1 l1] key tok
    by (auto split: if_splits)
  fix k2 l2
  assume 2: "fmlookup (Locks ?s') k2 = Some l2" and eq: "FencingToken l1 = FencingToken l2"
  show "k1 = k2"
    using 1 2 eq old [of k1 l1] old [of k2 l2] lock_wf_token_unique [OF wf, of k1 l1 k2 l2]
    by (auto split: if_splits)
qed

section \<open>The interface of a fencing-token table\<close>

text \<open>
  What the store relies on: a held key stays with its holder, a free key is granted the successor
  of the last issued token, removal forgets one key, and every stored token has been issued.  The
  lemmas of the locale follow from these laws alone, for any sequence of operations.
\<close>

datatype table_op = TAcquire string string int log_index | TExpire string nat | TRemove string

locale fencing_table =
  fixes lookup :: "'s \<Rightarrow> string \<Rightarrow> lock option"
    and issued :: "'s \<Rightarrow> nat"
    and acquire :: "'s \<Rightarrow> string \<Rightarrow> string \<Rightarrow> int \<Rightarrow> log_index \<Rightarrow> lock \<times> bool \<times> 's"
    and expire :: "'s \<Rightarrow> string \<Rightarrow> nat \<Rightarrow> lock \<times> bool \<times> 's"
    and remove :: "'s \<Rightarrow> string \<Rightarrow> 's"
    and inv :: "'s \<Rightarrow> bool"
  assumes lookup_issued: "inv s \<Longrightarrow> lookup s k = Some l \<Longrightarrow> 0 < FencingToken l \<and> FencingToken l \<le> issued s"
    and lookup_unique: "inv s \<Longrightarrow> lookup s k = Some l \<Longrightarrow> lookup s k' = Some l' \<Longrightarrow>
      FencingToken l = FencingToken l' \<Longrightarrow> k = k'"
    and acquire_held: "inv s \<Longrightarrow> lookup s k = Some l \<Longrightarrow> acquire s k w e g = (l, False, s)"
    and acquire_free: "inv s \<Longrightarrow> lookup s k = None \<Longrightarrow> Suc (issued s) < 2 ^ 64 \<Longrightarrow>
      \<exists>l s'. acquire s k w e g = (l, True, s') \<and> inv s' \<and> issued s' = Suc (issued s) \<and>
        FencingToken l = Suc (issued s) \<and> OwnerID l = w \<and> lookup s' = (lookup s)(k \<mapsto> l)"
    and expire_current: "inv s \<Longrightarrow> lookup s k = Some l \<Longrightarrow>
      expire s k (FencingToken l) = (l, True, remove s k)"
    and expire_other: "inv s \<Longrightarrow> (\<forall>l. lookup s k = Some l \<longrightarrow> FencingToken l \<noteq> t) \<Longrightarrow>
      snd (snd (expire s k t)) = s"
    and remove_spec: "inv s \<Longrightarrow> inv (remove s k) \<and> issued (remove s k) = issued s \<and>
      lookup (remove s k) = (lookup s)(k := None)"
begin

fun step :: "'s \<Rightarrow> table_op \<Rightarrow> 's" where
  "step s (TAcquire k w e g) = snd (snd (acquire s k w e g))"
| "step s (TExpire k t) = snd (snd (expire s k t))"
| "step s (TRemove k) = remove s k"

definition stale :: "'s \<Rightarrow> nat \<Rightarrow> bool" where
  "stale s t \<longleftrightarrow> t \<le> issued s \<and> (\<forall>k l. lookup s k = Some l \<longrightarrow> FencingToken l \<noteq> t)"

lemma step_spec:
  assumes "inv s" and "Suc (issued s) < 2 ^ 64"
  shows "inv (step s op) \<and> issued s \<le> issued (step s op) \<and> issued (step s op) \<le> Suc (issued s) \<and>
    (\<forall>k l. lookup (step s op) k = Some l \<longrightarrow> lookup s k = Some l \<or> FencingToken l = Suc (issued s))"
proof (cases op)
  case (TAcquire k w e g)
  show ?thesis
  proof (cases "lookup s k")
    case None
    from acquire_free [OF assms(1) None assms(2), of w e g] show ?thesis
      by (auto simp: TAcquire split: if_splits)
  next
    case (Some l)
    from acquire_held [OF assms(1) Some] assms(1) show ?thesis by (simp add: TAcquire)
  qed
next
  case (TExpire k t)
  show ?thesis
  proof (cases "\<exists>l. lookup s k = Some l \<and> FencingToken l = t")
    case True
    then obtain l where "lookup s k = Some l" "FencingToken l = t" by blast
    then show ?thesis
      using expire_current [OF assms(1)] remove_spec [OF assms(1), of k] TExpire
      by (auto split: if_splits)
  next
    case False
    then have "step s op = s" using expire_other [OF assms(1)] TExpire by simp
    then show ?thesis using assms(1) by simp
  qed
next
  case (TRemove k)
  then show ?thesis using remove_spec [OF assms(1), of k] by (auto split: if_splits)
qed

lemma step_stale:
  assumes "inv s" "Suc (issued s) < 2 ^ 64" "stale s t"
  shows "stale (step s op) t"
proof -
  note one = step_spec [OF assms(1,2), of op]
  have "FencingToken l \<noteq> t" if "lookup (step s op) k = Some l" for k l
  proof -
    from one that have "lookup s k = Some l \<or> FencingToken l = Suc (issued s)" by blast
    with assms(3) show ?thesis by (auto simp: stale_def)
  qed
  with one assms(3) show ?thesis by (auto simp: stale_def)
qed

text \<open>A held lock is kept or its token is never valid again.\<close>

lemma step_kept_or_stale:
  assumes "inv s" "Suc (issued s) < 2 ^ 64" "lookup s k = Some l" "lookup (step s op) k \<noteq> Some l"
  shows "stale (step s op) (FencingToken l)"
proof -
  note one = step_spec [OF assms(1,2), of op]
  have "FencingToken l' \<noteq> FencingToken l" if "lookup (step s op) k' = Some l'" for k' l'
  proof
    assume eq: "FencingToken l' = FencingToken l"
    from one that consider "lookup s k' = Some l'" | "FencingToken l' = Suc (issued s)" by blast
    then show False
    proof cases
      case 1
      with lookup_unique [OF assms(1) 1 assms(3) eq] assms(3,4) that show False by simp
    next
      case 2
      with eq lookup_issued [OF assms(1,3)] show False by simp
    qed
  qed
  with one lookup_issued [OF assms(1,3)] show ?thesis by (auto simp: stale_def)
qed

lemma run_spec:
  assumes "inv s" "issued s + length ops < 2 ^ 64"
  shows "inv (foldl step s ops) \<and> issued s \<le> issued (foldl step s ops) \<and>
    issued (foldl step s ops) \<le> issued s + length ops \<and>
    (stale s t \<longrightarrow> stale (foldl step s ops) t)"
  using assms
proof (induction ops arbitrary: s)
  case Nil
  then show ?case by simp
next
  case (Cons op ops)
  from Cons.prems have room: "Suc (issued s) < 2 ^ 64" by simp
  note one = step_spec [OF Cons.prems(1) room, of op]
  from one Cons.prems have "issued (step s op) + length ops < 2 ^ 64" by simp
  with Cons.IH [of "step s op"] one step_stale [OF Cons.prems(1) room, of t op] show ?case by auto
qed

text \<open>Tokens issued along a run are strictly above every token issued before it.\<close>

lemma grant_exceeds_issued:
  assumes "inv s" "issued s + length ops < 2 ^ 64"
    and "lookup (foldl step s ops) k = Some l" and "lookup s k \<noteq> Some l"
  shows "issued s < FencingToken l"
  using assms
proof (induction ops arbitrary: s)
  case Nil
  then show ?case by simp
next
  case (Cons op ops)
  from Cons.prems have room: "Suc (issued s) < 2 ^ 64" by simp
  note one = step_spec [OF Cons.prems(1) room, of op]
  show ?case
  proof (cases "lookup (step s op) k = Some l")
    case True
    with one have "lookup s k = Some l \<or> FencingToken l = Suc (issued s)" by blast
    with Cons.prems(4) show ?thesis by simp
  next
    case False
    moreover from one Cons.prems have "issued (step s op) + length ops < 2 ^ 64" by simp
    ultimately have "issued (step s op) < FencingToken l"
      using Cons.IH [of "step s op"] Cons.prems(3) one by simp
    with one show ?thesis by linarith
  qed
qed

end

definition lock_remove :: "lock_state \<Rightarrow> string \<Rightarrow> lock_state" where
  "lock_remove s k = s\<lparr>Locks := fmdrop k (Locks s)\<rparr>"

interpretation lt: fencing_table lock_Get NextToken lock_Acquire lock_Expire lock_remove lock_wf
proof unfold_locales
  show "lock_wf s \<Longrightarrow> lock_Get s k = None \<Longrightarrow> Suc (NextToken s) < 2 ^ 64 \<Longrightarrow>
      \<exists>l s'. lock_Acquire s k w e g = (l, True, s') \<and> lock_wf s' \<and> NextToken s' = Suc (NextToken s) \<and>
        FencingToken l = Suc (NextToken s) \<and> OwnerID l = w \<and> lock_Get s' = (lock_Get s)(k \<mapsto> l)"
    for s k w e g
    using lock_wf_grant [of s "\<lparr>LockKey = k, OwnerID = w, FencingToken = Suc (NextToken s),
        ExpiresAt = e, GrantIndex = g\<rparr>" k]
    by (auto simp: lock_Acquire_free lock_Get_def Let_def fun_eq_iff)
  show "lock_wf s \<Longrightarrow> \<forall>l. lock_Get s k = Some l \<longrightarrow> FencingToken l \<noteq> t \<Longrightarrow>
      snd (snd (lock_Expire s k t)) = s" for s k t
    by (auto simp: lock_Expire_def lock_Get_def split: option.splits)
  show "lock_wf s \<Longrightarrow> lock_wf (lock_remove s k) \<and> NextToken (lock_remove s k) = NextToken s \<and>
      lock_Get (lock_remove s k) = (lock_Get s)(k := None)" for s k
    by (auto simp: lock_remove_def lock_Get_def fun_eq_iff intro: lock_wf_remove)
qed (auto simp: lock_Get_def lock_Acquire_held lock_Expire_def lock_remove_def
     dest: lock_wf_bound lock_wf_token_unique)

end
