(* ===== verification/KV_Store.thy ===== *)
theory KV_Store
  imports Lock_State "HOL-Library.Product_Lexorder"
begin

text \<open>
  The state of the replicated key-value machine, \<^verbatim>\<open>kv.Store\<close>, with its plain, fenced and lock
  operations (\<^verbatim>\<open>store.go\<close>, \<^verbatim>\<open>store_kv.go\<close>, \<^verbatim>\<open>store_fenced.go\<close>, \<^verbatim>\<open>store_lock.go\<close>).  An operation
  that mutates the store returns the new store beside its Go results; the store mutex makes each
  of them one atomic step.  Logging has no effect on the state and is left out.
\<close>

record fenced_value =
  FValue :: bytes
  FToken :: nat

record store =
  st_data :: "(string, bytes) fmap"
  st_locks :: lock_state
  st_fenced :: "(string, fenced_value) fmap"
  st_jobs :: "(job_id, job) fmap"

definition NewStore :: store where
  "NewStore = \<lparr>st_data = fmempty, st_locks = NewState, st_fenced = fmempty, st_jobs = fmempty\<rparr>"

section \<open>Plain keys\<close>

definition store_Get :: "store \<Rightarrow> string \<Rightarrow> bytes option" where
  "store_Get s key = fmlookup (st_data s) key"

definition store_Put :: "store \<Rightarrow> string \<Rightarrow> bytes \<Rightarrow> store" where
  "store_Put s key v = s\<lparr>st_data := fmupd key v (st_data s)\<rparr>"

definition store_Delete :: "store \<Rightarrow> string \<Rightarrow> bool \<times> store" where
  "store_Delete s key =
     (case fmlookup (st_data s) key of
        None \<Rightarrow> (False, s)
      | Some _ \<Rightarrow> (True, s\<lparr>st_data := fmdrop key (st_data s)\<rparr>))"

section \<open>Fenced keys\<close>

definition FencedPut :: "store \<Rightarrow> string \<Rightarrow> bytes \<Rightarrow> nat \<Rightarrow> go_error option \<times> store" where
  "FencedPut s key v token =
     (if key = [] then (Some ErrInvalidKey, s)
      else if token = 0 then (Some ErrStaleFencingToken, s)
      else case lock_Get (st_locks s) key of
        None \<Rightarrow> (Some ErrLockNotFound, s)
      | Some currentLock \<Rightarrow>
          if FencingToken currentLock \<noteq> token then (Some ErrStaleFencingToken, s)
          else (None, s\<lparr>st_fenced := fmupd key \<lparr>FValue = v, FToken = token\<rparr> (st_fenced s)\<rparr>))"

definition GetFenced :: "store \<Rightarrow> string \<Rightarrow> fenced_value option" where
  "GetFenced s key = fmlookup (st_fenced s) key"

section \<open>Locks\<close>

definition AcquireLock ::
  "store \<Rightarrow> string \<Rightarrow> string \<Rightarrow> int \<Rightarrow> log_index \<Rightarrow> (lock \<times> bool) result \<times> store" where
  "AcquireLock s key ownerID expiresAt grantIndex =
     (if key = [] then (Inl ErrInvalidKey, s)
      else if ownerID = [] then (Inl ErrInvalidOwner, s)
      else case lock_Acquire (st_locks s) key ownerID expiresAt grantIndex of
        (result, acquired, ls) \<Rightarrow> (Inr (result, acquired), s\<lparr>st_locks := ls\<rparr>))"

definition GetLock :: "store \<Rightarrow> string \<Rightarrow> lock option" where
  "GetLock s key = lock_Get (st_locks s) key"

definition ExpireLock :: "store \<Rightarrow> string \<Rightarrow> nat \<Rightarrow> (lock \<times> bool) result \<times> store" where
  "ExpireLock s key expectedToken =
     (if key = [] then (Inl ErrInvalidKey, s)
      else if expectedToken = 0 then (Inl (Message ''invalid fencing token''), s)
      else case lock_Expire (st_locks s) key expectedToken of
        (result, expired, ls) \<Rightarrow> (Inr (result, expired), s\<lparr>st_locks := ls\<rparr>))"

definition ListLocks :: "store \<Rightarrow> lock list" where
  "ListLocks s = map snd (map_range (Locks (st_locks s)))"

lemmas store_kv_defs [store_defs] = store_Get_def store_Put_def store_Delete_def
lemmas store_lock_defs [store_defs] =
  FencedPut_def GetFenced_def AcquireLock_def GetLock_def ExpireLock_def

section \<open>Each operation on every branch\<close>

lemma store_Get_Put: "store_Get (store_Put s k v) k' = (if k' = k then Some v else store_Get s k')"
  by (simp add: store_kv_defs)

lemma store_Get_Delete:
  "store_Get (snd (store_Delete s k)) k' = (if k' = k then None else store_Get s k')"
  by (auto simp: store_kv_defs split: option.splits)

lemma FencedPut_accepted_iff:
  "fst (FencedPut s k v t) = None \<longleftrightarrow>
     k \<noteq> [] \<and> t \<noteq> 0 \<and> (\<exists>l. fmlookup (Locks (st_locks s)) k = Some l \<and> FencingToken l = t)"
  by (auto simp: FencedPut_def lock_Get_def split: option.splits)

lemma FencedPut_rejected: "fst (FencedPut s k v t) \<noteq> None \<Longrightarrow> snd (FencedPut s k v t) = s"
  by (auto simp: FencedPut_def split: option.splits if_splits)

lemma FencedPut_GetFenced:
  "fst (FencedPut s k v t) = None \<Longrightarrow>
     GetFenced (snd (FencedPut s k v t)) k' =
       (if k' = k then Some \<lparr>FValue = v, FToken = t\<rparr> else GetFenced s k')"
  by (auto simp: FencedPut_def GetFenced_def split: option.splits if_splits)

lemma FencedPut_frame [simp]:
  "st_data (snd (FencedPut s k v t)) = st_data s"
  "st_locks (snd (FencedPut s k v t)) = st_locks s"
  "st_jobs (snd (FencedPut s k v t)) = st_jobs s"
  by (auto simp: FencedPut_def split: option.splits)

lemma AcquireLock_frame [simp]:
  "st_data (snd (AcquireLock s k w e g)) = st_data s"
  "st_fenced (snd (AcquireLock s k w e g)) = st_fenced s"
  "st_jobs (snd (AcquireLock s k w e g)) = st_jobs s"
  by (auto simp: AcquireLock_def split: prod.splits)

lemma ExpireLock_frame [simp]:
  "st_data (snd (ExpireLock s k t)) = st_data s"
  "st_fenced (snd (ExpireLock s k t)) = st_fenced s"
  "st_jobs (snd (ExpireLock s k t)) = st_jobs s"
  by (auto simp: ExpireLock_def split: prod.splits)

lemma store_kv_frame [simp]:
  "st_locks (store_Put s k v) = st_locks s" "st_locks (snd (store_Delete s k)) = st_locks s"
  "st_fenced (store_Put s k v) = st_fenced s" "st_fenced (snd (store_Delete s k)) = st_fenced s"
  "st_jobs (store_Put s k v) = st_jobs s" "st_jobs (snd (store_Delete s k)) = st_jobs s"
  by (auto simp: store_kv_defs split: option.splits)

end
