(* ===== verification/Decimal.thy ===== *)
theory Decimal
  imports Prelude
begin

text \<open>
  Decimal numerals as \<^verbatim>\<open>strconv\<close> and \<^verbatim>\<open>fmt\<close> write and read them: \<open>show_nat\<close> and \<open>show_int\<close> print,
  \<open>ParseUint\<close> and \<open>ParseInt\<close> read a numeral of a given width and report a range error beyond it.
\<close>

section \<open>Printing\<close>

definition digit :: "nat \<Rightarrow> char" where
  "digit d = char_of (48 + d)"

fun show_nat :: "nat \<Rightarrow> string" where
  "show_nat n = (if n < 10 then [digit n] else show_nat (n div 10) @ [digit (n mod 10)])"

declare show_nat.simps [simp del]

definition show_int :: "int \<Rightarrow> string" where
  "show_int i = (if i < 0 then CHR ''-'' # show_nat (nat (- i)) else show_nat (nat i))"

lemma digit_inj: "a < 10 \<Longrightarrow> b < 10 \<Longrightarrow> digit a = digit b \<Longrightarrow> a = b"
  by (simp add: digit_def char_of_eq_iff take_bit_nat_eq_self)

lemma show_nat_inj: "show_nat n = show_nat m \<Longrightarrow> n = m"
proof (induction n arbitrary: m rule: show_nat.induct)
  case (1 n)
  have nz [simp]: "show_nat k \<noteq> []" "[] \<noteq> show_nat k" for k by (subst show_nat.simps, simp)+
  note eq = "1.prems" [unfolded show_nat.simps [of n] show_nat.simps [of m]]
  show ?case
  proof (cases "n < 10 \<or> m < 10")
    case True
    with eq digit_inj [of n m] show ?thesis by (auto split: if_splits)
  next
    case False
    with eq have "show_nat (n div 10) = show_nat (m div 10)" "digit (n mod 10) = digit (m mod 10)"
      by simp_all
    with "1.IH" False digit_inj [of "n mod 10" "m mod 10"] have "n div 10 = m div 10" "n mod 10 = m mod 10"
      by simp_all
    then show ?thesis by (metis div_mult_mod_eq)
  qed
qed

section \<open>Reading\<close>

abbreviation ErrSyntax :: go_error where "ErrSyntax \<equiv> Sentinel ''invalid syntax''"
abbreviation ErrRange :: go_error where "ErrRange \<equiv> Sentinel ''value out of range''"

definition is_digit :: "char \<Rightarrow> bool" where
  "is_digit c \<longleftrightarrow> 48 \<le> (of_char c :: nat) \<and> of_char c \<le> (57 :: nat)"

definition dec_value :: "string \<Rightarrow> nat" where
  "dec_value s = foldl (\<lambda>acc c. acc * 10 + (of_char c - 48)) 0 s"

definition ParseUint :: "nat \<Rightarrow> string \<Rightarrow> nat result" where
  "ParseUint bits s =
     (if s = [] \<or> \<not> list_all is_digit s then Inl ErrSyntax
      else if dec_value s \<ge> 2 ^ bits then Inl ErrRange else Inr (dec_value s))"

definition ParseInt :: "nat \<Rightarrow> string \<Rightarrow> int result" where
  "ParseInt bits s =
     (let neg = (s \<noteq> [] \<and> hd s = CHR ''-''); body = (if neg then tl s else s)
      in if body = [] \<or> \<not> list_all is_digit body then Inl ErrSyntax
         else let v = int (dec_value body)
              in if neg then (if v > 2 ^ (bits - 1) then Inl ErrRange else Inr (- v))
                 else if v \<ge> 2 ^ (bits - 1) then Inl ErrRange else Inr v)"

lemma is_digit_digit [simp]: "d < 10 \<Longrightarrow> is_digit (digit d)"
  by (simp add: is_digit_def digit_def)

lemma show_nat_nonempty [simp]: "show_nat n \<noteq> []"
  by (subst show_nat.simps) simp

lemma show_nat_digits: "list_all is_digit (show_nat n)"
proof (induction n rule: show_nat.induct)
  case (1 n)
  then show ?case by (subst show_nat.simps) simp
qed

lemma dec_value_snoc: "dec_value (s @ [c]) = dec_value s * 10 + (of_char c - 48)"
  by (simp add: dec_value_def)

lemma dec_value_show_nat [simp]: "dec_value (show_nat n) = n"
proof (induction n rule: show_nat.induct)
  case (1 n)
  show ?case
  proof (cases "n < 10")
    case True
    then show ?thesis by (subst show_nat.simps) (simp add: dec_value_def digit_def)
  next
    case False
    with 1 show ?thesis by (subst show_nat.simps) (simp add: dec_value_snoc digit_def)
  qed
qed

lemma show_nat_no_leading_zero: "hd (show_nat n) = CHR ''0'' \<Longrightarrow> show_nat n = ''0''"
proof (induction n rule: show_nat.induct)
  case (1 n)
  show ?case
  proof (cases "n < 10")
    case True
    with "1.prems" have "digit n = CHR ''0''" by (subst (asm) show_nat.simps) simp
    with True show ?thesis by (subst show_nat.simps) simp
  next
    case False
    with "1.prems" have "hd (show_nat (n div 10)) = CHR ''0''" by (subst (asm) show_nat.simps) simp
    with 1 False have "show_nat (n div 10) = ''0''" by simp
    moreover have "dec_value ''0'' = 0" by (simp add: dec_value_def)
    ultimately have "n div 10 = 0" by (metis dec_value_show_nat)
    with False show ?thesis by simp
  qed
qed

lemma digit_not_minus: "is_digit c \<Longrightarrow> c \<noteq> CHR ''-''"
  by (auto simp: is_digit_def)

lemma ParseUint_show_nat: "n < 2 ^ bits \<Longrightarrow> ParseUint bits (show_nat n) = Inr n"
  by (simp add: ParseUint_def show_nat_digits)

lemma ParseInt_show_int:
  assumes "- (2 ^ (bits - 1)) \<le> i" "i < 2 ^ (bits - 1)"
  shows "ParseInt bits (show_int i) = Inr i"
proof (cases "i < 0")
  case True
  with assms show ?thesis by (simp add: ParseInt_def show_int_def show_nat_digits)
next
  case False
  have "hd (show_nat (nat i)) \<noteq> CHR ''-''"
    using show_nat_digits [of "nat i"] by (cases "show_nat (nat i)") (auto dest: digit_not_minus)
  with False assms show ?thesis by (simp add: ParseInt_def show_int_def show_nat_digits Let_def)
qed

end
