(* ===== verification/KV_Jobs.thy ===== *)
theory KV_Jobs
  imports KV_Store Decimal
begin

text \<open>
  The job operations of \<^verbatim>\<open>kv.Store\<close>: create, read, update and delete (\<^verbatim>\<open>jobs_crud.go\<close>), the sorted
  listings (\<^verbatim>\<open>jobs_query.go\<close>) and the claim, reclaim and transition life cycle
  (\<^verbatim>\<open>jobs_lifecycle.go\<close>).
\<close>

abbreviation ErrJobNotFound :: go_error where "ErrJobNotFound \<equiv> Sentinel ''job not found''"
abbreviation ErrInvalidJob :: go_error where "ErrInvalidJob \<equiv> Sentinel ''invalid job''"
abbreviation ErrJobAlreadyExists :: go_error where
  "ErrJobAlreadyExists \<equiv> Sentinel ''job already exists''"
abbreviation ErrJobNotClaimable :: go_error where
  "ErrJobNotClaimable \<equiv> Sentinel ''job is not claimable''"
abbreviation ErrJobAlreadyClaimed :: go_error where
  "ErrJobAlreadyClaimed \<equiv> Sentinel ''job is already claimed''"
abbreviation ErrInvalidJobState :: go_error where
  "ErrInvalidJobState \<equiv> Sentinel ''invalid job state transition''"
abbreviation ErrJobOwnershipLost :: go_error where
  "ErrJobOwnershipLost \<equiv> Sentinel ''job ownership lost''"

section \<open>Create, read, update, delete\<close>

definition CreateJob :: "store \<Rightarrow> job \<Rightarrow> go_error option \<times> store" where
  "CreateJob s job =
     (if JobIDOf job = [] then (Some (Wrapf ''missing job ID'' [ErrInvalidJob]), s)
      else if JState job = [] then (Some (Wrapf ''missing job state'' [ErrInvalidJob]), s)
      else case fmlookup (st_jobs s) (JobIDOf job) of
        Some _ \<Rightarrow> (Some (Wrapf ''job'' [ErrJobAlreadyExists]), s)
      | None \<Rightarrow> (None, s\<lparr>st_jobs := fmupd (JobIDOf job) job (st_jobs s)\<rparr>))"

definition GetJob :: "store \<Rightarrow> job_id \<Rightarrow> job option" where
  "GetJob s jid = fmlookup (st_jobs s) jid"

definition UpdateJob :: "store \<Rightarrow> job \<Rightarrow> go_error option \<times> store" where
  "UpdateJob s job =
     (if JobIDOf job = [] then (Some (Wrapf ''missing job ID'' [ErrInvalidJob]), s)
      else case fmlookup (st_jobs s) (JobIDOf job) of
        None \<Rightarrow> (Some ErrJobNotFound, s)
      | Some _ \<Rightarrow> (None, s\<lparr>st_jobs := fmupd (JobIDOf job) job (st_jobs s)\<rparr>))"

definition DeleteJob :: "store \<Rightarrow> job_id \<Rightarrow> bool \<times> store" where
  "DeleteJob s jid =
     (case fmlookup (st_jobs s) jid of
        None \<Rightarrow> (False, s)
      | Some _ \<Rightarrow> (True, s\<lparr>st_jobs := fmdrop jid (st_jobs s)\<rparr>))"

section \<open>Listings\<close>

definition job_order :: "job \<Rightarrow> int \<times> string" where
  "job_order j = (ScheduledAt j, JobIDOf j)"

definition ListPendingJobs :: "store \<Rightarrow> job list" where
  "ListPendingJobs s =
     sort_key job_order (filter (\<lambda>j. JState j = JobPending) (map snd (map_range (st_jobs s))))"

definition lease_expired :: "store \<Rightarrow> int \<Rightarrow> job \<Rightarrow> bool" where
  "lease_expired s now j \<longleftrightarrow>
     (JState j = JobScheduled \<or> JState j = JobRunning) \<and>
     (case lock_Get (st_locks s) (JobIDOf j) of
        None \<Rightarrow> False
      | Some currentLock \<Rightarrow> FencingToken currentLock = JobToken j \<and> \<not> now < ExpiresAt currentLock)"

definition ListExpiredJobs :: "store \<Rightarrow> int \<Rightarrow> job list" where
  "ListExpiredJobs s now =
     (if now \<le> 0 then []
      else sort_key job_order (filter (lease_expired s now) (map snd (map_range (st_jobs s)))))"

definition ListAssignedJobs :: "store \<Rightarrow> string \<Rightarrow> job list" where
  "ListAssignedJobs s workerID =
     (if workerID = [] then []
      else sort_key job_order
        (filter (\<lambda>j. JState j = JobScheduled \<and> AssignedWorkerID j = workerID)
          (map snd (map_range (st_jobs s)))))"

section \<open>Execution identifiers\<close>

definition executionID :: "job_id \<Rightarrow> nat \<Rightarrow> string" where
  "executionID jobID attempt = jobID @ ''/'' @ show_nat attempt"

section \<open>Claiming\<close>

definition validateClaimArguments :: "job_id \<Rightarrow> string \<Rightarrow> int \<Rightarrow> go_error option" where
  "validateClaimArguments jid workerID expiresAt =
     (if jid = [] then Some (Wrapf ''missing job ID'' [ErrInvalidJob])
      else if workerID = [] then Some (Wrapf ''missing worker ID'' [ErrInvalidJob])
      else if expiresAt \<le> 0 then Some (Wrapf ''invalid expiration time'' [ErrInvalidJob])
      else None)"

text \<open>\<open>None\<close> is the Go result \<^verbatim>\<open>handled = false\<close>.\<close>

definition handleExistingClaim :: "job_id \<Rightarrow> string \<Rightarrow> job \<Rightarrow> job result option" where
  "handleExistingClaim jid workerID job =
     (if JState job = JobPending then None
      else if JState job = JobScheduled then
        (if AssignedWorkerID job = workerID then Some (Inr job)
         else Some (Inl (Wrapf ''job is assigned to worker'' [ErrJobAlreadyClaimed])))
      else Some (Inl (Wrapf ''job is in state'' [ErrJobNotClaimable])))"

definition handleFailedClaim ::
  "store \<Rightarrow> job_id \<Rightarrow> string \<Rightarrow> job \<Rightarrow> lock \<Rightarrow> job result \<times> store" where
  "handleFailedClaim s jid workerID job currentLock =
     (if OwnerID currentLock = workerID then
        let job' = job\<lparr>JState := JobScheduled, AssignedWorkerID := workerID,
                       JobToken := FencingToken currentLock\<rparr>
        in (Inr job', s\<lparr>st_jobs := fmupd jid job' (st_jobs s)\<rparr>)
      else (Inl (Wrapf ''job is owned by worker'' [ErrJobAlreadyClaimed]), s))"

definition ClaimJob ::
  "store \<Rightarrow> job_id \<Rightarrow> string \<Rightarrow> int \<Rightarrow> log_index \<Rightarrow> job result \<times> store" where
  "ClaimJob s jid workerID expiresAt grantIndex =
     (case validateClaimArguments jid workerID expiresAt of
        Some err \<Rightarrow> (Inl err, s)
      | None \<Rightarrow>
        (case fmlookup (st_jobs s) jid of
           None \<Rightarrow> (Inl ErrJobNotFound, s)
         | Some job \<Rightarrow>
           (case handleExistingClaim jid workerID job of
              Some result \<Rightarrow> (result, s)
            | None \<Rightarrow>
              (case lock_Acquire (st_locks s) jid workerID expiresAt grantIndex of
                 (currentLock, acquired, ls) \<Rightarrow>
                   if \<not> acquired then
                     handleFailedClaim (s\<lparr>st_locks := ls\<rparr>) jid workerID job currentLock
                   else
                     let attempt = inc32 (Attempt job);
                         job' = job\<lparr>JState := JobScheduled, AssignedWorkerID := workerID,
                                    JobToken := FencingToken currentLock, Attempt := attempt,
                                    JobExecutionID := executionID (JobIDOf job) attempt\<rparr>
                     in (Inr job', s\<lparr>st_locks := ls, st_jobs := fmupd jid job' (st_jobs s)\<rparr>)))))"

section \<open>Reclaiming\<close>

definition ReclaimExpiredJob :: "store \<Rightarrow> job_id \<Rightarrow> nat \<Rightarrow> int \<Rightarrow> job result \<times> store" where
  "ReclaimExpiredJob s jid expectedToken at =
     (if jid = [] \<or> expectedToken = 0 \<or> at \<le> 0 then (Inl ErrInvalidJob, s)
      else case fmlookup (st_jobs s) jid of
        None \<Rightarrow> (Inl ErrJobNotFound, s)
      | Some job \<Rightarrow>
          if JState job \<noteq> JobScheduled \<and> JState job \<noteq> JobRunning then (Inl ErrInvalidJobState, s)
          else if JobToken job \<noteq> expectedToken then (Inl ErrJobOwnershipLost, s)
          else case lock_Get (st_locks s) jid of
            None \<Rightarrow> (Inl ErrJobOwnershipLost, s)
          | Some currentLock \<Rightarrow>
              if FencingToken currentLock \<noteq> expectedToken then (Inl ErrJobOwnershipLost, s)
              else if ExpiresAt currentLock > at then (Inl ErrJobOwnershipLost, s)
              else
                let job' = job\<lparr>JState := JobPending, AssignedWorkerID := [], JobToken := 0\<rparr>
                in (Inr job', s\<lparr>st_locks := lock_remove (st_locks s) jid,
                                st_jobs := fmupd jid job' (st_jobs s)\<rparr>))"

section \<open>Ownership and transitions\<close>

definition ValidateJobOwnership :: "store \<Rightarrow> job_id \<Rightarrow> string \<Rightarrow> nat \<Rightarrow> int \<Rightarrow> bool" where
  "ValidateJobOwnership s jobID workerID token now =
     (if jobID = [] \<or> workerID = [] \<or> token = 0 then False
      else case fmlookup (st_jobs s) jobID of
        None \<Rightarrow> False
      | Some job \<Rightarrow>
          if AssignedWorkerID job \<noteq> workerID then False
          else if JobToken job \<noteq> token then False
          else if JState job \<noteq> JobScheduled \<and> JState job \<noteq> JobRunning then False
          else case lock_Get (st_locks s) jobID of
            None \<Rightarrow> False
          | Some currentLock \<Rightarrow>
              if OwnerID currentLock \<noteq> workerID then False
              else if FencingToken currentLock \<noteq> token then False
              else if ExpiresAt currentLock \<le> now then False
              else True)"

definition validateTransitionArguments ::
  "job_id \<Rightarrow> string \<Rightarrow> string \<Rightarrow> nat \<Rightarrow> int \<Rightarrow> go_error option" where
  "validateTransitionArguments jobID workerID execID token at =
     (if jobID = [] \<or> workerID = [] \<or> execID = [] \<or> token = 0 then Some ErrInvalidJob
      else if at \<le> 0 then Some ErrInvalidJob
      else None)"

definition validateTransitionStates :: "job_state \<Rightarrow> job_state \<Rightarrow> go_error option" where
  "validateTransitionStates expectedState nextState =
     (if expectedState \<noteq> JobScheduled \<and> expectedState \<noteq> JobRunning then Some ErrInvalidJobState
      else if nextState \<noteq> JobRunning \<and> nextState \<noteq> JobSucceeded \<and> nextState \<noteq> JobFailed
      then Some ErrInvalidJobState
      else if expectedState = JobScheduled \<and> nextState \<noteq> JobRunning then Some ErrInvalidJobState
      else if expectedState = JobRunning \<and> nextState \<noteq> JobSucceeded \<and> nextState \<noteq> JobFailed
      then Some ErrInvalidJobState
      else None)"

definition validateTransitionOwnership ::
  "store \<Rightarrow> job \<Rightarrow> job_id \<Rightarrow> string \<Rightarrow> string \<Rightarrow> nat \<Rightarrow> int \<Rightarrow> job_state \<Rightarrow> go_error option" where
  "validateTransitionOwnership s job jobID workerID execID token at expectedState =
     (if JState job \<noteq> expectedState then Some ErrInvalidJobState
      else if AssignedWorkerID job \<noteq> workerID then Some ErrJobOwnershipLost
      else if JobExecutionID job \<noteq> execID then Some ErrJobOwnershipLost
      else if JobToken job \<noteq> token then Some ErrJobOwnershipLost
      else case lock_Get (st_locks s) jobID of
        None \<Rightarrow> Some ErrJobOwnershipLost
      | Some currentLock \<Rightarrow>
          if OwnerID currentLock \<noteq> workerID then Some ErrJobOwnershipLost
          else if FencingToken currentLock \<noteq> token then Some ErrJobOwnershipLost
          else if ExpiresAt currentLock \<le> at then Some ErrJobOwnershipLost
          else None)"

definition TransitionJobState ::
  "store \<Rightarrow> job_id \<Rightarrow> string \<Rightarrow> string \<Rightarrow> nat \<Rightarrow> job_state \<Rightarrow> job_state \<Rightarrow> int \<Rightarrow> job result \<times> store"
where
  "TransitionJobState s jobID workerID execID token expectedState nextState at =
     (case validateTransitionArguments jobID workerID execID token at of
        Some err \<Rightarrow> (Inl err, s)
      | None \<Rightarrow>
        (case validateTransitionStates expectedState nextState of
           Some err \<Rightarrow> (Inl err, s)
         | None \<Rightarrow>
           (case fmlookup (st_jobs s) jobID of
              None \<Rightarrow> (Inl ErrJobNotFound, s)
            | Some job \<Rightarrow>
              (case validateTransitionOwnership s job jobID workerID execID token at expectedState of
                 Some err \<Rightarrow> (Inl err, s)
               | None \<Rightarrow>
                   let job' = job\<lparr>JState := nextState\<rparr>
                   in (Inr job', s\<lparr>st_jobs := fmupd jobID job' (st_jobs s)\<rparr>)))))"

end
