(* ===== verification/Bytes_Codec.thy ===== *)
theory Bytes_Codec
  imports Prelude
begin

text \<open>
  The part of \<^verbatim>\<open>encoding/binary\<close>, \<^verbatim>\<open>bytes.Buffer\<close> and \<^verbatim>\<open>bytes.Reader\<close> the codecs use: big-endian unsigned
  integers, and readers as functions from the unread bytes to a value and the bytes left.  Writing to
  a \<^verbatim>\<open>bytes.Buffer\<close> never fails, so an encoder concatenates.
\<close>

abbreviation io_EOF :: go_error where "io_EOF \<equiv> Sentinel ''EOF''"
abbreviation io_ErrUnexpectedEOF :: go_error where "io_ErrUnexpectedEOF \<equiv> Sentinel ''unexpected EOF''"

type_synonym 'a reader = "bytes \<Rightarrow> ('a \<times> bytes) result"

definition bind_result :: "'a result \<Rightarrow> ('a \<Rightarrow> 'b result) \<Rightarrow> 'b result" where
  "bind_result r f = (case r of Inl err \<Rightarrow> Inl err | Inr x \<Rightarrow> f x)"

definition wrap_error :: "string \<Rightarrow> 'a result \<Rightarrow> 'a result" where
  "wrap_error msg r = (case r of Inl err \<Rightarrow> Inl (Wrapf msg [err]) | Inr x \<Rightarrow> Inr x)"

lemma bind_result_simps [simp]: "bind_result (Inl e) f = Inl e" "bind_result (Inr x) f = f x"
  by (simp_all add: bind_result_def)

lemma bind_result_Inr: "bind_result r f = Inr y \<longleftrightarrow> (\<exists>x. r = Inr x \<and> f x = Inr y)"
  by (cases r) auto

lemma wrap_error_simps [simp]:
  "wrap_error m (Inl e) = Inl (Wrapf m [e])" "wrap_error m (Inr x) = Inr x"
  by (simp_all add: wrap_error_def)

lemma wrap_error_Inr: "wrap_error m r = Inr x \<longleftrightarrow> r = Inr x"
  by (cases r) auto

lemmas reader_iffs = bind_result_Inr wrap_error_Inr

section \<open>Big-endian integers\<close>

fun be_bytes :: "nat \<Rightarrow> nat \<Rightarrow> bytes" where
  "be_bytes 0 n = []"
| "be_bytes (Suc k) n = char_of (n div 256 ^ k) # be_bytes k n"

definition be_value :: "bytes \<Rightarrow> nat" where
  "be_value bs = foldl (\<lambda>acc b. acc * 256 + of_char b) 0 bs"

lemma length_be_bytes [simp]: "length (be_bytes k n) = k"
  by (induction k) auto

lemma be_value_Nil [simp]: "be_value [] = 0"
  by (simp add: be_value_def)

lemma foldl_be: "foldl (\<lambda>acc b. acc * 256 + of_char b) (a :: nat) bs = a * 256 ^ length bs + be_value bs"
proof (induction bs arbitrary: a)
  case (Cons b bs)
  have "be_value (b # bs) = of_char b * 256 ^ length bs + be_value bs"
    unfolding be_value_def by (simp add: Cons.IH [of "of_char b"] be_value_def)
  with Cons.IH [of "a * 256 + of_char b"] show ?case by (simp add: algebra_simps)
qed (simp add: be_value_def)

lemma be_value_Cons: "be_value (b # bs) = of_char b * 256 ^ length bs + be_value bs"
  using foldl_be [of "of_char b" bs] by (simp add: be_value_def)

lemma be_value_be_bytes: "be_value (be_bytes k n) = n mod 256 ^ k"
proof (induction k)
  case (Suc k)
  have "be_value (be_bytes (Suc k) n) = (n div 256 ^ k mod 256) * 256 ^ k + n mod 256 ^ k"
    by (simp add: be_value_Cons Suc)
  also have "\<dots> = n mod (256 ^ k * 256)" by (subst mod_mult2_eq) simp
  finally show ?case by (simp add: mult.commute)
qed simp

lemma be_value_less: "be_value bs < 256 ^ length bs"
proof (induction bs)
  case (Cons b bs)
  have "of_char b < (256 :: nat)" using range_nat_of_char by (metis lessThan_iff rangeI atLeastLessThan_iff)
  then have "of_char b * 256 ^ length bs + be_value bs < (of_char b + 1) * (256 :: nat) ^ length bs"
    using Cons by simp
  also have "\<dots> \<le> 256 * 256 ^ length bs" using \<open>of_char b < (256 :: nat)\<close> by (intro mult_right_mono, linarith, simp)
  finally show ?case by (simp add: be_value_Cons)
qed simp

lemma be_bytes_add_multiple: "be_bytes k (m * 256 ^ k + n) = be_bytes k n"
proof (induction k arbitrary: m)
  case (Suc k)
  have 1: "m * 256 ^ Suc k + n = (m * 256) * 256 ^ k + n" by simp
  have "(m * 256 * 256 ^ k + n) div 256 ^ k = m * 256 + n div 256 ^ k" by simp
  then show ?case unfolding 1 using Suc.IH [of "m * 256"] by simp
qed simp

lemma be_bytes_be_value: "be_bytes (length bs) (be_value bs) = bs"
proof (induction bs)
  case (Cons b bs)
  have "be_value (b # bs) div 256 ^ length bs = of_char b"
    using be_value_less [of bs] by (simp add: be_value_Cons)
  then show ?case using Cons by (simp add: be_value_Cons be_bytes_add_multiple)
qed simp

section \<open>Readers\<close>

definition read_full :: "nat \<Rightarrow> bytes reader" where
  "read_full k bs =
     (if k = 0 then Inr ([], bs)
      else if bs = [] then Inl io_EOF
      else if length bs < k then Inl io_ErrUnexpectedEOF
      else Inr (take k bs, drop k bs))"

definition read_byte :: "char reader" where
  "read_byte bs = (case bs of [] \<Rightarrow> Inl io_EOF | b # rest \<Rightarrow> Inr (b, rest))"

definition read_uint :: "nat \<Rightarrow> nat reader" where
  "read_uint k bs = bind_result (read_full k bs) (\<lambda>(w, rest). Inr (be_value w, rest))"

abbreviation read_uint32 :: "nat reader" where "read_uint32 \<equiv> read_uint 4"
abbreviation read_uint64 :: "nat reader" where "read_uint64 \<equiv> read_uint 8"
abbreviation put_uint32 :: "nat \<Rightarrow> bytes" where "put_uint32 \<equiv> be_bytes 4"
abbreviation put_uint64 :: "nat \<Rightarrow> bytes" where "put_uint64 \<equiv> be_bytes 8"

lemma read_full_append: "length xs = k \<Longrightarrow> read_full k (xs @ ys) = Inr (xs, ys)"
  by (cases xs) (auto simp: read_full_def)

lemma read_full_Inr: "read_full k bs = Inr (xs, ys) \<longleftrightarrow> bs = xs @ ys \<and> length xs = k"
proof
  show "read_full k bs = Inr (xs, ys) \<Longrightarrow> bs = xs @ ys \<and> length xs = k"
    by (auto simp: read_full_def split: if_splits)
qed (auto simp: read_full_append)

lemma read_byte_Cons [simp]: "read_byte (b # bs) = Inr (b, bs)"
  by (simp add: read_byte_def)

lemma read_byte_Inr: "read_byte bs = Inr (b, ys) \<longleftrightarrow> bs = b # ys"
  by (cases bs) (auto simp: read_byte_def)

lemma read_uint_put: "n < 256 ^ k \<Longrightarrow> read_uint k (be_bytes k n @ ys) = Inr (n, ys)"
  by (simp add: read_uint_def read_full_append be_value_be_bytes)

lemma read_uint_Inr: "read_uint k bs = Inr (n, ys) \<longleftrightarrow> n < 256 ^ k \<and> bs = be_bytes k n @ ys"
proof
  assume "read_uint k bs = Inr (n, ys)"
  then obtain w where "bs = w @ ys" "length w = k" "n = be_value w"
    by (auto simp: read_uint_def bind_result_Inr read_full_Inr)
  then show "n < 256 ^ k \<and> bs = be_bytes k n @ ys"
    using be_value_less [of w] be_bytes_be_value [of w] by auto
qed (auto simp: read_uint_put)

end
