(* ===== verification/Base64.thy ===== *)
theory Base64
  imports Bytes_Codec
begin

text \<open>
  \<^verbatim>\<open>base64.StdEncoding\<close>, the form in which \<^verbatim>\<open>encoding/json\<close> writes byte slices.  The decoder skips line
  breaks, as the standard library does, and rejects bad padding and characters outside the alphabet.
\<close>

definition b64_alphabet :: string where
  "b64_alphabet = ''ABCDEFGHIJKLMNOPQRSTUVWXYZabcdefghijklmnopqrstuvwxyz0123456789+/''"

definition b64_char :: "nat \<Rightarrow> char" where
  "b64_char n = b64_alphabet ! n"

fun index_of :: "'a \<Rightarrow> 'a list \<Rightarrow> nat option" where
  "index_of x [] = None"
| "index_of x (y # ys) = (if x = y then Some 0 else map_option Suc (index_of x ys))"

definition b64_index :: "char \<Rightarrow> nat option" where
  "b64_index c = index_of c b64_alphabet"

abbreviation byte :: "char \<Rightarrow> nat" where "byte c \<equiv> of_char c"

fun b64_encode :: "bytes \<Rightarrow> string" where
  "b64_encode [] = []"
| "b64_encode [a] = [b64_char (byte a div 4), b64_char (byte a mod 4 * 16), CHR ''='', CHR ''='']"
| "b64_encode [a, b] = [b64_char (byte a div 4), b64_char (byte a mod 4 * 16 + byte b div 16),
     b64_char (byte b mod 16 * 4), CHR ''='']"
| "b64_encode (a # b # c # rest) = b64_char (byte a div 4) # b64_char (byte a mod 4 * 16 + byte b div 16) #
     b64_char (byte b mod 16 * 4 + byte c div 64) # b64_char (byte c mod 64) # b64_encode rest"

definition ErrCorruptInput :: go_error where
  "ErrCorruptInput = Message ''illegal base64 data''"

fun b64_quads :: "string \<Rightarrow> bytes result" where
  "b64_quads [] = Inr []"
| "b64_quads (c1 # c2 # c3 # c4 # rest) =
     (case (b64_index c1, b64_index c2) of
        (Some n1, Some n2) \<Rightarrow>
          if c3 = CHR ''='' \<and> c4 = CHR ''='' \<and> rest = [] then Inr [char_of (n1 * 4 + n2 div 16)]
          else (case b64_index c3 of
             None \<Rightarrow> Inl ErrCorruptInput
           | Some n3 \<Rightarrow>
               if c4 = CHR ''='' \<and> rest = []
               then Inr [char_of (n1 * 4 + n2 div 16), char_of (n2 mod 16 * 16 + n3 div 4)]
               else (case b64_index c4 of
                  None \<Rightarrow> Inl ErrCorruptInput
                | Some n4 \<Rightarrow> bind_result (b64_quads rest) (\<lambda>bs.
                    Inr (char_of (n1 * 4 + n2 div 16) # char_of (n2 mod 16 * 16 + n3 div 4) #
                      char_of (n3 mod 4 * 64 + n4) # bs))))
      | _ \<Rightarrow> Inl ErrCorruptInput)"
| "b64_quads _ = Inl ErrCorruptInput"

definition b64_decode :: "string \<Rightarrow> bytes result" where
  "b64_decode s = b64_quads (filter (\<lambda>c. c \<noteq> CHR 0x0A \<and> c \<noteq> CHR 0x0D) s)"

section \<open>Decoding inverts encoding\<close>

lemma index_of_nth: "distinct xs \<Longrightarrow> i < length xs \<Longrightarrow> index_of (xs ! i) xs = Some i"
  by (induction xs arbitrary: i) (auto simp: nth_Cons split: nat.splits)

lemma b64_alphabet_facts:
  "distinct b64_alphabet" "length b64_alphabet = 64"
  by (simp_all add: b64_alphabet_def)

lemma b64_index_char [simp]: "n < 64 \<Longrightarrow> b64_index (b64_char n) = Some n"
  by (simp add: b64_index_def b64_char_def index_of_nth b64_alphabet_facts)

text \<open>Characters that a JSON string holds unescaped.\<close>

definition b64_safe :: "char \<Rightarrow> bool" where
  "b64_safe c \<longleftrightarrow> c \<notin> {CHR 0x0A, CHR 0x0D, CHR 0x22, CHR 0x5C, CHR 0x26, CHR 0x3C, CHR 0x3E} \<and> 32 \<le> byte c \<and> byte c < 128"

lemma b64_alphabet_safe: "list_all (\<lambda>c. b64_safe c \<and> c \<noteq> CHR ''='') b64_alphabet"
  by code_simp

lemma b64_char_safe: "n < 64 \<Longrightarrow> b64_safe (b64_char n)" "n < 64 \<Longrightarrow> b64_char n \<noteq> CHR ''=''"
  using b64_alphabet_safe by (simp_all add: list_all_length b64_char_def b64_alphabet_facts)

lemma byte_less [simp]: "byte c < 256"
  by (metis atLeastLessThan_iff range_nat_of_char rangeI lessThan_iff)

lemma b64_sextets:
  "byte a div 4 < 64" "byte a mod 4 * 16 < 64" "byte a mod 4 * 16 + byte b div 16 < 64"
  "byte b mod 16 * 4 < 64" "byte b mod 16 * 4 + byte c div 64 < 64" "byte c mod 64 < 64"
  using byte_less [of a] byte_less [of b] byte_less [of c] by linarith+

lemma b64_join:
  fixes a b c :: nat
  assumes "a < 256" "b < 256" "c < 256"
  shows "a div 4 * 4 + (a mod 4 * 16 + b div 16) div 16 = a"
    "(a mod 4 * 16 + b div 16) mod 16 * 16 + (b mod 16 * 4 + c div 64) div 4 = b"
    "(b mod 16 * 4 + c div 64) mod 4 * 64 + c mod 64 = c"
proof -
  have "b div 16 < 16" "c div 64 < 4" using assms by (simp_all add: div_less_iff_less_mult)
  then show "a div 4 * 4 + (a mod 4 * 16 + b div 16) div 16 = a"
    "(a mod 4 * 16 + b div 16) mod 16 * 16 + (b mod 16 * 4 + c div 64) div 4 = b"
    "(b mod 16 * 4 + c div 64) mod 4 * 64 + c mod 64 = c"
    by simp_all
qed

lemma b64_quads_encode: "b64_quads (b64_encode bs) = Inr bs"
proof (induction bs rule: b64_encode.induct)
  case (2 a)
  show ?case using b64_join(1) [of "byte a" 0 0] by (simp add: b64_sextets)
next
  case (3 a b)
  show ?case
    using b64_join(1,2) [of "byte a" "byte b" 0] b64_char_safe(2) [OF b64_sextets(4), of b]
    by (simp add: b64_sextets)
next
  case (4 a b c rest)
  show ?case
    using b64_join [of "byte a" "byte b" "byte c"] b64_char_safe(2) [OF b64_sextets(5), of b c]
      b64_char_safe(2) [OF b64_sextets(6), of c] 4
    by (simp add: b64_sextets)
qed simp

lemma b64_encode_safe: "list_all b64_safe (b64_encode bs)"
  by (induction bs rule: b64_encode.induct) (simp_all add: b64_char_safe(1) b64_sextets, simp_all add: b64_safe_def)

theorem b64_decode_encode: "b64_decode (b64_encode bs) = Inr bs"
proof -
  have "filter (\<lambda>c. c \<noteq> CHR 0x0A \<and> c \<noteq> CHR 0x0D) (b64_encode bs) = b64_encode bs"
    using b64_encode_safe [of bs] by (auto simp: list_all_iff b64_safe_def intro!: filter_True)
  then show ?thesis by (simp only: b64_decode_def b64_quads_encode)
qed

end
