(* ===== verification/Json.thy ===== *)
theory Json
  imports Base64 Decimal
begin

text \<open>
  The part of \<^verbatim>\<open>encoding/json\<close> the program uses: values, the compact text \<^verbatim>\<open>json.Marshal\<close> writes (strings
  escaped for HTML, bytes that are not UTF-8 replaced by U+FFFD) and the parser behind
  \<^verbatim>\<open>json.Unmarshal\<close>.  Structures and maps are turned into values by the components that encode them.
  The parser takes fuel; a text of \<open>n\<close> bytes needs at most \<open>2 n + 1\<close> (\<open>parse_fuel\<close>), which is what
  \<open>json_parse\<close> gives it.  The nesting limit of the library (10000) is not modelled.
\<close>

section \<open>Values\<close>

datatype json =
    JNull
  | JBool bool
  | JNumber string
  | JString string
  | JArray "json list"
  | JObject "(string \<times> json) list"

section \<open>UTF-8\<close>

definition in_range :: "nat \<Rightarrow> nat \<Rightarrow> char \<Rightarrow> bool" where
  "in_range lo hi c \<longleftrightarrow> lo \<le> byte c \<and> byte c \<le> hi"

definition second3 :: "char \<Rightarrow> char \<Rightarrow> bool" where
  "second3 b0 b1 = in_range (if byte b0 = 0xE0 then 0xA0 else 0x80) (if byte b0 = 0xED then 0x9F else 0xBF) b1"

definition second4 :: "char \<Rightarrow> char \<Rightarrow> bool" where
  "second4 b0 b1 = in_range (if byte b0 = 0xF0 then 0x90 else 0x80) (if byte b0 = 0xF4 then 0x8F else 0xBF) b1"

text \<open>The length of the encoded character at the head, 0 when there is none.\<close>

definition utf8_take :: "bytes \<Rightarrow> nat" where
  "utf8_take bs =
     (case bs of [] \<Rightarrow> 0 | b0 # r \<Rightarrow>
        if byte b0 < 0x80 then 1
        else if in_range 0xC2 0xDF b0
        then (case r of b1 # _ \<Rightarrow> if in_range 0x80 0xBF b1 then 2 else 0 | _ \<Rightarrow> 0)
        else if in_range 0xE0 0xEF b0
        then (case r of b1 # b2 # _ \<Rightarrow> if second3 b0 b1 \<and> in_range 0x80 0xBF b2 then 3 else 0 | _ \<Rightarrow> 0)
        else if in_range 0xF0 0xF4 b0
        then (case r of b1 # b2 # b3 # _ \<Rightarrow>
                if second4 b0 b1 \<and> in_range 0x80 0xBF b2 \<and> in_range 0x80 0xBF b3 then 4 else 0 | _ \<Rightarrow> 0)
        else 0)"

definition utf8_encode :: "nat \<Rightarrow> bytes" where
  "utf8_encode r =
     (if r < 0x80 then [char_of r]
      else if r < 0x800 then [char_of (0xC0 + r div 64), char_of (0x80 + r mod 64)]
      else if r < 0x10000
      then [char_of (0xE0 + r div 4096), char_of (0x80 + r div 64 mod 64), char_of (0x80 + r mod 64)]
      else [char_of (0xF0 + r div 262144), char_of (0x80 + r div 4096 mod 64),
            char_of (0x80 + r div 64 mod 64), char_of (0x80 + r mod 64)])"

definition rune_error :: nat where "rune_error = 0xFFFD"

function utf8_ok :: "bytes \<Rightarrow> bool" where
  "utf8_ok [] = True"
| "utf8_ok (b # rest) = (utf8_take (b # rest) > 0 \<and> utf8_ok (drop (utf8_take (b # rest) - 1) rest))"
  by pat_completeness auto
termination by (relation "measure length") auto

section \<open>Writing\<close>

abbreviation quote_char :: char where "quote_char \<equiv> CHR 0x22"
abbreviation escape_char :: char where "escape_char \<equiv> CHR 0x5C"

definition hex_digit :: "nat \<Rightarrow> char" where
  "hex_digit n = ''0123456789abcdef'' ! n"

definition escape_u :: "nat \<Rightarrow> string" where
  "escape_u r = [escape_char, CHR ''u'', hex_digit (r div 4096 mod 16), hex_digit (r div 256 mod 16),
     hex_digit (r div 16 mod 16), hex_digit (r mod 16)]"

definition escape_ascii :: "char \<Rightarrow> string" where
  "escape_ascii b =
     (if b = quote_char \<or> b = escape_char then [escape_char, b]
      else if byte b = 8 then [escape_char, CHR ''b'']
      else if byte b = 12 then [escape_char, CHR ''f'']
      else if byte b = 10 then [escape_char, CHR ''n'']
      else if byte b = 13 then [escape_char, CHR ''r'']
      else if byte b = 9 then [escape_char, CHR ''t'']
      else if byte b < 32 \<or> b \<in> {CHR ''<'', CHR ''>'', CHR ''&''} then escape_u (byte b)
      else [b])"

function json_escape :: "bytes \<Rightarrow> string" where
  "json_escape [] = []"
| "json_escape (b # rest) =
     (if byte b < 0x80 then escape_ascii b @ json_escape rest
      else let k = utf8_take (b # rest)
           in if k = 0 then escape_u rune_error @ json_escape rest
              else let c = take k (b # rest)
                   in (if c = utf8_encode 0x2028 then escape_u 0x2028
                       else if c = utf8_encode 0x2029 then escape_u 0x2029 else c) @
                      json_escape (drop (k - 1) rest))"
  by pat_completeness auto
termination by (relation "measure length") auto

definition json_quote :: "bytes \<Rightarrow> string" where
  "json_quote s = quote_char # json_escape s @ [quote_char]"

fun commas :: "string list \<Rightarrow> string" where
  "commas [] = []"
| "commas [x] = x"
| "commas (x # y # rest) = x @ '','' @ commas (y # rest)"

fun json_print :: "json \<Rightarrow> string" where
  "json_print JNull = ''null''"
| "json_print (JBool b) = (if b then ''true'' else ''false'')"
| "json_print (JNumber n) = n"
| "json_print (JString s) = json_quote s"
| "json_print (JArray vs) = ''['' @ commas (map json_print vs) @ '']''"
| "json_print (JObject ms) = ''{'' @ commas (map (\<lambda>(k, v). json_quote k @ '':'' @ json_print v) ms) @ ''}''"

section \<open>Reading\<close>

abbreviation ErrJSON :: go_error where "ErrJSON \<equiv> Message ''invalid JSON''"

definition skip_ws :: "bytes \<Rightarrow> bytes" where
  "skip_ws = dropWhile (\<lambda>c. c \<in> {CHR '' '', CHR 0x09, CHR 0x0A, CHR 0x0D})"

definition hex_value :: "char \<Rightarrow> nat option" where
  "hex_value c =
     (if is_digit c then Some (byte c - 48)
      else if in_range 97 102 c then Some (byte c - 87)
      else if in_range 65 70 c then Some (byte c - 55) else None)"

definition hex4 :: "bytes \<Rightarrow> (nat \<times> bytes) option" where
  "hex4 bs = (case bs of a # b # c # d # rest \<Rightarrow>
      (case (hex_value a, hex_value b, hex_value c, hex_value d) of
         (Some w, Some x, Some y, Some z) \<Rightarrow> Some (w * 4096 + x * 256 + y * 16 + z, rest)
       | _ \<Rightarrow> None)
    | _ \<Rightarrow> None)"

definition simple_escape :: "char \<Rightarrow> char option" where
  "simple_escape c =
     (if c = quote_char \<or> c = escape_char \<or> c = CHR ''/'' then Some c
      else if c = CHR ''b'' then Some (CHR 0x08) else if c = CHR ''f'' then Some (CHR 0x0C)
      else if c = CHR ''n'' then Some (CHR 0x0A) else if c = CHR ''r'' then Some (CHR 0x0D)
      else if c = CHR ''t'' then Some (CHR 0x09) else None)"

text \<open>The character of an escape \<open>r\<close> and what is left: a pair of surrogates is one character.\<close>

definition surrogates :: "nat \<Rightarrow> bytes \<Rightarrow> nat \<times> bytes" where
  "surrogates r rest =
     (if r < 0xD800 \<or> r \<ge> 0xE000 then (r, rest)
      else case (if take 2 rest = [escape_char, CHR ''u''] then hex4 (drop 2 rest) else None) of
        Some (r2, rest') \<Rightarrow>
          if r < 0xDC00 \<and> 0xDC00 \<le> r2 \<and> r2 < 0xE000
          then ((r - 0xD800) * 1024 + (r2 - 0xDC00) + 0x10000, rest') else (rune_error, rest)
      | None \<Rightarrow> (rune_error, rest))"

lemma hex4_length: "hex4 bs = Some (r, rest) \<Longrightarrow> length rest < length bs"
  by (auto simp: hex4_def split: list.splits option.splits)

lemma surrogates_length: "surrogates r rest = (c, rest') \<Longrightarrow> length rest' \<le> length rest"
  by (auto simp: surrogates_def split: if_splits option.splits dest!: hex4_length)

text \<open>The rest of a string literal after its opening quote.\<close>

function parse_str :: "bytes \<Rightarrow> (bytes \<times> bytes) result" where
  "parse_str [] = Inl ErrJSON"
| "parse_str (b # rest) =
     (if b = quote_char then Inr ([], rest)
      else if b = escape_char then
        (case rest of
           [] \<Rightarrow> Inl ErrJSON
         | e # rest1 \<Rightarrow>
             (case simple_escape e of
                Some c \<Rightarrow> bind_result (parse_str rest1) (\<lambda>(s, r). Inr (c # s, r))
              | None \<Rightarrow>
                  if e = CHR ''u'' then
                    (case hex4 rest1 of
                       None \<Rightarrow> Inl ErrJSON
                     | Some (u, rest2) \<Rightarrow>
                         bind_result (parse_str (snd (surrogates u rest2)))
                           (\<lambda>(s, r). Inr (utf8_encode (fst (surrogates u rest2)) @ s, r)))
                  else Inl ErrJSON))
      else if byte b < 32 then Inl ErrJSON
      else if byte b < 0x80 then bind_result (parse_str rest) (\<lambda>(s, r). Inr (b # s, r))
      else let k = utf8_take (b # rest)
           in if k = 0 then bind_result (parse_str rest) (\<lambda>(s, r). Inr (utf8_encode rune_error @ s, r))
              else bind_result (parse_str (drop (k - 1) rest)) (\<lambda>(s, r). Inr (take k (b # rest) @ s, r)))"
  by pat_completeness auto
termination
proof (relation "measure length")
  show "(snd (surrogates u rest2), b # rest) \<in> measure length"
    if "rest = e # rest1" "hex4 rest1 = Some x" "(u, rest2) = x" for b rest e rest1 x u rest2
    using that hex4_length [of rest1 u rest2] surrogates_length [OF surjective_pairing, of u rest2] by simp
qed auto

definition parse_digits :: "bytes \<Rightarrow> (string \<times> bytes) result" where
  "parse_digits bs = (if takeWhile is_digit bs = [] then Inl ErrJSON
     else Inr (takeWhile is_digit bs, dropWhile is_digit bs))"

definition parse_int :: "bytes \<Rightarrow> (string \<times> bytes) result" where
  "parse_int bs = (case bs of c # rest \<Rightarrow> if c = CHR ''0'' then Inr (''0'', rest) else parse_digits bs
     | [] \<Rightarrow> Inl ErrJSON)"

definition parse_frac :: "bytes \<Rightarrow> (string \<times> bytes) result" where
  "parse_frac bs = (case bs of
       c # rest \<Rightarrow> if c = CHR ''.'' then bind_result (parse_digits rest) (\<lambda>(ds, r). Inr (c # ds, r)) else Inr ([], bs)
     | [] \<Rightarrow> Inr ([], bs))"

definition parse_exp :: "bytes \<Rightarrow> (string \<times> bytes) result" where
  "parse_exp bs = (case bs of
       c # rest \<Rightarrow>
         if c \<noteq> CHR ''e'' \<and> c \<noteq> CHR ''E'' then Inr ([], bs)
         else let (sign, rest') = (case rest of
                  d # r \<Rightarrow> if d = CHR ''+'' \<or> d = CHR ''-'' then ([d], r) else ([], rest)
                | [] \<Rightarrow> ([], rest))
              in bind_result (parse_digits rest') (\<lambda>(ds, r). Inr (c # sign @ ds, r))
     | [] \<Rightarrow> Inr ([], bs))"

definition parse_number :: "bytes \<Rightarrow> (string \<times> bytes) result" where
  "parse_number bs =
     (let (sign, bs1) = (case bs of c # r \<Rightarrow> if c = CHR ''-'' then ([c], r) else ([], bs) | [] \<Rightarrow> ([], bs))
      in bind_result (parse_int bs1) (\<lambda>(int, bs2).
         bind_result (parse_frac bs2) (\<lambda>(frac, bs3).
         bind_result (parse_exp bs3) (\<lambda>(exp, bs4). Inr (sign @ int @ frac @ exp, bs4)))))"

definition parse_word :: "string \<Rightarrow> json \<Rightarrow> json reader" where
  "parse_word w v bs = (if take (length w) bs = w then Inr (v, drop (length w) bs) else Inl ErrJSON)"

fun parse_value :: "nat \<Rightarrow> json reader"
  and parse_elements :: "nat \<Rightarrow> json list reader"
  and parse_members :: "nat \<Rightarrow> (string \<times> json) list reader" where
  "parse_value 0 bs = Inl (Message ''out of fuel'')"
| "parse_value (Suc k) bs =
     (case skip_ws bs of
        [] \<Rightarrow> Inl ErrJSON
      | c # rest \<Rightarrow>
          if c = CHR ''{'' then
            (if skip_ws rest \<noteq> [] \<and> hd (skip_ws rest) = CHR ''}'' then Inr (JObject [], tl (skip_ws rest))
             else bind_result (parse_members k rest) (\<lambda>(ms, r). Inr (JObject ms, r)))
          else if c = CHR ''['' then
            (if skip_ws rest \<noteq> [] \<and> hd (skip_ws rest) = CHR '']'' then Inr (JArray [], tl (skip_ws rest))
             else bind_result (parse_elements k rest) (\<lambda>(vs, r). Inr (JArray vs, r)))
          else if c = quote_char then bind_result (parse_str rest) (\<lambda>(s, r). Inr (JString s, r))
          else if c = CHR ''n'' then parse_word ''null'' JNull (c # rest)
          else if c = CHR ''t'' then parse_word ''true'' (JBool True) (c # rest)
          else if c = CHR ''f'' then parse_word ''false'' (JBool False) (c # rest)
          else bind_result (parse_number (c # rest)) (\<lambda>(n, r). Inr (JNumber n, r)))"
| "parse_elements 0 bs = Inl (Message ''out of fuel'')"
| "parse_elements (Suc k) bs =
     bind_result (parse_value k bs) (\<lambda>(v, r).
       case skip_ws r of
         [] \<Rightarrow> Inl ErrJSON
       | c # r1 \<Rightarrow>
           if c = CHR '','' then bind_result (parse_elements k r1) (\<lambda>(vs, r2). Inr (v # vs, r2))
           else if c = CHR '']'' then Inr ([v], r1) else Inl ErrJSON)"
| "parse_members 0 bs = Inl (Message ''out of fuel'')"
| "parse_members (Suc k) bs =
     (case skip_ws bs of
        [] \<Rightarrow> Inl ErrJSON
      | q # rest \<Rightarrow>
          if q \<noteq> quote_char then Inl ErrJSON
          else bind_result (parse_str rest) (\<lambda>(key, r).
            case skip_ws r of
              [] \<Rightarrow> Inl ErrJSON
            | c # r1 \<Rightarrow>
                if c \<noteq> CHR '':'' then Inl ErrJSON
                else bind_result (parse_value k r1) (\<lambda>(v, r2).
                  case skip_ws r2 of
                    [] \<Rightarrow> Inl ErrJSON
                  | d # r3 \<Rightarrow>
                      if d = CHR '','' then bind_result (parse_members k r3) (\<lambda>(ms, r4). Inr ((key, v) # ms, r4))
                      else if d = CHR ''}'' then Inr ([(key, v)], r3) else Inl ErrJSON)))"

definition json_parse :: "bytes \<Rightarrow> json result" where
  "json_parse bs = bind_result (parse_value (2 * length bs + 1) bs) (\<lambda>(v, rest).
     if skip_ws rest = [] then Inr v else Inl ErrJSON)"

end
