(* ===== verification/Json_Roundtrip.thy ===== *)
theory Json_Roundtrip
  imports Json
begin

text \<open>
  Reading what was written: \<open>json_parse\<close> inverts \<open>json_print\<close> on values whose strings are UTF-8 and whose
  numbers are decimal numerals, and its fuel never runs out.
\<close>

section \<open>Strings\<close>

lemma utf8_take_le: "utf8_take bs \<le> length bs"
  by (auto simp: utf8_take_def split: list.splits)

lemma utf8_take_append:
  assumes "utf8_take bs = k" "0 < k"
  shows "utf8_take (take k bs @ x) = k"
proof (cases bs)
  case (Cons b0 r)
  show ?thesis
  proof (cases r)
    case Nil
    with assms Cons show ?thesis by (auto simp: utf8_take_def split: if_splits)
  next
    case r: (Cons b1 r1)
    show ?thesis
    proof (cases r1)
      case Nil
      with assms Cons r show ?thesis by (auto simp: utf8_take_def split: if_splits)
    next
      case (Cons b2 r2)
      with assms \<open>bs = b0 # r\<close> r show ?thesis
        by (cases r2) (auto simp: utf8_take_def split: if_splits)
    qed
  qed
qed (use assms in \<open>simp add: utf8_take_def\<close>)

lemma hex_digit_value: "list_all (\<lambda>n. hex_value (hex_digit n) = Some n) [0..<16]"
  by code_simp

lemma hex_value_digit [simp]: "n < 16 \<Longrightarrow> hex_value (hex_digit n) = Some n"
  using hex_digit_value by (simp add: list_all_iff)

lemma hex_split:
  assumes "(r :: nat) < 65536"
  shows "r div 4096 mod 16 * 4096 + r div 256 mod 16 * 256 + r div 16 mod 16 * 16 + r mod 16 = r"
proof -
  have "r div 4096 < 16" using assms by (simp add: div_less_iff_less_mult)
  moreover have "r = r div 16 * 16 + r mod 16" "r div 16 = r div 256 * 16 + r div 16 mod 16"
    "r div 256 = r div 4096 * 16 + r div 256 mod 16"
    using div_mult_mod_eq [of r 16] div_mult_mod_eq [of "r div 16" 16] div_mult_mod_eq [of "r div 256" 16]
    by (simp_all add: div_mult2_eq [symmetric])
  ultimately show ?thesis by (simp only: mod_less)
qed

lemma hex4_escape:
  "r < 65536 \<Longrightarrow> hex4 (hex_digit (r div 4096 mod 16) # hex_digit (r div 256 mod 16) #
     hex_digit (r div 16 mod 16) # hex_digit (r mod 16) # x) = Some (r, x)"
  using hex_split [of r] by (simp add: hex4_def)

lemma parse_str_escape_u:
  assumes "r < 0xD800"
  shows "parse_str (escape_u r @ x) = bind_result (parse_str x) (\<lambda>(s, y). Inr (utf8_encode r @ s, y))"
proof -
  obtain d where d: "escape_u r = escape_char # CHR ''u'' # d" and h: "hex4 (d @ x) = Some (r, x)"
    using hex4_escape [of r x] assms by (simp add: escape_u_def)
  have "surrogates r x = (r, x)" using assms by (simp add: surrogates_def)
  with d h show ?thesis by (simp add: simple_escape_def)
qed

lemma escape_classes:
  "(\<exists>e. escape_ascii b = [escape_char, e] \<and> simple_escape e = Some b) \<or>
   escape_ascii b = escape_u (byte b) \<or>
   (escape_ascii b = [b] \<and> b \<noteq> quote_char \<and> b \<noteq> escape_char \<and> 32 \<le> byte b)"
proof -
  have c: "b = x" if "byte b = byte x" for x using that by simp
  show ?thesis
    using c [of "CHR 0x08"] c [of "CHR 0x0C"] c [of "CHR 0x0A"] c [of "CHR 0x0D"] c [of "CHR 0x09"]
    by (auto simp: escape_ascii_def simple_escape_def simp del: of_char_eq_iff)
qed

lemma parse_str_escape_ascii:
  assumes "byte b < 0x80"
  shows "parse_str (escape_ascii b @ x) = bind_result (parse_str x) (\<lambda>(s, y). Inr (b # s, y))"
  using escape_classes [of b]
proof (elim disjE exE conjE)
  assume "escape_ascii b = escape_u (byte b)"
  with assms parse_str_escape_u [of "byte b" x] show ?thesis by (simp add: utf8_encode_def)
qed (use assms in simp_all)

lemma parse_str_chunk:
  assumes "utf8_take (b # rest) = k" "0 < k" "\<not> byte b < 0x80"
  shows "parse_str (take k (b # rest) @ x) = bind_result (parse_str x) (\<lambda>(s, y). Inr (take k (b # rest) @ s, y))"
proof -
  obtain k' where k: "k = Suc k'" using assms(2) by (cases k) auto
  have len: "length (take k (b # rest)) = k" using utf8_take_le [of "b # rest"] assms(1) by simp
  have t: "utf8_take (take k (b # rest) @ x) = k" by (rule utf8_take_append [OF assms(1,2)])
  have "b \<noteq> quote_char" "b \<noteq> escape_char" "\<not> byte b < 32" using assms(3) by auto
  with assms(3) t k len show ?thesis by (simp add: Let_def)
qed

lemma parse_str_escape: "utf8_ok s \<Longrightarrow> parse_str (json_escape s @ quote_char # x) = Inr (s, x)"
proof (induction s rule: json_escape.induct)
  case (2 b rest)
  show ?case
  proof (cases "byte b < 0x80")
    case True
    with "2.prems" have "utf8_ok rest" by (simp add: utf8_take_def)
    with 2 True show ?thesis by (simp add: parse_str_escape_ascii del: parse_str.simps)
  next
    case False
    let ?k = "utf8_take (b # rest)"
    let ?c = "take ?k (b # rest)" and ?r = "drop (?k - 1) rest"
    from "2.prems" have k: "0 < ?k" and ok: "utf8_ok ?r" by simp_all
    have IH: "parse_str (json_escape ?r @ quote_char # x) = Inr (?r, x)"
      using "2.IH"(3) [OF False refl _ refl ok] k by simp
    have join: "?c @ ?r = b # rest" using k by (cases ?k) auto
    have "json_escape (b # rest) = (if ?c = utf8_encode 0x2028 then escape_u 0x2028
        else if ?c = utf8_encode 0x2029 then escape_u 0x2029 else ?c) @ json_escape ?r"
      using False k by (simp add: Let_def)
    then show ?thesis
      using IH join parse_str_escape_u [of "0x2028"] parse_str_escape_u [of "0x2029"]
        parse_str_chunk [OF refl k False]
      by (auto simp del: parse_str.simps json_escape.simps split: if_splits)
  qed
qed simp

section \<open>Numbers\<close>

text \<open>What may follow a value inside a text.\<close>

definition stops :: "bytes \<Rightarrow> bool" where
  "stops rest \<longleftrightarrow> rest = [] \<or> hd rest \<in> {CHR '','', CHR '']'', CHR ''}''}"

definition number_ok :: "string \<Rightarrow> bool" where
  "number_ok lit \<longleftrightarrow> lit \<noteq> [] \<and> (is_digit (hd lit) \<or> hd lit = CHR ''-'') \<and>
     (\<forall>rest. stops rest \<longrightarrow> parse_number (lit @ rest) = Inr (lit, rest))"

lemma stops_digits:
  assumes "stops rest"
  shows "takeWhile is_digit rest = []" "dropWhile is_digit rest = rest"
  using assms by (cases rest; auto simp: stops_def is_digit_def)+

lemma stops_frac_exp: "stops rest \<Longrightarrow> parse_frac rest = Inr ([], rest)" "stops rest \<Longrightarrow> parse_exp rest = Inr ([], rest)"
  by (auto simp: stops_def parse_frac_def parse_exp_def split: list.splits)

lemma digits_then_stop:
  assumes "list_all is_digit ds" "stops rest"
  shows "takeWhile is_digit (ds @ rest) = ds" "dropWhile is_digit (ds @ rest) = rest"
  using assms by (induction ds) (auto simp: stops_digits)

lemma parse_int_show_nat:
  assumes "stops rest"
  shows "parse_int (show_nat n @ rest) = Inr (show_nat n, rest)"
proof -
  obtain c r where c: "show_nat n = c # r" using show_nat_nonempty [of n] by (cases "show_nat n") auto
  show ?thesis
  proof (cases "c = CHR ''0''")
    case True
    with show_nat_no_leading_zero [of n] c show ?thesis by (simp add: parse_int_def)
  next
    case False
    with digits_then_stop [OF show_nat_digits assms, of n] c show ?thesis
      by (simp add: parse_int_def parse_digits_def)
  qed
qed

lemma hd_show_nat: "is_digit (hd (show_nat n))"
  using show_nat_digits [of n] by (cases "show_nat n") auto

lemma number_ok_show_nat: "number_ok (show_nat n)"
proof -
  obtain c r where c: "show_nat n = c # r" using show_nat_nonempty [of n] by (cases "show_nat n") auto
  with hd_show_nat [of n] digit_not_minus have "c \<noteq> CHR ''-''" by auto
  with c hd_show_nat [of n] parse_int_show_nat [of _ n] show ?thesis
    by (auto simp: number_ok_def parse_number_def stops_frac_exp)
qed

lemma number_ok_show_int: "number_ok (show_int i)"
proof (cases "i < 0")
  case True
  then show ?thesis by (simp add: number_ok_def show_int_def parse_number_def parse_int_show_nat stops_frac_exp)
qed (simp add: show_int_def number_ok_show_nat)

section \<open>Values\<close>

fun json_ok :: "json \<Rightarrow> bool" where
  "json_ok (JNumber n) = number_ok n"
| "json_ok (JString s) = utf8_ok s"
| "json_ok (JArray vs) = (\<forall>v \<in> set vs. json_ok v)"
| "json_ok (JObject ms) = (\<forall>(k, v) \<in> set ms. utf8_ok k \<and> json_ok v)"
| "json_ok _ = True"

text \<open>The fuel the parser needs for the text of a value.\<close>

fun json_depth :: "json \<Rightarrow> nat" where
  "json_depth (JArray vs) = Suc (foldr (\<lambda>v n. Suc (max (json_depth v) n)) vs 0)"
| "json_depth (JObject ms) = Suc (foldr (\<lambda>(k, v) n. Suc (max (json_depth v) n)) ms 0)"
| "json_depth _ = 1"

definition not_ws :: "char \<Rightarrow> bool" where
  "not_ws c \<longleftrightarrow> c \<notin> {CHR '' '', CHR 0x09, CHR 0x0A, CHR 0x0D}"

lemma skip_ws_Cons [simp]: "not_ws c \<Longrightarrow> skip_ws (c # bs) = c # bs"
  by (simp add: skip_ws_def not_ws_def)

lemma skip_ws_Nil [simp]: "skip_ws [] = []"
  by (simp add: skip_ws_def)

lemma not_ws_simps [simp]: "not_ws CHR '',''" "not_ws CHR '']''" "not_ws CHR ''}''" "not_ws CHR '':''"
  "not_ws CHR ''{''" "not_ws CHR ''[''" "not_ws quote_char"
  by (simp_all add: not_ws_def)

lemma print_head:
  assumes "json_ok v"
  obtains c r where "json_print v = c # r" "not_ws c" "c \<notin> {CHR '']'', CHR ''}''}"
proof -
  have "is_digit c \<or> c = CHR ''-'' \<Longrightarrow> not_ws c \<and> c \<notin> {CHR '']'', CHR ''}''}" for c
    by (auto simp: is_digit_def not_ws_def)
  then have "\<exists>c r. json_print v = c # r \<and> not_ws c \<and> c \<notin> {CHR '']'', CHR ''}''}"
    using assms by (cases v) (auto simp: number_ok_def json_quote_def neq_Nil_conv not_ws_def)
  with that show ?thesis by blast
qed

lemma stops_simps [simp]: "stops []" "stops (CHR '','' # r)" "stops (CHR '']'' # r)" "stops (CHR ''}'' # r)"
  by (simp_all add: stops_def)

lemma commas_Cons: "commas (x # xs) = x @ (if xs = [] then [] else CHR '','' # commas xs)"
  by (cases xs) auto

text \<open>The elements of an array and the members of an object, given the claim for each value.\<close>

lemma parse_elements_print:
  assumes "vs \<noteq> []" "foldr (\<lambda>v n. Suc (max (json_depth v) n)) vs 0 \<le> k"
    and "\<And>v k rest. v \<in> set vs \<Longrightarrow> json_depth v \<le> k \<Longrightarrow> stops rest \<Longrightarrow> parse_value k (json_print v @ rest) = Inr (v, rest)"
  shows "parse_elements k (commas (map json_print vs) @ CHR '']'' # rest) = Inr (vs, rest)"
  using assms
proof (induction vs arbitrary: k)
  case (Cons v vs)
  then obtain k' where k: "k = Suc k'" by (cases k) auto
  with Cons.prems(2) have v: "json_depth v \<le> k'" and vs: "foldr (\<lambda>v n. Suc (max (json_depth v) n)) vs 0 \<le> k'" by auto
  show ?case
  proof (cases "vs = []")
    case True
    with k Cons.prems(3) [of v, OF _ v, of "CHR '']'' # rest"] show ?thesis by simp
  next
    case False
    with k Cons.prems(3) [of v, OF _ v, of "CHR '','' # commas (map json_print vs) @ CHR '']'' # rest"]
      Cons.IH [OF False vs Cons.prems(3)]
    show ?thesis by (simp add: commas_Cons)
  qed
qed simp

lemma parse_members_print:
  assumes "ms \<noteq> []" "foldr (\<lambda>(q, v) n. Suc (max (json_depth v) n)) ms 0 \<le> k" "\<forall>(q, v) \<in> set ms. utf8_ok q"
    and "\<And>q v k rest. (q, v) \<in> set ms \<Longrightarrow> json_depth v \<le> k \<Longrightarrow> stops rest \<Longrightarrow>
      parse_value k (json_print v @ rest) = Inr (v, rest)"
  shows "parse_members k (commas (map (\<lambda>(q, v). json_quote q @ '':'' @ json_print v) ms) @ CHR ''}'' # rest) = Inr (ms, rest)"
  using assms
proof (induction ms arbitrary: k)
  case (Cons m ms)
  obtain q v where m: "m = (q, v)" by fastforce
  from Cons.prems(2) obtain k' where k: "k = Suc k'" by (cases k) (auto simp: m)
  with Cons.prems(2) have v: "json_depth v \<le> k'" and ms: "foldr (\<lambda>(q, v) n. Suc (max (json_depth v) n)) ms 0 \<le> k'"
    by (auto simp: m)
  have key: "parse_str (json_escape q @ quote_char # x) = Inr (q, x)" for x
    using Cons.prems(3) by (intro parse_str_escape) (auto simp: m)
  let ?rest = "commas (map (\<lambda>(q, v). json_quote q @ '':'' @ json_print v) ms) @ CHR ''}'' # rest"
  show ?case
  proof (cases "ms = []")
    case True
    with k m key Cons.prems(4) [of q v, OF _ v, of "CHR ''}'' # rest"] show ?thesis by (simp add: json_quote_def)
  next
    case False
    have "parse_members k' ?rest = Inr (ms, rest)"
      using Cons.prems(3) Cons.prems(4) by (intro Cons.IH [OF False ms]) auto
    with False k m key Cons.prems(4) [of q v, OF _ v, of "CHR '','' # ?rest"] show ?thesis
      by (simp add: commas_Cons json_quote_def)
  qed
qed simp

lemma print_not_closing:
  assumes "json_ok v"
  shows "\<exists>c r. json_print v @ x = c # r \<and> not_ws c \<and> c \<noteq> CHR '']'' \<and> c \<noteq> CHR ''}''"
  using print_head [OF assms] by (metis append_Cons insertCI)

lemma parse_value_print:
  "json_ok v \<Longrightarrow> json_depth v \<le> k \<Longrightarrow> stops rest \<Longrightarrow> parse_value k (json_print v @ rest) = Inr (v, rest)"
proof (induction v arbitrary: k rest)
  case (JNumber n)
  then obtain k' c r where k: "k = Suc k'" and n: "n = c # r" and c: "is_digit c \<or> c = CHR ''-''"
    and p: "parse_number (n @ rest) = Inr (n, rest)"
    by (cases k; cases n) (auto simp: number_ok_def)
  from c have "c \<notin> {CHR ''{'', CHR ''['', quote_char, CHR ''n'', CHR ''t'', CHR ''f''}" "not_ws c"
    by (auto simp: is_digit_def not_ws_def)
  with k n p show ?case by simp
next
  case (JString s)
  then obtain k' where "k = Suc k'" by (cases k) auto
  with JString show ?case by (simp add: json_quote_def parse_str_escape)
next
  case (JArray vs)
  then obtain k' where k: "k = Suc k'" by (cases k) auto
  show ?case
  proof (cases vs)
    case (Cons v vs')
    have "parse_elements k' (commas (map json_print vs) @ CHR '']'' # rest) = Inr (vs, rest)"
      using JArray Cons k by (intro parse_elements_print) auto
    moreover obtain c r where "commas (map json_print vs) @ CHR '']'' # rest = c # r" "not_ws c" "c \<noteq> CHR '']''"
      using print_not_closing [of v] JArray.prems(1) Cons by (simp add: commas_Cons) metis
    ultimately show ?thesis using k by simp
  qed (use k in simp)
next
  case (JObject ms)
  then obtain k' where k: "k = Suc k'" by (cases k) auto
  show ?case
  proof (cases ms)
    case (Cons m ms')
    have "parse_members k' (commas (map (\<lambda>(q, v). json_quote q @ '':'' @ json_print v) ms) @ CHR ''}'' # rest) = Inr (ms, rest)"
    proof (rule parse_members_print)
      show "parse_value k (json_print v @ rest) = Inr (v, rest)"
        if "(q, v) \<in> set ms" "json_depth v \<le> k" "stops rest" for q v k rest
        using JObject.IH [OF that(1), of v k rest] JObject.prems(1) that by auto
    qed (use JObject.prems Cons k in auto)
    then show ?thesis using k Cons by (simp add: commas_Cons json_quote_def case_prod_beta)
  qed (use k in simp)
next
  case JNull
  then show ?case by (cases k) (simp_all add: parse_word_def not_ws_def)
next
  case (JBool b)
  then show ?case by (cases k) (simp_all add: parse_word_def not_ws_def)
qed

lemma commas_length: "foldr (\<lambda>x n. Suc (max (length x) n)) xs 0 \<le> Suc (length (commas xs))"
  by (induction xs rule: commas.induct) auto

lemma foldr_depth_mono:
  "(\<And>x. x \<in> set xs \<Longrightarrow> (f x :: nat) \<le> g x) \<Longrightarrow>
     foldr (\<lambda>x n. Suc (max (f x) n)) xs 0 \<le> foldr (\<lambda>x n. Suc (max (g x) n)) xs 0"
proof (induction xs)
  case (Cons x xs)
  then have "f x \<le> g x" "foldr (\<lambda>x n. Suc (max (f x) n)) xs 0 \<le> foldr (\<lambda>x n. Suc (max (g x) n)) xs 0" by simp_all
  then show ?case by (simp add: max_def)
qed simp

lemma foldr_map_length: "foldr (\<lambda>x n. Suc (max (length (f x)) n)) xs 0 \<le> Suc (length (commas (map f xs)))"
  using commas_length [of "map f xs"] by (simp add: foldr_map comp_def)

lemma json_depth_length: "json_ok v \<Longrightarrow> json_depth v \<le> length (json_print v)"
proof (induction v)
  case (JNumber n)
  then show ?case by (cases n) (auto simp: number_ok_def)
next
  case (JArray vs)
  have "foldr (\<lambda>v n. Suc (max (json_depth v) n)) vs 0 \<le> foldr (\<lambda>v n. Suc (max (length (json_print v)) n)) vs 0"
    using JArray by (intro foldr_depth_mono) auto
  also note foldr_map_length
  finally show ?case by simp
next
  case (JObject ms)
  let ?f = "\<lambda>(k, v). json_quote k @ '':'' @ json_print v"
  have "foldr (\<lambda>m n. Suc (max (case m of (k, v) \<Rightarrow> json_depth v) n)) ms 0 \<le> foldr (\<lambda>m n. Suc (max (length (?f m)) n)) ms 0"
    using JObject by (intro foldr_depth_mono) fastforce
  also note foldr_map_length
  finally have "foldr (\<lambda>m n. Suc (max (case m of (k, v) \<Rightarrow> json_depth v) n)) ms 0 \<le> Suc (length (commas (map ?f ms)))" .
  moreover have "json_depth (JObject ms) = Suc (foldr (\<lambda>m n. Suc (max (case m of (k, v) \<Rightarrow> json_depth v) n)) ms 0)"
    by (simp, rule foldr_cong) auto
  ultimately show ?case by simp
qed (simp_all add: json_quote_def)

theorem json_parse_print: "json_ok v \<Longrightarrow> json_parse (json_print v) = Inr v"
  using parse_value_print [of v "2 * length (json_print v) + 1" "[]"] json_depth_length [of v]
  by (simp add: json_parse_def)

section \<open>The fuel is enough\<close>

lemma skip_ws_length: "length (skip_ws bs) \<le> length bs"
  by (simp add: skip_ws_def length_dropWhile_le)

text \<open>A reader that succeeds has consumed something; one that fails reports bad syntax.\<close>

definition consumes :: "bytes \<Rightarrow> ('a \<times> bytes) result \<Rightarrow> bool" where
  "consumes bs r \<longleftrightarrow> (case r of Inl e \<Rightarrow> e = ErrJSON | Inr (x, rest) \<Rightarrow> length rest < length bs)"

lemma consumes_simps [simp]:
  "consumes bs (Inl e) \<longleftrightarrow> e = ErrJSON" "consumes bs (Inr (x, rest)) \<longleftrightarrow> length rest < length bs"
  by (simp_all add: consumes_def)

lemma consumes_bind:
  assumes "consumes bs r" "length bs \<le> length bs'"
    and "\<And>x rest. r = Inr (x, rest) \<Longrightarrow> length rest < length bs \<Longrightarrow> consumes bs' (f (x, rest))"
  shows "consumes bs' (bind_result r f)"
  using assms by (cases r) (auto simp: consumes_def)

lemma consumes_map:
  assumes "consumes bs r" "length bs \<le> length bs'"
  shows "consumes bs' (bind_result r (\<lambda>(x, rest). Inr (f x, rest)))"
  by (rule consumes_bind [OF assms(1,2)]) (use assms in auto)

lemma parse_str_consumes: "consumes bs (parse_str bs)"
proof (induction bs rule: measure_induct_rule [of length])
  case (less bs)
  have step: "consumes bs (bind_result (parse_str bs') (\<lambda>(s, y). Inr (f s, y)))" if "length bs' < length bs" for bs' f
    by (rule consumes_map [OF less.IH [OF that] less_imp_le [OF that]])
  have uni: "consumes bs (bind_result (parse_str (snd (surrogates u r2))) (\<lambda>(s, y). Inr (w @ s, y)))"
    if "hex4 r1 = Some (u, r2)" "length r1 < length bs" for u r1 r2 w
    using hex4_length [OF that(1)] that(2) surrogates_length [OF surjective_pairing, of u r2]
    by (intro step) simp
  show ?case
  proof (cases bs)
    case (Cons b rest)
    have *: "length rest < length bs" "length (drop k rest) < length bs" for k using Cons by auto
    show ?thesis
    proof (cases "b = escape_char")
      case True
      show ?thesis
      proof (cases rest)
        case Nil
        with Cons True show ?thesis by simp
      next
        case r: (Cons e rest1)
        then have l: "length rest1 < length bs" using Cons by simp
        show ?thesis
        proof (cases "simple_escape e")
          case (Some c)
          with Cons True r step [OF l, of "(#) c"] show ?thesis by simp
        next
          case None
          show ?thesis
          proof (cases "hex4 rest1")
            case (Some p)
            obtain u r2 where "p = (u, r2)" by fastforce
            with Some uni [OF _ l, of u r2] Cons True r None show ?thesis by (cases "e = CHR ''u''") simp_all
          qed (use Cons True r None in simp)
        qed
      qed
    next
      case False
      let ?k = "utf8_take (b # rest)"
      from False show ?thesis
        using Cons step [OF *(1), of "(#) b"] step [OF *(1), of "(@) (utf8_encode rune_error)"]
          step [OF *(2), of "?k - 1" "(@) (take ?k (b # rest))"]
        by (simp add: Let_def)
    qed
  qed simp
qed

lemma parse_digits_consumes: "consumes bs (parse_digits bs)"
  by (cases bs) (auto simp: parse_digits_def length_dropWhile_le intro: le_less_trans [OF length_dropWhile_le])

lemma parse_int_consumes: "consumes bs (parse_int bs)"
  using parse_digits_consumes [of bs] by (auto simp: parse_int_def split: list.split)

lemma parse_frac_length: "parse_frac bs = Inr (x, rest) \<Longrightarrow> length rest \<le> length bs" "parse_frac bs = Inl e \<Longrightarrow> e = ErrJSON"
  using parse_digits_consumes [of "tl bs"]
  by (auto simp: parse_frac_def bind_result_def consumes_def split: list.splits if_splits sum.splits)

lemma parse_exp_length: "parse_exp bs = Inr (x, rest) \<Longrightarrow> length rest \<le> length bs" "parse_exp bs = Inl e \<Longrightarrow> e = ErrJSON"
  using parse_digits_consumes [of "tl bs"] parse_digits_consumes [of "tl (tl bs)"]
  by (auto simp: parse_exp_def bind_result_def consumes_def Let_def split: list.splits if_splits sum.splits)

lemma parse_number_consumes: "consumes bs (parse_number bs)"
proof -
  let ?k = "\<lambda>sign. \<lambda>(int, bs2). bind_result (parse_frac bs2) (\<lambda>(frac, bs3).
    bind_result (parse_exp bs3) (\<lambda>(exp, bs4). Inr (sign @ int @ frac @ exp, bs4)))"
  have k: "consumes bs (?k sign (int, bs2))" if "length bs2 < length bs" for sign int bs2
  proof (cases "parse_frac bs2")
    case (Inr y)
    then obtain frac bs3 where f: "parse_frac bs2 = Inr (frac, bs3)" by (cases y) auto
    with that parse_frac_length(1) [OF f] show ?thesis
      by (cases "parse_exp bs3") (auto dest: parse_exp_length)
  qed (auto dest: parse_frac_length(2))
  have "consumes bs (bind_result (parse_int bs1) (?k sign))" if "length bs1 \<le> length bs" for bs1 sign
    using that k by (intro consumes_bind [OF parse_int_consumes that]) auto
  from this [of bs "[]"] this [of "tl bs" "''-''"] show ?thesis
    by (cases bs) (auto simp: parse_number_def)
qed

lemma parse_word_consumes: "w \<noteq> [] \<Longrightarrow> consumes bs (parse_word w v bs)"
  by (cases bs) (auto simp: parse_word_def)

text \<open>A reader after the head character of a value.\<close>

lemma parse_value_consumes:
  assumes "skip_ws bs = c # rest" "consumes rest (parse_elements k rest)" "consumes rest (parse_members k rest)"
  shows "consumes bs (parse_value (Suc k) bs)"
proof -
  from assms(1) skip_ws_length [of bs] have l: "length (c # rest) \<le> length bs" "length rest \<le> length bs" "length rest < length bs"
    by simp_all
  have s: "length (tl (skip_ws rest)) < length bs" using skip_ws_length [of rest] l(3) by (cases "skip_ws rest") auto
  have w: "consumes bs (parse_word w v (c # rest))" if "w \<noteq> []" for w v
    using parse_word_consumes [OF that, of "c # rest" v] l(1) by (cases "parse_word w v (c # rest)") auto
  show ?thesis
    unfolding parse_value.simps assms(1) list.case
    using s consumes_map [OF assms(3) l(2), of JObject] consumes_map [OF assms(2) l(2), of JArray]
      consumes_map [OF parse_str_consumes l(2), of JString] consumes_map [OF parse_number_consumes l(1), of JNumber]
      w [of "''null''" JNull] w [of "''true''" "JBool True"] w [of "''false''" "JBool False"]
    by (simp only: if_split) auto
qed

lemma parse_elements_consumes:
  assumes "consumes bs (parse_value k bs)" "\<And>r. length r < length bs \<Longrightarrow> consumes r (parse_elements k r)"
  shows "consumes bs (parse_elements (Suc k) bs)"
  unfolding parse_elements.simps
proof (rule consumes_bind [OF assms(1) order_refl])
  fix v and r :: bytes
  assume r: "length r < length bs"
  show "consumes bs (case (v, r) of (v, r) \<Rightarrow>
       (case skip_ws r of
         [] \<Rightarrow> Inl ErrJSON
       | c # r1 \<Rightarrow>
           if c = CHR '','' then bind_result (parse_elements k r1) (\<lambda>(vs, r2). Inr (v # vs, r2))
           else if c = CHR '']'' then Inr ([v], r1) else Inl ErrJSON))"
  proof (cases "skip_ws r")
    case (Cons c r1)
    with skip_ws_length [of r] r have l: "length r1 < length bs" by simp
    from consumes_map [OF assms(2) [OF l] less_imp_le [OF l], of "(#) v"] l Cons show ?thesis by simp
  qed simp
qed

lemma parse_members_consumes:
  assumes "\<And>r. length r < length bs \<Longrightarrow> consumes r (parse_value k r)"
    and "\<And>r. length r < length bs \<Longrightarrow> consumes r (parse_members k r)"
  shows "consumes bs (parse_members (Suc k) bs)"
proof (cases "skip_ws bs")
  case (Cons q rest)
  have after: "consumes bs (case skip_ws r2 of
       [] \<Rightarrow> Inl ErrJSON
     | d # r3 \<Rightarrow>
         if d = CHR '','' then bind_result (parse_members k r3) (\<lambda>(ms, r4). Inr ((key, v) # ms, r4))
         else if d = CHR ''}'' then Inr ([(key, v)], r3) else Inl ErrJSON)" if "length r2 < length bs" for r2 key v
  proof (cases "skip_ws r2")
    case (Cons d r3)
    with skip_ws_length [of r2] that have l: "length r3 < length bs" by simp
    from consumes_map [OF assms(2) [OF l] less_imp_le [OF l], of "(#) (key, v)"] l Cons show ?thesis by simp
  qed simp
  have member: "consumes bs (case skip_ws r of
       [] \<Rightarrow> Inl ErrJSON
     | c # r1 \<Rightarrow> if c \<noteq> CHR '':'' then Inl ErrJSON
         else bind_result (parse_value k r1) (\<lambda>(v, r2).
           case skip_ws r2 of
             [] \<Rightarrow> Inl ErrJSON
           | d # r3 \<Rightarrow>
               if d = CHR '','' then bind_result (parse_members k r3) (\<lambda>(ms, r4). Inr ((key, v) # ms, r4))
               else if d = CHR ''}'' then Inr ([(key, v)], r3) else Inl ErrJSON))" if "length r < length bs" for r key
  proof (cases "skip_ws r")
    case (Cons c r1)
    with skip_ws_length [of r] that have l: "length r1 < length bs" by simp
    show ?thesis
      unfolding Cons list.case
      by (simp only: if_split, intro conjI impI, simp, rule consumes_bind [OF assms(1) [OF l] less_imp_le [OF l]])
        (use l in \<open>simp only: prod.case, intro after, simp\<close>)
  qed simp
  from Cons skip_ws_length [of bs] have l: "length rest < length bs" by simp
  show ?thesis
    unfolding parse_members.simps Cons list.case
    by (simp only: if_split, intro conjI impI, simp, rule consumes_bind [OF parse_str_consumes less_imp_le [OF l]])
      (use l in \<open>simp only: prod.case, intro member, simp\<close>)
qed simp

lemma parse_fuel:
  shows "2 * length bs < k \<Longrightarrow> consumes bs (parse_value k bs)"
    "2 * length bs + 1 < k \<Longrightarrow> consumes bs (parse_elements k bs)"
    "2 * length bs + 1 < k \<Longrightarrow> consumes bs (parse_members k bs)"
proof (induction k arbitrary: bs)
  case (Suc k)
  {
    case 1
    show ?case
    proof (cases "skip_ws bs")
      case (Cons c rest)
      with skip_ws_length [of bs] 1 have "2 * length rest + 1 < k" by simp
      with Cons Suc.IH(2,3) show ?thesis by (intro parse_value_consumes)
    qed simp
  next
    case 2
    then show ?case by (intro parse_elements_consumes Suc.IH) simp_all
  next
    case 3
    then show ?case by (intro parse_members_consumes Suc.IH) simp_all
  }
qed simp_all

end
