(* ===== verification/Json_Decode.thy ===== *)
theory Json_Decode
  imports Json_Roundtrip
begin

text \<open>
  How \<^verbatim>\<open>encoding/json\<close> maps Go values to JSON and back: numbers, strings, byte slices (base64, a nil
  slice as null), maps (keys in increasing order) and structures.  A member of an object goes to the
  field with its name, or to one whose name is equal up to letter case; unknown members are skipped,
  null leaves a field as it is (and empties a map), and of several members for a field the last wins, except that
  maps are merged.  A value of the
  wrong type is an error.
\<close>

abbreviation ErrUnmarshalType :: go_error where "ErrUnmarshalType \<equiv> Message ''json: cannot unmarshal value''"

section \<open>Encoding\<close>

abbreviation json_nat :: "nat \<Rightarrow> json" where "json_nat n \<equiv> JNumber (show_nat n)"
abbreviation json_int :: "int \<Rightarrow> json" where "json_int i \<equiv> JNumber (show_int i)"

definition json_bytes :: "bytes \<Rightarrow> json" where
  "json_bytes bs = (if bs = [] then JNull else JString (b64_encode bs))"

definition json_map :: "('v \<Rightarrow> json) \<Rightarrow> (string, 'v) fmap \<Rightarrow> json" where
  "json_map f m = JObject (map (\<lambda>(k, v). (k, f v)) (map_range m))"

section \<open>Decoding\<close>

definition dec_uint :: "nat \<Rightarrow> nat \<Rightarrow> json \<Rightarrow> nat result" where
  "dec_uint bits old v =
     (case v of
        JNull \<Rightarrow> Inr old
      | JNumber n \<Rightarrow> (case ParseUint bits n of Inl _ \<Rightarrow> Inl ErrUnmarshalType | Inr x \<Rightarrow> Inr x)
      | _ \<Rightarrow> Inl ErrUnmarshalType)"

definition dec_int :: "nat \<Rightarrow> int \<Rightarrow> json \<Rightarrow> int result" where
  "dec_int bits old v =
     (case v of
        JNull \<Rightarrow> Inr old
      | JNumber n \<Rightarrow> (case ParseInt bits n of Inl _ \<Rightarrow> Inl ErrUnmarshalType | Inr x \<Rightarrow> Inr x)
      | _ \<Rightarrow> Inl ErrUnmarshalType)"

definition dec_string :: "string \<Rightarrow> json \<Rightarrow> string result" where
  "dec_string old v = (case v of JNull \<Rightarrow> Inr old | JString s \<Rightarrow> Inr s | _ \<Rightarrow> Inl ErrUnmarshalType)"

fun all_results :: "'a result list \<Rightarrow> 'a list result" where
  "all_results [] = Inr []"
| "all_results (r # rs) = bind_result r (\<lambda>x. bind_result (all_results rs) (\<lambda>xs. Inr (x # xs)))"

definition dec_bytes :: "json \<Rightarrow> bytes result" where
  "dec_bytes v =
     (case v of
        JNull \<Rightarrow> Inr []
      | JString s \<Rightarrow> b64_decode s
      | JArray vs \<Rightarrow> bind_result (all_results (map (dec_uint 8 0) vs)) (\<lambda>ns. Inr (map char_of ns))
      | _ \<Rightarrow> Inl ErrUnmarshalType)"

fun dec_members :: "(json \<Rightarrow> 'v result) \<Rightarrow> (string \<times> json) list \<Rightarrow> (string, 'v) fmap \<Rightarrow> (string, 'v) fmap result" where
  "dec_members f [] m = Inr m"
| "dec_members f ((k, v) # ms) m = bind_result (f v) (\<lambda>x. dec_members f ms (fmupd k x m))"

definition dec_map :: "(json \<Rightarrow> 'v result) \<Rightarrow> (string, 'v) fmap \<Rightarrow> json \<Rightarrow> (string, 'v) fmap result" where
  "dec_map f old v = (case v of JNull \<Rightarrow> Inr fmempty | JObject ms \<Rightarrow> dec_members f ms old | _ \<Rightarrow> Inl ErrUnmarshalType)"

text \<open>
  Letter case is folded as the library does for the characters of the field names: the letters, and the
  two other characters whose folding is a letter, U+212A (kelvin sign) and U+017F (long s).
\<close>

function fold_key :: "string \<Rightarrow> string" where
  "fold_key [] = []"
| "fold_key (c # rest) =
     (if take 3 (c # rest) = [CHR 0xE2, CHR 0x84, CHR 0xAA] then CHR ''K'' # fold_key (drop 2 rest)
      else if take 2 (c # rest) = [CHR 0xC5, CHR 0xBF] then CHR ''S'' # fold_key (drop 1 rest)
      else (if in_range 97 122 c then char_of (byte c - 32) else c) # fold_key rest)"
  by pat_completeness auto
termination by (relation "measure length") auto

definition match_field :: "string list \<Rightarrow> string \<Rightarrow> string option" where
  "match_field names k = (if k \<in> set names then Some k else find (\<lambda>n. fold_key n = fold_key k) names)"

text \<open>\<open>set name v x\<close> decodes \<open>v\<close> into the field \<open>name\<close> of \<open>x\<close>.\<close>

fun dec_fields :: "string list \<Rightarrow> (string \<Rightarrow> json \<Rightarrow> 'r \<Rightarrow> 'r result) \<Rightarrow> (string \<times> json) list \<Rightarrow> 'r \<Rightarrow> 'r result" where
  "dec_fields names upd [] x = Inr x"
| "dec_fields names upd ((k, v) # ms) x =
     (case match_field names k of
        None \<Rightarrow> dec_fields names upd ms x
      | Some n \<Rightarrow> bind_result (upd n v x) (dec_fields names upd ms))"

definition dec_struct :: "string list \<Rightarrow> (string \<Rightarrow> json \<Rightarrow> 'r \<Rightarrow> 'r result) \<Rightarrow> 'r \<Rightarrow> json \<Rightarrow> 'r result" where
  "dec_struct names upd zero v =
     (case v of JNull \<Rightarrow> Inr zero | JObject ms \<Rightarrow> dec_fields names upd ms zero | _ \<Rightarrow> Inl ErrUnmarshalType)"

section \<open>Decoding inverts encoding\<close>

named_theorems json_dec \<open>decoders applied to what the encoders produce\<close>

lemma dec_uint_nat [json_dec]: "n < 2 ^ bits \<Longrightarrow> dec_uint bits old (json_nat n) = Inr n"
  by (simp add: dec_uint_def ParseUint_show_nat)

lemma dec_int_int [json_dec]:
  "- (2 ^ (bits - 1)) \<le> i \<Longrightarrow> i < 2 ^ (bits - 1) \<Longrightarrow> dec_int bits old (json_int i) = Inr i"
  by (simp add: dec_int_def ParseInt_show_int)

lemma dec_string_string [json_dec]: "dec_string old (JString s) = Inr s"
  by (simp add: dec_string_def)

lemma dec_bytes_bytes [json_dec]: "dec_bytes (json_bytes bs) = Inr bs"
  by (simp add: dec_bytes_def json_bytes_def b64_decode_encode)

lemma dec_members_fold:
  assumes "\<And>k v. (k, v) \<in> set kvs \<Longrightarrow> f (g v) = Inr v"
  shows "dec_members f (map (\<lambda>(k, v). (k, g v)) kvs) m = Inr (fold (\<lambda>(k, v). fmupd k v) kvs m)"
  using assms
proof (induction kvs arbitrary: m)
  case (Cons p kvs)
  obtain k v where p: "p = (k, v)" by fastforce
  have "dec_members f (map (\<lambda>(k, v). (k, g v)) kvs) (fmupd k v m) = Inr (fold (\<lambda>(k, v). fmupd k v) kvs (fmupd k v m))"
    by (rule Cons.IH) (use Cons.prems in \<open>meson list.set_intros(2)\<close>)
  with p Cons.prems [of k v] show ?case by simp
qed simp

lemma fold_fmupd_lookup:
  "distinct (map fst kvs) \<Longrightarrow> fmlookup (fold (\<lambda>(k, v). fmupd k v) kvs m) k =
     (case map_of kvs k of None \<Rightarrow> fmlookup m k | Some v \<Rightarrow> Some v)"
proof (induction kvs arbitrary: m)
  case (Cons p kvs)
  obtain q w where p: "p = (q, w)" by fastforce
  with Cons.prems have "q \<notin> fst ` set kvs" by auto
  then have "map_of kvs q = None" by (simp add: map_of_eq_None_iff)
  with Cons p show ?case by (simp split: option.split)
qed simp

lemma map_of_map_range: "map_of (map_range m) k = fmlookup m k"
proof (cases "fmlookup m k")
  case None
  then show ?thesis by (auto simp: map_of_eq_None_iff set_map_range)
next
  case (Some v)
  then have "(k, v) \<in> set (map_range m)" by (simp add: set_map_range)
  with Some show ?thesis by (simp add: map_of_is_SomeI distinct_keys_map_range)
qed

lemma fold_map_range: "fold (\<lambda>(k, v). fmupd k v) (map_range m) fmempty = m"
  by (rule fmap_ext) (simp add: fold_fmupd_lookup distinct_keys_map_range map_of_map_range split: option.split)

lemma dec_map_map [json_dec]:
  assumes "\<And>k v. fmlookup m k = Some v \<Longrightarrow> f (g v) = Inr v"
  shows "dec_map f fmempty (json_map g m) = Inr m"
proof -
  have "dec_members f (map (\<lambda>(k, v). (k, g v)) (map_range m)) fmempty = Inr (fold (\<lambda>(k, v). fmupd k v) (map_range m) fmempty)"
    by (rule dec_members_fold) (use assms in \<open>auto simp: set_map_range\<close>)
  then show ?thesis by (simp add: dec_map_def json_map_def fold_map_range)
qed

lemma match_field_exact [simp]: "k \<in> set names \<Longrightarrow> match_field names k = Some k"
  by (simp add: match_field_def)

section \<open>The values the encoders produce are printable\<close>

lemma b64_safe_utf8: "list_all b64_safe s \<Longrightarrow> utf8_ok s"
  by (induction s) (auto simp: b64_safe_def utf8_take_def)

lemma json_ok_bytes [simp]: "json_ok (json_bytes bs)"
  by (simp add: json_bytes_def b64_safe_utf8 b64_encode_safe)

lemma json_ok_numbers [simp]: "json_ok (json_nat n)" "json_ok (json_int i)"
  by (simp_all add: number_ok_show_nat number_ok_show_int)

lemma json_ok_map:
  assumes "\<And>k v. fmlookup m k = Some v \<Longrightarrow> utf8_ok k \<and> json_ok (f v)"
  shows "json_ok (json_map f m)"
  using assms by (auto simp: json_map_def set_map_range)

section \<open>Errors\<close>

text \<open>Every error of parsing and decoding is made in place: it is none of the program's own errors.\<close>

definition plain_error :: "'a result \<Rightarrow> bool" where
  "plain_error r \<longleftrightarrow> (case r of Inl err \<Rightarrow> \<exists>m. err = Message m | Inr _ \<Rightarrow> True)"

lemma plain_error_simps [simp]: "plain_error (Inr x)" "plain_error (Inl (Message m))"
  by (simp_all add: plain_error_def)

lemma plain_error_bind [simp]:
  "plain_error (bind_result r f) \<longleftrightarrow> plain_error r \<and> (\<forall>x. r = Inr x \<longrightarrow> plain_error (f x))"
  by (cases r) (auto simp: plain_error_def)

lemma plain_error_Inl: "plain_error r \<Longrightarrow> r = Inl err \<Longrightarrow> \<exists>m. err = Message m"
  by (simp add: plain_error_def)

lemma parse_str_plain [simp]: "plain_error (parse_str bs)"
proof (induction bs rule: length_induct)
  case (1 bs)
  show ?case
  proof (cases bs)
    case (Cons b rest)
    have "plain_error (parse_str y)" if "length y \<le> length rest" for y using 1 that Cons by simp
    moreover have "length (snd (surrogates u y)) \<le> length rest" if "rest = e # x" "hex4 x = Some (u, y)" for e x u y
      using that hex4_length [of x u y] surrogates_length [OF surjective_pairing, of u y] by simp
    ultimately show ?thesis by (simp add: Cons Let_def split: list.split option.split)
  qed simp
qed

lemma parse_number_plain [simp]: "plain_error (parse_number bs)"
proof -
  have "plain_error (parse_digits x)" for x by (simp add: parse_digits_def)
  moreover from this have "plain_error (parse_int x)" "plain_error (parse_frac x)" "plain_error (parse_exp x)" for x
    by (simp_all add: parse_int_def parse_frac_def parse_exp_def split: list.split prod.split)
  ultimately show ?thesis by (simp add: parse_number_def split: prod.split)
qed

lemma parse_plain:
  "plain_error (parse_value k bs)" "plain_error (parse_elements k bs)" "plain_error (parse_members k bs)"
proof (induction k arbitrary: bs)
  case (Suc k)
  { case 1
    show ?case by (simp add: parse_word_def Suc split: list.split) }
  { case 2
    show ?case by (simp add: Suc split: list.split) }
  { case 3
    show ?case by (simp add: Suc split: list.split) }
qed simp_all

lemma json_parse_plain [simp]: "plain_error (json_parse bs)"
  unfolding json_parse_def by (simp only: plain_error_bind parse_plain) (simp split: prod.split)

lemma b64_decode_plain [simp]: "plain_error (b64_decode bs)"
proof -
  have "plain_error (b64_quads s)" for s
    by (induction s rule: b64_quads.induct) (simp_all add: ErrCorruptInput_def split: option.split prod.split)
  then show ?thesis by (simp add: b64_decode_def)
qed

lemma dec_plain [simp]:
  "plain_error (dec_uint b i v)" "plain_error (dec_int b j v)" "plain_error (dec_string s v)"
  by (simp_all add: dec_uint_def dec_int_def dec_string_def split: json.split sum.split)

lemma all_results_plain: "(\<And>r. r \<in> set rs \<Longrightarrow> plain_error r) \<Longrightarrow> plain_error (all_results rs)"
  by (induction rs) auto

lemma dec_bytes_plain [simp]: "plain_error (dec_bytes v)"
  by (auto simp: dec_bytes_def split: json.split intro!: all_results_plain)

lemma dec_struct_plain:
  assumes "\<And>n w x. plain_error (upd n w x)" shows "plain_error (dec_struct names upd zero v)"
proof -
  have "plain_error (dec_fields names upd ms x)" for ms x
    by (induction ms arbitrary: x) (auto simp: assms split: option.split)
  then show ?thesis by (simp add: dec_struct_def split: json.split)
qed

end
