(* ===== verification/KV_Command.thy ===== *)
theory KV_Command
  imports KV_Jobs Json_Decode
begin

text \<open>
  The commands of the replicated machine and their JSON form (\<^verbatim>\<open>command.go\<close>): a field tagged
  \<^verbatim>\<open>omitempty\<close> is left out when it is zero.  \<open>DecodeCommand\<close> inverts \<open>EncodeCommand\<close> on commands whose
  strings are UTF-8 and whose numbers fit their Go types.
\<close>

section \<open>Commands\<close>

abbreviation CommandPut :: string where "CommandPut \<equiv> ''PUT''"
abbreviation CommandDelete :: string where "CommandDelete \<equiv> ''DELETE''"
abbreviation CommandReadBarrier :: string where "CommandReadBarrier \<equiv> ''READ_BARRIER''"
abbreviation CommandLockAcquire :: string where "CommandLockAcquire \<equiv> ''LOCK_ACQUIRE''"
abbreviation CommandLockExpire :: string where "CommandLockExpire \<equiv> ''LOCK_EXPIRE''"
abbreviation CommandFencedPut :: string where "CommandFencedPut \<equiv> ''FENCED_PUT''"
abbreviation CommandCreateJob :: string where "CommandCreateJob \<equiv> ''CREATE_JOB''"
abbreviation CommandClaimJob :: string where "CommandClaimJob \<equiv> ''CLAIM_JOB''"
abbreviation CommandJobReclaim :: string where "CommandJobReclaim \<equiv> ''JOB_RECLAIM''"
abbreviation CommandJobStart :: string where "CommandJobStart \<equiv> ''JOB_START''"
abbreviation CommandJobSucceeded :: string where "CommandJobSucceeded \<equiv> ''JOB_SUCCEEDED''"
abbreviation CommandJobFailed :: string where "CommandJobFailed \<equiv> ''JOB_FAILED''"

record command =
  CType :: string
  CKey :: string
  CValue :: bytes
  CJobID :: string
  CPayload :: bytes
  CScheduledAt :: int
  COwnerID :: string
  CExpiresAt :: int
  CFencingToken :: nat
  CExecutionID :: string
  CExpectedState :: job_state
  CAt :: int

definition zero_command :: command where
  "zero_command = \<lparr>CType = [], CKey = [], CValue = [], CJobID = [], CPayload = [], CScheduledAt = 0,
     COwnerID = [], CExpiresAt = 0, CFencingToken = 0, CExecutionID = [], CExpectedState = [],
     CAt = 0\<rparr>"

section \<open>The codec\<close>

definition omitempty :: "bool \<Rightarrow> string \<Rightarrow> json \<Rightarrow> (string \<times> json) list" where
  "omitempty zero name v = (if zero then [] else [(name, v)])"

definition command_json :: "command \<Rightarrow> json" where
  "command_json c = JObject (
     [(''type'', JString (CType c)), (''key'', JString (CKey c))] @
     omitempty (CValue c = []) ''value'' (json_bytes (CValue c)) @
     omitempty (CJobID c = []) ''job_id'' (JString (CJobID c)) @
     omitempty (CPayload c = []) ''payload'' (json_bytes (CPayload c)) @
     omitempty (CScheduledAt c = 0) ''scheduled_at'' (json_int (CScheduledAt c)) @
     omitempty (COwnerID c = []) ''owner_id'' (JString (COwnerID c)) @
     omitempty (CExpiresAt c = 0) ''expires_at'' (json_int (CExpiresAt c)) @
     omitempty (CFencingToken c = 0) ''fencing_token'' (json_nat (CFencingToken c)) @
     omitempty (CExecutionID c = []) ''execution_id'' (JString (CExecutionID c)) @
     omitempty (CExpectedState c = []) ''expected_state'' (JString (CExpectedState c)) @
     omitempty (CAt c = 0) ''at'' (json_int (CAt c)))"

definition EncodeCommand :: "command \<Rightarrow> bytes" where
  "EncodeCommand c = json_print (command_json c)"

definition command_fields :: "string list" where
  "command_fields = [''type'', ''key'', ''value'', ''job_id'', ''payload'', ''scheduled_at'', ''owner_id'', ''expires_at'',
     ''fencing_token'', ''execution_id'', ''expected_state'', ''at'']"

definition set_command_field :: "string \<Rightarrow> json \<Rightarrow> command \<Rightarrow> command result" where
  "set_command_field name v c =
     (if name = ''type'' then bind_result (dec_string (CType c) v) (\<lambda>x. Inr (c\<lparr>CType := x\<rparr>))
      else if name = ''key'' then bind_result (dec_string (CKey c) v) (\<lambda>x. Inr (c\<lparr>CKey := x\<rparr>))
      else if name = ''value'' then bind_result (dec_bytes v) (\<lambda>x. Inr (c\<lparr>CValue := x\<rparr>))
      else if name = ''job_id'' then bind_result (dec_string (CJobID c) v) (\<lambda>x. Inr (c\<lparr>CJobID := x\<rparr>))
      else if name = ''payload'' then bind_result (dec_bytes v) (\<lambda>x. Inr (c\<lparr>CPayload := x\<rparr>))
      else if name = ''scheduled_at'' then bind_result (dec_int 64 (CScheduledAt c) v) (\<lambda>x. Inr (c\<lparr>CScheduledAt := x\<rparr>))
      else if name = ''owner_id'' then bind_result (dec_string (COwnerID c) v) (\<lambda>x. Inr (c\<lparr>COwnerID := x\<rparr>))
      else if name = ''expires_at'' then bind_result (dec_int 64 (CExpiresAt c) v) (\<lambda>x. Inr (c\<lparr>CExpiresAt := x\<rparr>))
      else if name = ''fencing_token'' then bind_result (dec_uint 64 (CFencingToken c) v) (\<lambda>x. Inr (c\<lparr>CFencingToken := x\<rparr>))
      else if name = ''execution_id'' then bind_result (dec_string (CExecutionID c) v) (\<lambda>x. Inr (c\<lparr>CExecutionID := x\<rparr>))
      else if name = ''expected_state'' then bind_result (dec_string (CExpectedState c) v) (\<lambda>x. Inr (c\<lparr>CExpectedState := x\<rparr>))
      else bind_result (dec_int 64 (CAt c) v) (\<lambda>x. Inr (c\<lparr>CAt := x\<rparr>)))"

definition DecodeCommand :: "bytes \<Rightarrow> command result" where
  "DecodeCommand data = bind_result (json_parse data) (dec_struct command_fields set_command_field zero_command)"

section \<open>The round trip\<close>

abbreviation fits_int64 :: "int \<Rightarrow> bool" where "fits_int64 i \<equiv> - (2 ^ 63) \<le> i \<and> i < 2 ^ 63"

definition command_fits :: "command \<Rightarrow> bool" where
  "command_fits c \<longleftrightarrow> utf8_ok (CType c) \<and> utf8_ok (CKey c) \<and> utf8_ok (CJobID c) \<and> utf8_ok (COwnerID c) \<and>
     utf8_ok (CExecutionID c) \<and> utf8_ok (CExpectedState c) \<and> fits_int64 (CScheduledAt c) \<and> fits_int64 (CExpiresAt c) \<and>
     fits_int64 (CAt c) \<and> CFencingToken c < 2 ^ 64"

lemma dec_fields_append:
  "dec_fields names upd (xs @ ys) r = bind_result (dec_fields names upd xs r) (dec_fields names upd ys)"
  by (induction names upd xs r rule: dec_fields.induct) (auto simp: bind_result_def split: option.splits sum.splits)

lemma dec_fields_omitempty:
  "name \<in> set names \<Longrightarrow> dec_fields names upd (omitempty zero name v) r = (if zero then Inr r else upd name v r)"
  by (simp add: omitempty_def bind_result_def split: sum.split)

lemma json_ok_omitempty: "(q, v) \<in> set (omitempty zero name w) \<Longrightarrow> q = name \<and> v = w"
  by (auto simp: omitempty_def split: if_splits)

lemma ascii_utf8: "list_all (\<lambda>c. byte c < 128) s \<Longrightarrow> utf8_ok s"
  by (induction s) (auto simp: utf8_take_def)

lemma command_json_ok: "command_fits c \<Longrightarrow> json_ok (command_json c)"
  by (auto simp: command_json_def command_fits_def ascii_utf8 number_ok_show_int number_ok_show_nat simp del: utf8_ok.simps dest!: json_ok_omitempty)

lemma command_field_steps:
  assumes "command_fits c"
  shows
  "CValue r = [] \<Longrightarrow> dec_fields command_fields set_command_field (omitempty (CValue c = []) ''value'' (json_bytes (CValue c))) r =
     Inr (r\<lparr>CValue := CValue c\<rparr>)"
  "CJobID r = [] \<Longrightarrow> dec_fields command_fields set_command_field (omitempty (CJobID c = []) ''job_id'' (JString (CJobID c))) r =
     Inr (r\<lparr>CJobID := CJobID c\<rparr>)"
  "CPayload r = [] \<Longrightarrow> dec_fields command_fields set_command_field (omitempty (CPayload c = []) ''payload'' (json_bytes (CPayload c))) r =
     Inr (r\<lparr>CPayload := CPayload c\<rparr>)"
  "CScheduledAt r = 0 \<Longrightarrow> dec_fields command_fields set_command_field (omitempty (CScheduledAt c = 0) ''scheduled_at'' (json_int (CScheduledAt c))) r =
     Inr (r\<lparr>CScheduledAt := CScheduledAt c\<rparr>)"
  "COwnerID r = [] \<Longrightarrow> dec_fields command_fields set_command_field (omitempty (COwnerID c = []) ''owner_id'' (JString (COwnerID c))) r =
     Inr (r\<lparr>COwnerID := COwnerID c\<rparr>)"
  "CExpiresAt r = 0 \<Longrightarrow> dec_fields command_fields set_command_field (omitempty (CExpiresAt c = 0) ''expires_at'' (json_int (CExpiresAt c))) r =
     Inr (r\<lparr>CExpiresAt := CExpiresAt c\<rparr>)"
  "CFencingToken r = 0 \<Longrightarrow> dec_fields command_fields set_command_field (omitempty (CFencingToken c = 0) ''fencing_token'' (json_nat (CFencingToken c))) r =
     Inr (r\<lparr>CFencingToken := CFencingToken c\<rparr>)"
  "CExecutionID r = [] \<Longrightarrow> dec_fields command_fields set_command_field (omitempty (CExecutionID c = []) ''execution_id'' (JString (CExecutionID c))) r =
     Inr (r\<lparr>CExecutionID := CExecutionID c\<rparr>)"
  "CExpectedState r = [] \<Longrightarrow> dec_fields command_fields set_command_field (omitempty (CExpectedState c = []) ''expected_state'' (JString (CExpectedState c))) r =
     Inr (r\<lparr>CExpectedState := CExpectedState c\<rparr>)"
  "CAt r = 0 \<Longrightarrow> dec_fields command_fields set_command_field (omitempty (CAt c = 0) ''at'' (json_int (CAt c))) r =
     Inr (r\<lparr>CAt := CAt c\<rparr>)"
  using assms
  by (cases r; simp add: dec_fields_omitempty command_fields_def set_command_field_def json_dec command_fits_def)+

lemma DecodeCommand_EncodeCommand:
  assumes "command_fits c" shows "DecodeCommand (EncodeCommand c) = Inr c"
proof -
  have first: "dec_fields command_fields set_command_field [(''type'', JString (CType c)), (''key'', JString (CKey c))] zero_command =
      Inr (zero_command\<lparr>CType := CType c, CKey := CKey c\<rparr>)"
    by (simp add: command_fields_def set_command_field_def json_dec)
  have zeros: "CValue zero_command = []" "CJobID zero_command = []" "CPayload zero_command = []" "CScheduledAt zero_command = 0"
    "COwnerID zero_command = []" "CExpiresAt zero_command = 0" "CFencingToken zero_command = 0" "CExecutionID zero_command = []"
    "CExpectedState zero_command = []" "CAt zero_command = 0"
    by (simp_all add: zero_command_def)
  have "DecodeCommand (EncodeCommand c) = dec_struct command_fields set_command_field zero_command (command_json c)"
    by (simp add: DecodeCommand_def EncodeCommand_def json_parse_print command_json_ok assms)
  also have "\<dots> = Inr (zero_command\<lparr>CType := CType c, CKey := CKey c, CValue := CValue c, CJobID := CJobID c,
      CPayload := CPayload c, CScheduledAt := CScheduledAt c, COwnerID := COwnerID c, CExpiresAt := CExpiresAt c,
      CFencingToken := CFencingToken c, CExecutionID := CExecutionID c, CExpectedState := CExpectedState c, CAt := CAt c\<rparr>)"
    unfolding command_json_def dec_struct_def
    by (simp only: json.case dec_fields_append first bind_result_simps)
      (simp add: dec_fields_append command_field_steps [OF assms] zeros)
  also have "\<dots> = Inr c" by (cases c) (simp add: zero_command_def)
  finally show ?thesis .
qed

end
