(* ===== verification/KV_Apply.thy ===== *)
theory KV_Apply
  imports KV_Command
begin

text \<open>
  The application of a log entry to the store (\<^verbatim>\<open>apply.go\<close>): decoding its command, dispatching it to
  the operation of the store, and the sequence of all committed entries.  Metrics counters do not touch
  the store and are left out.
\<close>

record apply_result =
  ResJob :: "job option"
  ResErr :: "go_error option"

abbreviation apply_ok :: apply_result where
  "apply_ok \<equiv> \<lparr>ResJob = None, ResErr = None\<rparr>"

section \<open>Application\<close>

definition applyKVCommand :: "store \<Rightarrow> command \<Rightarrow> apply_result \<times> store" where
  "applyKVCommand s c =
     (if CType c = CommandPut then (apply_ok, store_Put s (CKey c) (CValue c))
      else if CType c = CommandDelete then (apply_ok, snd (store_Delete s (CKey c)))
      else (apply_ok, s))"

definition applyFencedPut :: "store \<Rightarrow> command \<Rightarrow> apply_result \<times> store" where
  "applyFencedPut s c =
     (case FencedPut s (CKey c) (CValue c) (CFencingToken c) of
        (None, s') \<Rightarrow> (apply_ok, s')
      | (Some err, s') \<Rightarrow>
          if errors_is err ErrStaleFencingToken \<or> errors_is err ErrLockNotFound
          then (\<lparr>ResJob = None, ResErr = Some err\<rparr>, s')
          else (\<lparr>ResJob = None, ResErr = Some (Wrapf ''fenced put'' [err])\<rparr>, s'))"

definition applyLockCommand :: "store \<Rightarrow> command \<Rightarrow> log_entry \<Rightarrow> apply_result \<times> store" where
  "applyLockCommand s c entry =
     (if CType c = CommandLockAcquire then
        (case AcquireLock s (CKey c) (COwnerID c) (CExpiresAt c) (Index entry) of
           (Inl err, s') \<Rightarrow> (\<lparr>ResJob = None, ResErr = Some (Wrapf ''acquire lock'' [err])\<rparr>, s')
         | (Inr _, s') \<Rightarrow> (apply_ok, s'))
      else if CType c = CommandLockExpire then
        (case ExpireLock s (CKey c) (CFencingToken c) of
           (Inl err, s') \<Rightarrow> (\<lparr>ResJob = None, ResErr = Some (Wrapf ''expire lock'' [err])\<rparr>, s')
         | (Inr _, s') \<Rightarrow> (apply_ok, s'))
      else if CType c = CommandFencedPut then applyFencedPut s c
      else (apply_ok, s))"

definition applyClaimJob :: "store \<Rightarrow> command \<Rightarrow> log_entry \<Rightarrow> apply_result \<times> store" where
  "applyClaimJob s c entry =
     (case ClaimJob s (CJobID c) (COwnerID c) (CExpiresAt c) (Index entry) of
        (Inl err, s') \<Rightarrow> (\<lparr>ResJob = None, ResErr = Some (Wrapf ''claim job'' [err])\<rparr>, s')
      | (Inr job, s') \<Rightarrow> (\<lparr>ResJob = Some job, ResErr = None\<rparr>, s'))"

definition applyJobCreationCommand :: "store \<Rightarrow> command \<Rightarrow> log_entry \<Rightarrow> apply_result \<times> store" where
  "applyJobCreationCommand s c entry =
     (if CType c = CommandClaimJob then applyClaimJob s c entry
      else
        let job = zero_job\<lparr>JobIDOf := CJobID c, Payload := CPayload c, JState := JobPending,
                           ScheduledAt := CScheduledAt c, CreatedIndex := Index entry\<rparr>
        in case CreateJob s job of
             (Some err, s') \<Rightarrow>
               (\<lparr>ResJob = Some job, ResErr = Some (Wrapf ''create job'' [err])\<rparr>, s')
           | (None, s') \<Rightarrow> (\<lparr>ResJob = Some job, ResErr = None\<rparr>, s'))"

text \<open>\<open>None\<close> is the Go \<^verbatim>\<open>panic\<close> of the default branch.\<close>

definition jobTransitionStates :: "string \<Rightarrow> (job_state \<times> job_state) option" where
  "jobTransitionStates commandType =
     (if commandType = CommandJobStart then Some (JobScheduled, JobRunning)
      else if commandType = CommandJobSucceeded then Some (JobRunning, JobSucceeded)
      else if commandType = CommandJobFailed then Some (JobRunning, JobFailed)
      else None)"

text \<open>A Go \<^verbatim>\<open>job\<close> result beside an error is the zero job; the caller only reads it on success.\<close>

definition job_apply_result :: "job result \<Rightarrow> apply_result" where
  "job_apply_result r =
     (case r of Inl err \<Rightarrow> \<lparr>ResJob = Some zero_job, ResErr = Some err\<rparr>
      | Inr job \<Rightarrow> \<lparr>ResJob = Some job, ResErr = None\<rparr>)"

definition applyJobTransitionCommand :: "store \<Rightarrow> command \<Rightarrow> (apply_result \<times> store) option" where
  "applyJobTransitionCommand s c =
     (case jobTransitionStates (CType c) of
        None \<Rightarrow> None
      | Some (fromState, toState) \<Rightarrow>
          (case TransitionJobState s (CJobID c) (COwnerID c) (CExecutionID c) (CFencingToken c)
                  fromState toState (CAt c) of
             (r, s') \<Rightarrow> Some (job_apply_result r, s')))"

definition applyJobReclaimCommand :: "store \<Rightarrow> command \<Rightarrow> apply_result \<times> store" where
  "applyJobReclaimCommand s c =
     (case ReclaimExpiredJob s (CJobID c) (CFencingToken c) (CAt c) of
        (r, s') \<Rightarrow> (job_apply_result r, s'))"

definition applyCommand :: "store \<Rightarrow> command \<Rightarrow> log_entry \<Rightarrow> (apply_result \<times> store) option" where
  "applyCommand s c entry =
     (if CType c \<in> {CommandPut, CommandDelete, CommandReadBarrier} then Some (applyKVCommand s c)
      else if CType c \<in> {CommandLockAcquire, CommandLockExpire, CommandFencedPut}
      then Some (applyLockCommand s c entry)
      else if CType c \<in> {CommandCreateJob, CommandClaimJob}
      then Some (applyJobCreationCommand s c entry)
      else if CType c \<in> {CommandJobStart, CommandJobSucceeded, CommandJobFailed}
      then applyJobTransitionCommand s c
      else if CType c = CommandJobReclaim then Some (applyJobReclaimCommand s c)
      else Some (\<lparr>ResJob = None, ResErr = Some (Message ''unknown command type'')\<rparr>, s))"

definition ApplyWithMetrics :: "store \<Rightarrow> log_entry \<Rightarrow> (apply_result \<times> store) option" where
  "ApplyWithMetrics s entry =
     (case DecodeCommand (Data entry) of
        Inl err \<Rightarrow>
          Some (\<lparr>ResJob = None, ResErr = Some (Wrapf ''decode raft command at index'' [err])\<rparr>, s)
      | Inr c \<Rightarrow> applyCommand s c entry)"

text \<open>A committed sequence of commands, applied in log order.\<close>

fun apply_all :: "store \<Rightarrow> (command \<times> log_entry) list \<Rightarrow> store option" where
  "apply_all s [] = Some s"
| "apply_all s ((c, e) # ces) =
     (case applyCommand s c e of None \<Rightarrow> None | Some (_, s') \<Rightarrow> apply_all s' ces)"

section \<open>No command panics\<close>

lemma applyCommand_total: "\<exists>r s'. applyCommand s c e = Some (r, s')"
  by (auto simp: applyCommand_def applyJobTransitionCommand_def jobTransitionStates_def
      split: prod.splits)

lemma apply_all_total: "\<exists>s'. apply_all s ces = Some s'"
proof (induction ces arbitrary: s)
  case Nil
  then show ?case by simp
next
  case (Cons ce ces)
  obtain c e where ce: "ce = (c, e)" by (cases ce)
  obtain r s' where "applyCommand s c e = Some (r, s')" using applyCommand_total by blast
  with Cons.IH [of s'] show ?case by (simp add: ce)
qed

end
