(* ===== verification/KV_Safety.thy ===== *)
theory KV_Safety
  imports KV_Apply
begin

text \<open>
  What every command sequence keeps of the store: the invariant \<open>store_wf\<close>, the fencing tokens and
  the job life cycle.  Each operation is first described by its effect on the lock table (a run of
  the table interface) and on single jobs (the relation \<open>job_step\<close>); the properties of command
  sequences follow from those two views.
\<close>

section \<open>Which store operation a command runs\<close>

lemma applyCommand_cases:
  assumes "applyCommand s c e = Some (r, s')"
  obtains (Put) "s' = store_Put s (CKey c) (CValue c)"
  | (Delete) "s' = snd (store_Delete s (CKey c))"
  | (Same) "s' = s"
  | (Acquire) "s' = snd (AcquireLock s (CKey c) (COwnerID c) (CExpiresAt c) (Index e))"
  | (Expire) "CType c = CommandLockExpire" "s' = snd (ExpireLock s (CKey c) (CFencingToken c))"
  | (Fenced) "s' = snd (FencedPut s (CKey c) (CValue c) (CFencingToken c))"
  | (Create) "s' = snd (CreateJob s (zero_job\<lparr>JobIDOf := CJobID c, Payload := CPayload c,
      JState := JobPending, ScheduledAt := CScheduledAt c, CreatedIndex := Index e\<rparr>))"
  | (Claim) "s' = snd (ClaimJob s (CJobID c) (COwnerID c) (CExpiresAt c) (Index e))"
  | (Transition) f t where "jobTransitionStates (CType c) = Some (f, t)"
      "s' = snd (TransitionJobState s (CJobID c) (COwnerID c) (CExecutionID c) (CFencingToken c)
              f t (CAt c))"
  | (Reclaim) "s' = snd (ReclaimExpiredJob s (CJobID c) (CFencingToken c) (CAt c))"
  using assms
  by (auto simp: applyCommand_def applyKVCommand_def applyLockCommand_def applyFencedPut_def
      applyJobCreationCommand_def applyClaimJob_def applyJobTransitionCommand_def
      applyJobReclaimCommand_def Let_def split: if_splits prod.splits option.splits sum.splits)

section \<open>The effect on the lock table\<close>

definition lock_moves :: "lock_state \<Rightarrow> lock_state \<Rightarrow> bool" where
  "lock_moves ls ls' \<longleftrightarrow> (\<exists>ops. length ops \<le> 1 \<and> ls' = foldl lt.step ls ops)"

lemma lock_moves_refl [intro, simp]: "lock_moves ls ls"
  unfolding lock_moves_def by (intro exI [of _ "[]"]) simp

lemma lock_moves_step: "lock_moves ls (lt.step ls op)"
  unfolding lock_moves_def by (intro exI [of _ "[op]"]) simp

lemmas lock_moves_ops = lock_moves_step [of _ "TAcquire _ _ _ _"] lock_moves_step [of _ "TExpire _ _"]
  lock_moves_step [of _ "TRemove _"]

lemma AcquireLock_moves: "lock_moves (st_locks s) (st_locks (snd (AcquireLock s k w e g)))"
  using lock_moves_step [of "st_locks s" "TAcquire k w e g"]
  by (auto simp: AcquireLock_def split: prod.splits)

lemma ExpireLock_moves: "lock_moves (st_locks s) (st_locks (snd (ExpireLock s k t)))"
  using lock_moves_step [of "st_locks s" "TExpire k t"]
  by (auto simp: ExpireLock_def split: prod.splits)

lemma ClaimJob_moves: "lock_moves (st_locks s) (st_locks (snd (ClaimJob s i w e g)))"
  using lock_moves_step [of "st_locks s" "TAcquire i w e g"]
  by (auto simp: ClaimJob_def handleFailedClaim_def Let_def split: prod.splits option.splits)

lemma ReclaimExpiredJob_moves: "lock_moves (st_locks s) (st_locks (snd (ReclaimExpiredJob s i t a)))"
  using lock_moves_step [of "st_locks s" "TRemove i"]
  by (auto simp: ReclaimExpiredJob_def Let_def split: option.splits)

lemma TransitionJobState_locks [simp]:
  "st_locks (snd (TransitionJobState s i w x t f n a)) = st_locks s"
  by (auto simp: TransitionJobState_def Let_def split: option.splits)

lemma CreateJob_locks [simp]: "st_locks (snd (CreateJob s j)) = st_locks s"
  by (auto simp: CreateJob_def split: option.splits)

lemma applyCommand_moves:
  assumes "applyCommand s c e = Some (r, s')"
  shows "lock_moves (st_locks s) (st_locks s')"
  using assms
  by (cases rule: applyCommand_cases)
    (auto simp: AcquireLock_moves ExpireLock_moves ClaimJob_moves ReclaimExpiredJob_moves)

lemma apply_all_moves:
  assumes "apply_all s ces = Some s'"
  shows "\<exists>ops. length ops \<le> length ces \<and> st_locks s' = foldl lt.step (st_locks s) ops"
  using assms
proof (induction ces arbitrary: s)
  case Nil
  then show ?case by (intro exI [of _ "[]"]) simp
next
  case (Cons ce ces)
  obtain c e where ce: "ce = (c, e)" by (cases ce)
  from Cons.prems obtain r s1 where 1: "applyCommand s c e = Some (r, s1)"
    and rest: "apply_all s1 ces = Some s'"
    by (auto simp: ce split: option.splits)
  from applyCommand_moves [OF 1] obtain op1 where
    "length op1 \<le> 1" "st_locks s1 = foldl lt.step (st_locks s) op1"
    by (auto simp: lock_moves_def)
  moreover from Cons.IH [OF rest] obtain ops where
    "length ops \<le> length ces" "st_locks s' = foldl lt.step (st_locks s1) ops" by blast
  ultimately show ?case by (intro exI [of _ "op1 @ ops"]) simp
qed

lemma apply_all_locks:
  assumes "apply_all s ces = Some s'" and "lock_wf (st_locks s)"
    and "NextToken (st_locks s) + length ces < 2 ^ 64"
  shows "lock_wf (st_locks s')" "NextToken (st_locks s) \<le> NextToken (st_locks s')"
    "lt.stale (st_locks s) t \<Longrightarrow> lt.stale (st_locks s') t"
proof -
  from apply_all_moves [OF assms(1)] obtain ops where
    ops: "length ops \<le> length ces" "st_locks s' = foldl lt.step (st_locks s) ops" by blast
  with assms(3) have "NextToken (st_locks s) + length ops < 2 ^ 64" by simp
  from lt.run_spec [OF assms(2) this, of t] ops(2)
  show "lock_wf (st_locks s')" "NextToken (st_locks s) \<le> NextToken (st_locks s')"
    "lt.stale (st_locks s) t \<Longrightarrow> lt.stale (st_locks s') t" by simp_all
qed

section \<open>The effect on one job\<close>

inductive job_step :: "job \<Rightarrow> job \<Rightarrow> bool" where
  claim: "JState j = JobPending \<Longrightarrow>
    job_step j (j\<lparr>JState := JobScheduled, AssignedWorkerID := w, JobToken := t,
                  Attempt := a, JobExecutionID := x\<rparr>)"
| start: "JState j = JobScheduled \<Longrightarrow> job_step j (j\<lparr>JState := JobRunning\<rparr>)"
| succeed: "JState j = JobRunning \<Longrightarrow> job_step j (j\<lparr>JState := JobSucceeded\<rparr>)"
| fail: "JState j = JobRunning \<Longrightarrow> job_step j (j\<lparr>JState := JobFailed\<rparr>)"
| reclaim: "JState j = JobScheduled \<or> JState j = JobRunning \<Longrightarrow>
    job_step j (j\<lparr>JState := JobPending, AssignedWorkerID := [], JobToken := 0\<rparr>)"

inductive_cases job_stepE: "job_step j j'"

lemma job_step_adopt: "JState j = JobPending \<Longrightarrow>
    job_step j (j\<lparr>JState := JobScheduled, AssignedWorkerID := w, JobToken := t\<rparr>)"
  using job_step.claim [of j, where w = w and t = t and a = "Attempt j" and x = "JobExecutionID j"]
  by simp

definition job_moves :: "store \<Rightarrow> store \<Rightarrow> bool" where
  "job_moves s s' \<longleftrightarrow> (\<forall>i j. fmlookup (st_jobs s) i = Some j \<longrightarrow>
     (\<exists>j'. fmlookup (st_jobs s') i = Some j' \<and> (j' = j \<or> job_step j j')))"

lemma job_moves_same [simp]: "st_jobs s' = st_jobs s \<Longrightarrow> job_moves s s'"
  by (simp add: job_moves_def)

lemma job_moves_update:
  assumes "fmlookup (st_jobs s) i = Some j" "job_step j j'"
  shows "job_moves s (s\<lparr>st_jobs := fmupd i j' (st_jobs s)\<rparr>)"
    "job_moves s (s\<lparr>st_locks := ls, st_jobs := fmupd i j' (st_jobs s)\<rparr>)"
  using assms by (auto simp: job_moves_def)

lemma CreateJob_job_moves: "job_moves s (snd (CreateJob s j))"
  by (auto simp: CreateJob_def job_moves_def split: option.splits)

lemma ClaimJob_job_moves: "job_moves s (snd (ClaimJob s i w e g))"
proof (cases "validateClaimArguments i w e = None \<and> (\<exists>j. fmlookup (st_jobs s) i = Some j \<and>
    handleExistingClaim i w j = None)")
  case True
  then obtain j where j: "fmlookup (st_jobs s) i = Some j" and "handleExistingClaim i w j = None"
    and "validateClaimArguments i w e = None" by blast
  moreover from this have "JState j = JobPending"
    by (simp add: handleExistingClaim_def split: if_splits)
  ultimately show ?thesis
    by (auto simp: ClaimJob_def handleFailedClaim_def Let_def split: prod.splits
        intro: job_moves_update [OF j] job_step.claim job_step_adopt)
next
  case False
  then show ?thesis
    by (auto simp: ClaimJob_def split: option.splits)
qed

lemma ReclaimExpiredJob_job_moves: "job_moves s (snd (ReclaimExpiredJob s i t a))"
  by (auto simp: ReclaimExpiredJob_def Let_def split: option.splits
      intro: job_moves_update job_step.reclaim)

lemma TransitionJobState_job_moves:
  assumes "jobTransitionStates ct = Some (f, n)"
  shows "job_moves s (snd (TransitionJobState s i w x t f n a))"
  using assms
  by (auto simp: TransitionJobState_def validateTransitionOwnership_def jobTransitionStates_def Let_def
      split: option.splits if_splits
      intro: job_moves_update job_step.start job_step.succeed job_step.fail)

lemma applyCommand_job_moves:
  assumes "applyCommand s c e = Some (r, s')"
  shows "job_moves s s'"
  using assms
  by (cases rule: applyCommand_cases)
    (auto simp: CreateJob_job_moves ClaimJob_job_moves ReclaimExpiredJob_job_moves
      TransitionJobState_job_moves)

section \<open>The invariant of the store\<close>

text \<open>
  Locks and jobs are stored under their own non-empty key; a pending job carries no ownership and
  every other job carries a worker and an issued token; a fenced value carries an issued token that
  is not above the token of the lock that now guards its key.
\<close>

definition job_ok :: "nat \<Rightarrow> job_id \<Rightarrow> job \<Rightarrow> bool" where
  "job_ok issued i j \<longleftrightarrow> i \<noteq> [] \<and> JobIDOf j = i \<and>
     JState j \<in> {JobPending, JobScheduled, JobRunning, JobSucceeded, JobFailed} \<and>
     (if JState j = JobPending then AssignedWorkerID j = [] \<and> JobToken j = 0
      else AssignedWorkerID j \<noteq> [] \<and> 0 < JobToken j \<and> JobToken j \<le> issued)"

definition fenced_ok :: "lock_state \<Rightarrow> string \<Rightarrow> fenced_value \<Rightarrow> bool" where
  "fenced_ok ls k v \<longleftrightarrow> k \<noteq> [] \<and> 0 < FToken v \<and> FToken v \<le> NextToken ls \<and>
     (case fmlookup (Locks ls) k of None \<Rightarrow> True | Some l \<Rightarrow> FToken v \<le> FencingToken l)"

definition store_wf :: "store \<Rightarrow> bool" where
  "store_wf s \<longleftrightarrow> lock_wf (st_locks s) \<and>
     fmpred (\<lambda>k l. k \<noteq> [] \<and> OwnerID l \<noteq> []) (Locks (st_locks s)) \<and>
     fmpred (job_ok (NextToken (st_locks s))) (st_jobs s) \<and>
     fmpred (fenced_ok (st_locks s)) (st_fenced s)"

lemma store_wf_locks: "store_wf s \<Longrightarrow> lock_wf (st_locks s)"
  by (simp add: store_wf_def)

lemma store_wf_NewStore [wf_intros]: "store_wf NewStore"
  by (simp add: store_wf_def NewStore_def lock_wf_NewState) (simp add: NewState_def)

lemma store_wf_owner:
  "store_wf s \<Longrightarrow> fmlookup (Locks (st_locks s)) k = Some l \<Longrightarrow> k \<noteq> [] \<and> OwnerID l \<noteq> []"
  by (auto simp: store_wf_def)

lemma store_wf_job: "store_wf s \<Longrightarrow> fmlookup (st_jobs s) i = Some j \<Longrightarrow>
  job_ok (NextToken (st_locks s)) i j"
  by (auto simp: store_wf_def)

lemma job_ok_mono: "job_ok n i j \<Longrightarrow> n \<le> m \<Longrightarrow> job_ok m i j"
  by (auto simp: job_ok_def split: if_splits)

text \<open>Granting, removing and the job and fenced updates, each as one rule.\<close>

lemma fenced_ok_grant:
  assumes "fenced_ok ls k' v" "FencingToken l = Suc (NextToken ls)"
  shows "fenced_ok (ls\<lparr>NextToken := Suc (NextToken ls), Locks := fmupd k l (Locks ls)\<rparr>) k' v"
  using assms by (auto simp: fenced_ok_def split: option.splits)

lemma store_wf_grant:
  assumes wf: "store_wf s" and room: "Suc (NextToken (st_locks s)) < 2 ^ 64"
    and free: "fmlookup (Locks (st_locks s)) k = None" and "k \<noteq> []" "w \<noteq> []"
  shows "store_wf (s\<lparr>st_locks := snd (snd (lock_Acquire (st_locks s) k w e g))\<rparr>)"
proof -
  let ?l = "\<lparr>LockKey = k, OwnerID = w, FencingToken = Suc (NextToken (st_locks s)), ExpiresAt = e,
             GrantIndex = g\<rparr>"
  let ?ls = "(st_locks s)\<lparr>NextToken := Suc (NextToken (st_locks s)),
               Locks := fmupd k ?l (Locks (st_locks s))\<rparr>"
  have acq: "snd (snd (lock_Acquire (st_locks s) k w e g)) = ?ls"
    using lock_Acquire_free [OF free room] by (simp add: Let_def)
  have "lock_wf ?ls" by (rule lock_wf_grant) (use wf in \<open>simp_all add: store_wf_def\<close>)
  moreover have "fmpred (\<lambda>k l. k \<noteq> [] \<and> OwnerID l \<noteq> []) (Locks ?ls)"
    using assms(4,5) wf by (auto simp: store_wf_def)
  moreover have "fmpred (job_ok (NextToken ?ls)) (st_jobs s)"
    using wf job_ok_mono [OF _ le_SucI [OF order_refl]] by (auto simp: store_wf_def fmpred_iff)
  moreover have "fmpred (fenced_ok ?ls) (st_fenced s)"
    using wf by (auto simp: store_wf_def fmpred_iff intro!: fenced_ok_grant)
  ultimately show ?thesis by (simp add: store_wf_def acq)
qed

lemma store_wf_release:
  assumes "store_wf s"
  shows "store_wf (s\<lparr>st_locks := lock_remove (st_locks s) k\<rparr>)"
  using assms lock_wf_remove [of "st_locks s" k]
  by (auto simp: store_wf_def lock_remove_def fmpred_iff fenced_ok_def)

lemma store_wf_set_job:
  assumes "store_wf s" "job_ok (NextToken (st_locks s)) i j"
  shows "store_wf (s\<lparr>st_jobs := fmupd i j (st_jobs s)\<rparr>)"
  using assms by (auto simp: store_wf_def)

lemma store_wf_set_fenced:
  assumes "store_wf s" "fmlookup (Locks (st_locks s)) k = Some l" "k \<noteq> []"
  shows "store_wf (s\<lparr>st_fenced := fmupd k \<lparr>FValue = v, FToken = FencingToken l\<rparr> (st_fenced s)\<rparr>)"
  using assms lock_wf_bound [OF store_wf_locks [OF assms(1)] assms(2)]
  by (auto simp: store_wf_def fenced_ok_def)

lemma AcquireLock_wf:
  assumes "store_wf s" "Suc (NextToken (st_locks s)) < 2 ^ 64"
  shows "store_wf (snd (AcquireLock s k w e g))"
proof (cases "fmlookup (Locks (st_locks s)) k")
  case None
  with store_wf_grant [OF assms None, of w e g] assms(1) show ?thesis
    by (auto simp: AcquireLock_def split: prod.splits)
next
  case (Some l)
  with assms(1) show ?thesis by (simp add: AcquireLock_def lock_Acquire_held)
qed

lemma ExpireLock_wf: "store_wf s \<Longrightarrow> store_wf (snd (ExpireLock s k t))"
  using store_wf_release [of s k]
  by (auto simp: ExpireLock_def lock_Expire_def lock_remove_def split: option.splits)

lemma FencedPut_wf: "store_wf s \<Longrightarrow> store_wf (snd (FencedPut s k v t))"
  by (auto simp: FencedPut_def lock_Get_def split: option.splits intro!: store_wf_set_fenced)

lemma CreateJob_wf:
  "store_wf s \<Longrightarrow> JState j = JobPending \<Longrightarrow> AssignedWorkerID j = [] \<Longrightarrow> JobToken j = 0 \<Longrightarrow>
   store_wf (snd (CreateJob s j))"
  by (auto simp: CreateJob_def job_ok_def split: option.splits intro!: store_wf_set_job)

lemma TransitionJobState_wf:
  assumes wf: "store_wf s" and ct: "jobTransitionStates ct = Some (f, n)"
  shows "store_wf (snd (TransitionJobState s i w x t f n a))"
proof (cases "is_ok (fst (TransitionJobState s i w x t f n a))")
  case True
  then obtain j where j: "fmlookup (st_jobs s) i = Some j" and "JState j = f"
    and upd: "snd (TransitionJobState s i w x t f n a) =
      s\<lparr>st_jobs := fmupd i (j\<lparr>JState := n\<rparr>) (st_jobs s)\<rparr>"
    by (auto simp: TransitionJobState_def validateTransitionOwnership_def Let_def
        split: option.splits if_splits)
  with store_wf_job [OF wf j] ct have "job_ok (NextToken (st_locks s)) i (j\<lparr>JState := n\<rparr>)"
    by (auto simp: job_ok_def jobTransitionStates_def split: if_splits)
  with wf show ?thesis unfolding upd by (rule store_wf_set_job)
next
  case False
  then have "snd (TransitionJobState s i w x t f n a) = s"
    by (auto simp: TransitionJobState_def Let_def split: option.splits)
  with wf show ?thesis by simp
qed

lemma ReclaimExpiredJob_wf:
  assumes wf: "store_wf s"
  shows "store_wf (snd (ReclaimExpiredJob s i t a))"
proof (cases "is_ok (fst (ReclaimExpiredJob s i t a))")
  case True
  then obtain j where j: "fmlookup (st_jobs s) i = Some j"
    and upd: "snd (ReclaimExpiredJob s i t a) = s\<lparr>st_locks := lock_remove (st_locks s) i,
      st_jobs := fmupd i (j\<lparr>JState := JobPending, AssignedWorkerID := [], JobToken := 0\<rparr>)
        (st_jobs s)\<rparr>"
    by (auto simp: ReclaimExpiredJob_def Let_def split: option.splits if_splits)
  let ?s = "s\<lparr>st_locks := lock_remove (st_locks s) i\<rparr>"
  have "store_wf (?s\<lparr>st_jobs := fmupd i (j\<lparr>JState := JobPending, AssignedWorkerID := [],
      JobToken := 0\<rparr>) (st_jobs ?s)\<rparr>)"
    using store_wf_release [OF wf, of i] store_wf_job [OF wf j]
    by (intro store_wf_set_job) (auto simp: job_ok_def)
  then show ?thesis unfolding upd by simp
next
  case False
  then have "snd (ReclaimExpiredJob s i t a) = s"
    by (auto simp: ReclaimExpiredJob_def Let_def split: option.splits if_splits)
  with wf show ?thesis by simp
qed

lemma lock_wf_owned_job_ok:
  assumes "store_wf s" "fmlookup (st_jobs s) i = Some j" "fmlookup (Locks (st_locks s)) i = Some l"
    and "OwnerID l = w"
  shows "job_ok (NextToken (st_locks s)) i
    (j\<lparr>JState := JobScheduled, AssignedWorkerID := w, JobToken := FencingToken l, Attempt := a,
       JobExecutionID := x\<rparr>)"
  using store_wf_job [OF assms(1,2)] store_wf_owner [OF assms(1,3)] assms(4)
    lock_wf_bound [OF store_wf_locks [OF assms(1)] assms(3)]
  by (auto simp: job_ok_def)

text \<open>The three outcomes of a claim: refused, adopted under an own lock, granted a new lock.\<close>

lemma ClaimJob_outcome:
  assumes "Suc (NextToken (st_locks s)) < 2 ^ 64"
  obtains (Refused) "snd (ClaimJob s i w e g) = s"
  | (Adopted) j l where "fmlookup (st_jobs s) i = Some j" "JState j = JobPending"
      "fmlookup (Locks (st_locks s)) i = Some l" "OwnerID l = w"
      "snd (ClaimJob s i w e g) = s\<lparr>st_jobs := fmupd i (j\<lparr>JState := JobScheduled,
         AssignedWorkerID := w, JobToken := FencingToken l\<rparr>) (st_jobs s)\<rparr>"
  | (Granted) j l ls where "fmlookup (st_jobs s) i = Some j" "JState j = JobPending"
      "fmlookup (Locks (st_locks s)) i = None" "i \<noteq> []" "w \<noteq> []"
      "ls = snd (snd (lock_Acquire (st_locks s) i w e g))" "fmlookup (Locks ls) i = Some l"
      "OwnerID l = w"
      "snd (ClaimJob s i w e g) = s\<lparr>st_locks := ls, st_jobs := fmupd i (j\<lparr>JState := JobScheduled,
         AssignedWorkerID := w, JobToken := FencingToken l, Attempt := inc32 (Attempt j),
         JobExecutionID := executionID (JobIDOf j) (inc32 (Attempt j))\<rparr>) (st_jobs s)\<rparr>"
proof (cases "validateClaimArguments i w e = None \<and> (\<exists>j. fmlookup (st_jobs s) i = Some j \<and>
    handleExistingClaim i w j = None)")
  case True
  then obtain j where j: "fmlookup (st_jobs s) i = Some j" and h: "handleExistingClaim i w j = None"
    and v: "validateClaimArguments i w e = None" by blast
  from h have pend: "JState j = JobPending" by (simp add: handleExistingClaim_def split: if_splits)
  from v have ne: "i \<noteq> []" "w \<noteq> []" by (auto simp: validateClaimArguments_def split: if_splits)
  show ?thesis
  proof (cases "fmlookup (Locks (st_locks s)) i")
    case None
    show ?thesis
      by (rule Granted [OF j pend None ne refl])
        (use j h v None in \<open>auto simp: lock_Acquire_def ClaimJob_def Let_def\<close>)
  next
    case (Some l)
    show ?thesis
    proof (cases "OwnerID l = w")
      case True
      show ?thesis
        by (rule Adopted [OF j pend Some True])
          (use j h v Some True in \<open>simp add: lock_Acquire_held ClaimJob_def handleFailedClaim_def Let_def\<close>)
    next
      case False
      show ?thesis
        by (rule Refused)
          (use j h v Some False in \<open>simp add: lock_Acquire_held ClaimJob_def handleFailedClaim_def\<close>)
    qed
  qed
next
  case False
  then show ?thesis by (intro Refused) (auto simp: ClaimJob_def split: option.splits)
qed

lemma ClaimJob_wf:
  assumes wf: "store_wf s" and room: "Suc (NextToken (st_locks s)) < 2 ^ 64"
  shows "store_wf (snd (ClaimJob s i w e g))"
  using room
proof (cases rule: ClaimJob_outcome [of s i w e g])
  case Refused
  with wf show ?thesis by simp
next
  case (Adopted j l)
  from store_wf_set_job [OF wf lock_wf_owned_job_ok [OF wf Adopted(1,3,4),
        where a = "Attempt j" and x = "JobExecutionID j"]] Adopted(5)
  show ?thesis by simp
next
  case (Granted j l ls)
  let ?s = "s\<lparr>st_locks := ls\<rparr>"
  have "store_wf ?s"
    unfolding Granted(6) using wf room Granted(3-5) by (rule store_wf_grant)
  from store_wf_set_job [OF this lock_wf_owned_job_ok [OF this]] Granted show ?thesis by simp
qed

lemma applyCommand_wf:
  assumes "applyCommand s c e = Some (r, s')" and "store_wf s" "Suc (NextToken (st_locks s)) < 2 ^ 64"
  shows "store_wf s'"
  using assms(1)
proof (cases rule: applyCommand_cases)
  case Put
  with assms(2) show ?thesis by (simp add: store_wf_def store_Put_def)
next
  case Delete
  with assms(2) show ?thesis by (auto simp: store_wf_def store_Delete_def split: option.splits)
next
  case (Transition f t)
  with assms(2) show ?thesis by (simp add: TransitionJobState_wf)
qed (use assms(2,3) in \<open>auto simp: AcquireLock_wf ExpireLock_wf FencedPut_wf ClaimJob_wf
       ReclaimExpiredJob_wf zero_job_def intro!: CreateJob_wf\<close>)

lemma applyCommand_tokens:
  assumes "applyCommand s c e = Some (r, s')" and "lock_wf (st_locks s)"
    and "Suc (NextToken (st_locks s)) < 2 ^ 64"
  shows "NextToken (st_locks s) \<le> NextToken (st_locks s')"
    "NextToken (st_locks s') \<le> Suc (NextToken (st_locks s))"
    "lt.stale (st_locks s) t \<Longrightarrow> lt.stale (st_locks s') t"
proof -
  from applyCommand_moves [OF assms(1)] obtain ops where
    ops: "length ops \<le> 1" "st_locks s' = foldl lt.step (st_locks s) ops"
    by (auto simp: lock_moves_def)
  with assms(3) have "NextToken (st_locks s) + length ops < 2 ^ 64" by simp
  note run = lt.run_spec [OF assms(2) this, of t]
  from run ops show "NextToken (st_locks s) \<le> NextToken (st_locks s')"
    "NextToken (st_locks s') \<le> Suc (NextToken (st_locks s))"
    "lt.stale (st_locks s) t \<Longrightarrow> lt.stale (st_locks s') t" by simp_all
qed

text \<open>
  The induction every property of a command sequence uses: a predicate kept by one command on a
  well-formed store is kept by a sequence that leaves room in the token counter.
\<close>

lemma apply_all_induct:
  assumes run: "apply_all s ces = Some s'" and wf: "store_wf s"
    and room: "NextToken (st_locks s) + length ces < 2 ^ 64" and init: "P s"
    and step: "\<And>s c e r s'. store_wf s \<Longrightarrow> Suc (NextToken (st_locks s)) < 2 ^ 64 \<Longrightarrow>
      applyCommand s c e = Some (r, s') \<Longrightarrow> store_wf s' \<Longrightarrow> P s \<Longrightarrow> P s'"
  shows "store_wf s' \<and> P s'"
  using run wf room init
proof (induction ces arbitrary: s)
  case Nil
  then show ?case by simp
next
  case (Cons ce ces)
  obtain c e where ce: "ce = (c, e)" by (cases ce)
  from Cons.prems(1) obtain r s1 where one: "applyCommand s c e = Some (r, s1)"
    and rest: "apply_all s1 ces = Some s'"
    by (auto simp: ce split: option.splits)
  from Cons.prems(3) have room1: "Suc (NextToken (st_locks s)) < 2 ^ 64" by simp
  note wf1 = applyCommand_wf [OF one Cons.prems(2) room1]
  from applyCommand_tokens(2) [OF one store_wf_locks [OF Cons.prems(2)] room1] Cons.prems(3)
  have "NextToken (st_locks s1) + length ces < 2 ^ 64" by simp
  from Cons.IH [OF rest wf1 this step [OF Cons.prems(2) room1 one wf1 Cons.prems(4)]]
  show ?case .
qed

section \<open>What single commands keep of fenced values and orphaned jobs\<close>

lemma fenced_frame [simp]:
  "st_fenced (store_Put s k v) = st_fenced s"
  "st_fenced (snd (store_Delete s k)) = st_fenced s"
  "st_fenced (snd (AcquireLock s k w e g)) = st_fenced s"
  "st_fenced (snd (ExpireLock s k t)) = st_fenced s"
  "st_fenced (snd (CreateJob s j)) = st_fenced s"
  "st_fenced (snd (ClaimJob s i w e g)) = st_fenced s"
  "st_fenced (snd (ReclaimExpiredJob s i t a)) = st_fenced s"
  "st_fenced (snd (TransitionJobState s i w x t f n a)) = st_fenced s"
  by (auto simp: store_Put_def store_Delete_def AcquireLock_def ExpireLock_def CreateJob_def
      ClaimJob_def handleFailedClaim_def ReclaimExpiredJob_def TransitionJobState_def Let_def
      split: option.splits prod.splits)

lemma FencedPut_token_mono:
  assumes "store_wf s" "fmlookup (st_fenced s) k = Some v"
  shows "\<exists>v'. fmlookup (st_fenced (snd (FencedPut s k2 x t))) k = Some v' \<and> FToken v \<le> FToken v'"
  using assms
  by (auto simp: FencedPut_def lock_Get_def store_wf_def fenced_ok_def fmpred_iff split: option.splits)

lemma applyCommand_fenced_mono:
  assumes "applyCommand s c e = Some (r, s')" "store_wf s" "fmlookup (st_fenced s) k = Some v"
  shows "\<exists>v'. fmlookup (st_fenced s') k = Some v' \<and> FToken v \<le> FToken v'"
  using assms(1)
  by (cases rule: applyCommand_cases) (use assms(2,3) FencedPut_token_mono in auto)

definition orphaned :: "store \<Rightarrow> job_id \<Rightarrow> job \<Rightarrow> bool" where
  "orphaned s i j \<longleftrightarrow> fmlookup (st_jobs s) i = Some j \<and> JState j \<in> {JobScheduled, JobRunning} \<and>
     lt.stale (st_locks s) (JobToken j)"

lemma stale_no_lock [dest]:
  "lt.stale ls (FencingToken l) \<Longrightarrow> fmlookup (Locks ls) k = Some l \<Longrightarrow> False"
  by (auto simp: lt.stale_def lock_Get_def)

lemma orphaned_ClaimJob: "orphaned s i j \<Longrightarrow> fmlookup (st_jobs (snd (ClaimJob s i' w e g))) i = Some j"
  by (auto simp: orphaned_def ClaimJob_def handleExistingClaim_def handleFailedClaim_def Let_def
      split: option.splits prod.splits)

lemma orphaned_ReclaimExpiredJob:
  "orphaned s i j \<Longrightarrow> fmlookup (st_jobs (snd (ReclaimExpiredJob s i' t a))) i = Some j"
  by (auto simp: orphaned_def ReclaimExpiredJob_def lock_Get_def Let_def
      split: option.splits)

lemma orphaned_TransitionJobState:
  "orphaned s i j \<Longrightarrow> fmlookup (st_jobs (snd (TransitionJobState s i' w x t f n a))) i = Some j"
  by (auto simp: orphaned_def TransitionJobState_def validateTransitionOwnership_def lock_Get_def
      Let_def split: option.splits)

lemma orphaned_step:
  assumes "store_wf s" "Suc (NextToken (st_locks s)) < 2 ^ 64" "applyCommand s c e = Some (r, s')"
    and "orphaned s i j"
  shows "orphaned s' i j"
proof -
  have "fmlookup (st_jobs s') i = Some j"
    using assms(3)
  proof (cases rule: applyCommand_cases)
    case Create
    with assms(4) show ?thesis by (auto simp: orphaned_def CreateJob_def split: option.splits)
  qed (use assms(4) in \<open>auto simp: orphaned_ClaimJob orphaned_ReclaimExpiredJob
        orphaned_TransitionJobState\<close>, auto simp: orphaned_def)
  with assms(4) applyCommand_tokens(3) [OF assms(3) store_wf_locks [OF assms(1)] assms(2)]
  show ?thesis by (simp add: orphaned_def)
qed

end
