(* ===== verification/KV_Snapshot.thy ===== *)
theory KV_Snapshot
  imports KV_Safety
begin

text \<open>
  Snapshots of the store (\<^verbatim>\<open>store_snapshot.go\<close>): the JSON text of the whole store, the checks of a restored
  one, and the older form that holds only the plain keys.  \<^verbatim>\<open>json.RawMessage\<close> keeps the text of a member; here
  it is the parsed value.  Logging is left out.
\<close>

section \<open>Snapshots\<close>

record snapshot_state =
  ss_Version :: nat
  ss_Data :: "(string, bytes) fmap"
  ss_Locks :: "(string, lock) fmap"
  ss_NextToken :: nat
  ss_Fenced :: "(string, fenced_value) fmap"
  ss_Jobs :: "(job_id, job) fmap"

definition snapshotVersion :: nat where "snapshotVersion = 1"

definition lock_json :: "lock \<Rightarrow> json" where
  "lock_json l = JObject [(''Key'', JString (LockKey l)), (''OwnerID'', JString (OwnerID l)),
     (''FencingToken'', json_nat (FencingToken l)), (''ExpiresAt'', json_int (ExpiresAt l)),
     (''GrantIndex'', json_nat (GrantIndex l))]"

definition fenced_json :: "fenced_value \<Rightarrow> json" where
  "fenced_json v = JObject [(''Value'', json_bytes (FValue v)), (''FencingToken'', json_nat (FToken v))]"

definition job_json :: "job \<Rightarrow> json" where
  "job_json j = JObject [(''ID'', JString (JobIDOf j)), (''Payload'', json_bytes (Payload j)),
     (''State'', JString (JState j)), (''ScheduledAt'', json_int (ScheduledAt j)),
     (''AssignedWorkerID'', JString (AssignedWorkerID j)), (''FencingToken'', json_nat (JobToken j)),
     (''Attempt'', json_nat (Attempt j)), (''ExecutionID'', JString (JobExecutionID j)),
     (''CreatedIndex'', json_nat (CreatedIndex j))]"

definition snapshot_state_json :: "snapshot_state \<Rightarrow> json" where
  "snapshot_state_json s = JObject [(''version'', json_nat (ss_Version s)), (''data'', json_map json_bytes (ss_Data s)),
     (''locks'', json_map lock_json (ss_Locks s)), (''next_token'', json_nat (ss_NextToken s)),
     (''fenced'', json_map fenced_json (ss_Fenced s)), (''jobs'', json_map job_json (ss_Jobs s))]"

definition store_Snapshot :: "store \<Rightarrow> bytes" where
  "store_Snapshot s = json_print (snapshot_state_json
     \<lparr>ss_Version = snapshotVersion, ss_Data = st_data s, ss_Locks = Locks (st_locks s),
      ss_NextToken = NextToken (st_locks s), ss_Fenced = st_fenced s, ss_Jobs = st_jobs s\<rparr>)"

section \<open>Validation\<close>

definition validateActiveJobOwnership :: "job_id \<Rightarrow> job \<Rightarrow> (string, lock) fmap \<Rightarrow> go_error option" where
  "validateActiveJobOwnership jid job locks =
     (if AssignedWorkerID job = [] then Some (Message ''active job has empty assigned worker'')
      else if JobToken job = 0 then Some (Message ''active job has invalid fencing token 0'')
      else case fmlookup locks jid of
        None \<Rightarrow> Some (Message ''active job has no corresponding lock'')
      | Some currentLock \<Rightarrow>
          if OwnerID currentLock \<noteq> AssignedWorkerID job
          then Some (Message ''active job worker does not match lock owner'')
          else if FencingToken currentLock \<noteq> JobToken job
          then Some (Message ''active job fencing token does not match lock token'')
          else None)"

definition validate_snapshot_lock :: "nat \<Rightarrow> string \<times> lock \<Rightarrow> go_error option" where
  "validate_snapshot_lock nextToken = (\<lambda>(key, currentLock).
     if key = [] then Some (Message ''snapshot contains lock with empty map key'')
     else if LockKey currentLock = [] then Some (Message ''snapshot lock has empty key'')
     else if LockKey currentLock \<noteq> key then Some (Message ''snapshot lock map key does not match lock key'')
     else if OwnerID currentLock = [] then Some (Message ''snapshot lock has empty owner'')
     else if FencingToken currentLock = 0 then Some (Message ''snapshot lock has invalid fencing token 0'')
     else if FencingToken currentLock > nextToken then Some (Message ''snapshot lock fencing token exceeds next token'')
     else None)"

definition validate_snapshot_job :: "(string, lock) fmap \<Rightarrow> job_id \<times> job \<Rightarrow> go_error option" where
  "validate_snapshot_job locks = (\<lambda>(jid, job).
     if jid = [] then Some (Message ''snapshot contains job with empty map key'')
     else if JobIDOf job = [] then Some (Message ''snapshot job map key has empty job ID'')
     else if JobIDOf job \<noteq> jid then Some (Message ''snapshot job map key does not match job ID'')
     else if JState job = JobPending then
       if AssignedWorkerID job \<noteq> [] \<or> JobToken job \<noteq> 0 then Some (Message ''pending job retains active ownership'') else None
     else if JState job \<in> {JobScheduled, JobRunning} then validateActiveJobOwnership jid job locks
     else if JState job \<in> {JobSucceeded, JobFailed} then None
     else Some (Message ''snapshot job has unknown state''))"

definition validateSnapshotState :: "snapshot_state \<Rightarrow> go_error option" where
  "validateSnapshotState snap =
     (case first_error (validate_snapshot_lock (ss_NextToken snap)) (map_range (ss_Locks snap)) of
        Some err \<Rightarrow> Some err
      | None \<Rightarrow> first_error (validate_snapshot_job (ss_Locks snap)) (map_range (ss_Jobs snap)))"

section \<open>Restoring\<close>

definition set_lock_field :: "string \<Rightarrow> json \<Rightarrow> lock \<Rightarrow> lock result" where
  "set_lock_field name v l =
     (if name = ''Key'' then bind_result (dec_string (LockKey l) v) (\<lambda>x. Inr (l\<lparr>LockKey := x\<rparr>))
      else if name = ''OwnerID'' then bind_result (dec_string (OwnerID l) v) (\<lambda>x. Inr (l\<lparr>OwnerID := x\<rparr>))
      else if name = ''FencingToken'' then bind_result (dec_uint 64 (FencingToken l) v) (\<lambda>x. Inr (l\<lparr>FencingToken := x\<rparr>))
      else if name = ''ExpiresAt'' then bind_result (dec_int 64 (ExpiresAt l) v) (\<lambda>x. Inr (l\<lparr>ExpiresAt := x\<rparr>))
      else bind_result (dec_uint 64 (GrantIndex l) v) (\<lambda>x. Inr (l\<lparr>GrantIndex := x\<rparr>)))"

definition dec_lock :: "json \<Rightarrow> lock result" where
  "dec_lock = dec_struct [''Key'', ''OwnerID'', ''FencingToken'', ''ExpiresAt'', ''GrantIndex''] set_lock_field zero_lock"

definition set_fenced_field :: "string \<Rightarrow> json \<Rightarrow> fenced_value \<Rightarrow> fenced_value result" where
  "set_fenced_field name v f =
     (if name = ''Value'' then bind_result (dec_bytes v) (\<lambda>x. Inr (f\<lparr>FValue := x\<rparr>))
      else bind_result (dec_uint 64 (FToken f) v) (\<lambda>x. Inr (f\<lparr>FToken := x\<rparr>)))"

definition dec_fenced :: "json \<Rightarrow> fenced_value result" where
  "dec_fenced = dec_struct [''Value'', ''FencingToken''] set_fenced_field \<lparr>FValue = [], FToken = 0\<rparr>"

definition set_job_field :: "string \<Rightarrow> json \<Rightarrow> job \<Rightarrow> job result" where
  "set_job_field name v j =
     (if name = ''ID'' then bind_result (dec_string (JobIDOf j) v) (\<lambda>x. Inr (j\<lparr>JobIDOf := x\<rparr>))
      else if name = ''Payload'' then bind_result (dec_bytes v) (\<lambda>x. Inr (j\<lparr>Payload := x\<rparr>))
      else if name = ''State'' then bind_result (dec_string (JState j) v) (\<lambda>x. Inr (j\<lparr>JState := x\<rparr>))
      else if name = ''ScheduledAt'' then bind_result (dec_int 64 (ScheduledAt j) v) (\<lambda>x. Inr (j\<lparr>ScheduledAt := x\<rparr>))
      else if name = ''AssignedWorkerID'' then bind_result (dec_string (AssignedWorkerID j) v) (\<lambda>x. Inr (j\<lparr>AssignedWorkerID := x\<rparr>))
      else if name = ''FencingToken'' then bind_result (dec_uint 64 (JobToken j) v) (\<lambda>x. Inr (j\<lparr>JobToken := x\<rparr>))
      else if name = ''Attempt'' then bind_result (dec_uint 32 (Attempt j) v) (\<lambda>x. Inr (j\<lparr>Attempt := x\<rparr>))
      else if name = ''ExecutionID'' then bind_result (dec_string (JobExecutionID j) v) (\<lambda>x. Inr (j\<lparr>JobExecutionID := x\<rparr>))
      else bind_result (dec_uint 64 (CreatedIndex j) v) (\<lambda>x. Inr (j\<lparr>CreatedIndex := x\<rparr>)))"

definition dec_job :: "json \<Rightarrow> job result" where
  "dec_job = dec_struct [''ID'', ''Payload'', ''State'', ''ScheduledAt'', ''AssignedWorkerID'', ''FencingToken'', ''Attempt'',
     ''ExecutionID'', ''CreatedIndex''] set_job_field zero_job"

definition set_snapshot_state_field :: "string \<Rightarrow> json \<Rightarrow> snapshot_state \<Rightarrow> snapshot_state result" where
  "set_snapshot_state_field name v s =
     (if name = ''version'' then bind_result (dec_uint 64 (ss_Version s) v) (\<lambda>x. Inr (s\<lparr>ss_Version := x\<rparr>))
      else if name = ''data'' then bind_result (dec_map dec_bytes (ss_Data s) v) (\<lambda>x. Inr (s\<lparr>ss_Data := x\<rparr>))
      else if name = ''locks'' then bind_result (dec_map dec_lock (ss_Locks s) v) (\<lambda>x. Inr (s\<lparr>ss_Locks := x\<rparr>))
      else if name = ''next_token'' then bind_result (dec_uint 64 (ss_NextToken s) v) (\<lambda>x. Inr (s\<lparr>ss_NextToken := x\<rparr>))
      else if name = ''fenced'' then bind_result (dec_map dec_fenced (ss_Fenced s) v) (\<lambda>x. Inr (s\<lparr>ss_Fenced := x\<rparr>))
      else bind_result (dec_map dec_job (ss_Jobs s) v) (\<lambda>x. Inr (s\<lparr>ss_Jobs := x\<rparr>)))"

definition dec_snapshot_state :: "json \<Rightarrow> snapshot_state result" where
  "dec_snapshot_state = dec_struct [''version'', ''data'', ''locks'', ''next_token'', ''fenced'', ''jobs'']
     set_snapshot_state_field
     \<lparr>ss_Version = 0, ss_Data = fmempty, ss_Locks = fmempty, ss_NextToken = 0, ss_Fenced = fmempty, ss_Jobs = fmempty\<rparr>"

definition store_Restore :: "bytes \<Rightarrow> store \<Rightarrow> go_error option \<times> store" where
  "store_Restore data s =
     (case json_parse data of
        Inl err \<Rightarrow> (Some (Wrapf ''unmarshal KV snapshot'' [err]), s)
      | Inr v \<Rightarrow>
        (case dec_map Inr fmempty v of
           Inl err \<Rightarrow> (Some (Wrapf ''unmarshal KV snapshot'' [err]), s)
         | Inr raw \<Rightarrow>
           (case fmlookup raw ''version'' of
              Some versionRaw \<Rightarrow>
                (case dec_uint 64 0 versionRaw of
                   Inl err \<Rightarrow> (Some (Wrapf ''decode KV snapshot version'' [err]), s)
                 | Inr version \<Rightarrow>
                     if version \<noteq> snapshotVersion then (Some (Message ''unsupported KV snapshot version''), s)
                     else case dec_snapshot_state v of
                       Inl err \<Rightarrow> (Some (Wrapf ''decode KV snapshot'' [err]), s)
                     | Inr snap \<Rightarrow>
                       (case validateSnapshotState snap of
                          Some err \<Rightarrow> (Some (Wrapf ''validate KV snapshot'' [err]), s)
                        | None \<Rightarrow>
                            (None, s\<lparr>st_data := ss_Data snap,
                                     st_locks := \<lparr>Locks = ss_Locks snap, NextToken = ss_NextToken snap\<rparr>,
                                     st_fenced := ss_Fenced snap, st_jobs := ss_Jobs snap\<rparr>)))
            | None \<Rightarrow>
                (case dec_map dec_bytes fmempty v of
                   Inl err \<Rightarrow> (Some (Wrapf ''decode legacy KV snapshot'' [err]), s)
                 | Inr legacyData \<Rightarrow>
                     (None, s\<lparr>st_data := legacyData, st_locks := NewState, st_fenced := fmempty, st_jobs := fmempty\<rparr>)))))"

section \<open>Decoding a snapshot\<close>

definition lock_fits :: "lock \<Rightarrow> bool" where
  "lock_fits l \<longleftrightarrow> utf8_ok (LockKey l) \<and> utf8_ok (OwnerID l) \<and> FencingToken l < 2 ^ 64 \<and> fits_int64 (ExpiresAt l) \<and>
     GrantIndex l < 2 ^ 64"

definition job_fits :: "job \<Rightarrow> bool" where
  "job_fits j \<longleftrightarrow> utf8_ok (JobIDOf j) \<and> utf8_ok (JState j) \<and> utf8_ok (AssignedWorkerID j) \<and> utf8_ok (JobExecutionID j) \<and>
     fits_int64 (ScheduledAt j) \<and> JobToken j < 2 ^ 64 \<and> Attempt j < 2 ^ 32 \<and> CreatedIndex j < 2 ^ 64"

definition store_fits :: "store \<Rightarrow> bool" where
  "store_fits s \<longleftrightarrow> fmpred (\<lambda>k _. utf8_ok k) (st_data s) \<and> fmpred (\<lambda>k l. utf8_ok k \<and> lock_fits l) (Locks (st_locks s)) \<and>
     NextToken (st_locks s) < 2 ^ 64 \<and> fmpred (\<lambda>k v. utf8_ok k \<and> FToken v < 2 ^ 64) (st_fenced s) \<and>
     fmpred (\<lambda>k j. utf8_ok k \<and> job_fits j) (st_jobs s)"

lemma dec_lock_json [json_dec]: "lock_fits l \<Longrightarrow> dec_lock (lock_json l) = Inr l"
  by (cases l) (simp add: dec_lock_def lock_json_def dec_struct_def set_lock_field_def json_dec lock_fits_def zero_lock_def)

lemma dec_fenced_json [json_dec]: "FToken v < 2 ^ 64 \<Longrightarrow> dec_fenced (fenced_json v) = Inr v"
  by (cases v) (simp add: dec_fenced_def fenced_json_def dec_struct_def set_fenced_field_def json_dec)

lemma dec_job_json [json_dec]: "job_fits j \<Longrightarrow> dec_job (job_json j) = Inr j"
  by (cases j) (simp add: dec_job_def job_json_def dec_struct_def set_job_field_def json_dec job_fits_def zero_job_def)

lemma json_ok_lock: "lock_fits l \<Longrightarrow> json_ok (lock_json l)"
  by (simp add: lock_json_def lock_fits_def ascii_utf8 number_ok_show_nat number_ok_show_int del: utf8_ok.simps)

lemma json_ok_fenced: "json_ok (fenced_json v)"
  by (simp add: fenced_json_def ascii_utf8 number_ok_show_nat del: utf8_ok.simps)

lemma json_ok_job: "job_fits j \<Longrightarrow> json_ok (job_json j)"
  by (simp add: job_json_def job_fits_def ascii_utf8 number_ok_show_nat number_ok_show_int del: utf8_ok.simps)

lemma store_Restore_Snapshot:
  assumes "store_fits s"
  shows "store_Restore (store_Snapshot s) s0 =
    (case validateSnapshotState \<lparr>ss_Version = snapshotVersion, ss_Data = st_data s, ss_Locks = Locks (st_locks s),
        ss_NextToken = NextToken (st_locks s), ss_Fenced = st_fenced s, ss_Jobs = st_jobs s\<rparr> of
       None \<Rightarrow> (None, s) | Some err \<Rightarrow> (Some (Wrapf ''validate KV snapshot'' [err]), s0))"
proof -
  let ?ss = "\<lparr>ss_Version = snapshotVersion, ss_Data = st_data s, ss_Locks = Locks (st_locks s),
        ss_NextToken = NextToken (st_locks s), ss_Fenced = st_fenced s, ss_Jobs = st_jobs s\<rparr>"
  have maps: "json_ok (json_map json_bytes (st_data s))" "json_ok (json_map lock_json (Locks (st_locks s)))"
    "json_ok (json_map fenced_json (st_fenced s))" "json_ok (json_map job_json (st_jobs s))"
    using assms by (auto simp: store_fits_def fmpred_iff json_ok_lock json_ok_fenced json_ok_job intro!: json_ok_map)
  have decs: "dec_map dec_bytes fmempty (json_map json_bytes (st_data s)) = Inr (st_data s)"
    "dec_map dec_lock fmempty (json_map lock_json (Locks (st_locks s))) = Inr (Locks (st_locks s))"
    "dec_map dec_fenced fmempty (json_map fenced_json (st_fenced s)) = Inr (st_fenced s)"
    "dec_map dec_job fmempty (json_map job_json (st_jobs s)) = Inr (st_jobs s)"
    using assms by (auto simp: store_fits_def fmpred_iff json_dec intro!: dec_map_map)
  have ok: "json_ok (snapshot_state_json ?ss)"
    using maps by (simp add: snapshot_state_json_def ascii_utf8 number_ok_show_nat del: utf8_ok.simps)
  have dec: "dec_snapshot_state (snapshot_state_json ?ss) = Inr ?ss"
    using decs assms by (simp add: dec_snapshot_state_def snapshot_state_json_def dec_struct_def set_snapshot_state_field_def
        json_dec snapshotVersion_def store_fits_def)
  obtain raw where raw: "dec_map Inr fmempty (snapshot_state_json ?ss) = Inr raw"
    "fmlookup raw ''version'' = Some (json_nat snapshotVersion)"
    by (simp add: dec_map_def snapshot_state_json_def)
  have "dec_uint 64 0 (json_nat snapshotVersion) = Inr snapshotVersion" by (rule dec_uint_nat) (simp add: snapshotVersion_def)
  moreover have "s0\<lparr>st_data := st_data s, st_locks := \<lparr>Locks = Locks (st_locks s), NextToken = NextToken (st_locks s)\<rparr>,
      st_fenced := st_fenced s, st_jobs := st_jobs s\<rparr> = s"
    by (cases s; cases "st_locks s"; cases s0) simp
  ultimately show ?thesis
    using raw dec by (simp add: store_Restore_def store_Snapshot_def json_parse_print [OF ok] split: option.split)
qed

end
