(* ===== verification/KV_Properties.thy ===== *)
theory KV_Properties
  imports KV_Safety
begin

text \<open>
  The properties of the replicated machine: what holds of the store after any sequence of committed
  commands.  The witnesses run the machine on the short histories defined here.
\<close>

section \<open>Short histories\<close>

definition cmd_create :: "command \<times> log_entry" where
  "cmd_create = (zero_command\<lparr>CType := CommandCreateJob, CJobID := ''j'', CScheduledAt := 5\<rparr>,
     \<lparr>Index = 1, Term = 1, Data = []\<rparr>)"

definition cmd_claim :: "command \<times> log_entry" where
  "cmd_claim = (zero_command\<lparr>CType := CommandClaimJob, CJobID := ''j'', COwnerID := ''w'',
     CExpiresAt := 100\<rparr>, \<lparr>Index = 2, Term = 1, Data = []\<rparr>)"

definition cmd_acquire :: "command \<times> log_entry" where
  "cmd_acquire = (zero_command\<lparr>CType := CommandLockAcquire, CKey := ''k'', COwnerID := ''w'',
     CExpiresAt := 100\<rparr>, \<lparr>Index = 3, Term = 1, Data = []\<rparr>)"

definition cmd_write :: "command \<times> log_entry" where
  "cmd_write = (zero_command\<lparr>CType := CommandFencedPut, CKey := ''k'', CValue := ''x'',
     CFencingToken := 1\<rparr>, \<lparr>Index = 4, Term = 1, Data = []\<rparr>)"

definition pending_job :: job where
  "pending_job = zero_job\<lparr>JobIDOf := ''j'', JState := JobPending, ScheduledAt := 5, CreatedIndex := 1\<rparr>"

definition job_lock :: lock where
  "job_lock = \<lparr>LockKey = ''j'', OwnerID = ''w'', FencingToken = 1, ExpiresAt = 100, GrantIndex = 2\<rparr>"

definition scheduled_job :: job where
  "scheduled_job = pending_job\<lparr>JState := JobScheduled, AssignedWorkerID := ''w'', JobToken := 1,
     Attempt := 1, JobExecutionID := ''j/1''\<rparr>"

definition store_created :: store where
  "store_created = NewStore\<lparr>st_jobs := fmupd ''j'' pending_job fmempty\<rparr>"

definition store_claimed :: store where
  "store_claimed = NewStore\<lparr>st_jobs := fmupd ''j'' scheduled_job fmempty,
     st_locks := \<lparr>Locks = fmupd ''j'' job_lock fmempty, NextToken = 1\<rparr>\<rparr>"

definition store_fenced :: store where
  "store_fenced = NewStore\<lparr>st_locks := \<lparr>Locks = fmupd ''k'' (job_lock\<lparr>LockKey := ''k'', GrantIndex := 3\<rparr>)
     fmempty, NextToken = 1\<rparr>, st_fenced := fmupd ''k'' \<lparr>FValue = ''x'', FToken = 1\<rparr> fmempty\<rparr>"

lemmas history_defs = cmd_create_def cmd_claim_def cmd_acquire_def cmd_write_def zero_command_def
  pending_job_def job_lock_def scheduled_job_def zero_job_def NewStore_def NewState_def
lemmas apply_defs = applyCommand_def applyKVCommand_def applyLockCommand_def applyFencedPut_def
  applyJobCreationCommand_def applyClaimJob_def applyJobTransitionCommand_def
  applyJobReclaimCommand_def job_apply_result_def jobTransitionStates_def Let_def

lemma show_nat_1: "show_nat (Suc 0) = ''1''"
  by code_simp

lemma history_created: "apply_all NewStore [cmd_create] = Some store_created"
  by (simp add: store_created_def history_defs apply_defs CreateJob_def)

lemma history_claimed: "apply_all store_created [cmd_claim] = Some store_claimed"
  by (simp add: store_claimed_def store_created_def history_defs apply_defs ClaimJob_def
      validateClaimArguments_def handleExistingClaim_def lock_Acquire_def inc64_def inc32_def
      executionID_def show_nat_1)

lemma history_fenced: "apply_all NewStore [cmd_acquire, cmd_write] = Some store_fenced"
  by (simp add: store_fenced_def history_defs apply_defs AcquireLock_def FencedPut_def lock_Get_def
      lock_Acquire_def inc64_def)

lemma store_claimed_wf: "store_wf store_claimed"
  by (auto simp: store_wf_def store_claimed_def history_defs lock_wf_def job_ok_def)

lemma store_fenced_wf: "store_wf store_fenced"
  by (auto simp: store_wf_def store_fenced_def history_defs lock_wf_def fenced_ok_def)

section \<open>A removed lock takes its token with it\<close>

lemma removed_token_stale:
  assumes wf: "store_wf s" and l: "fmlookup (Locks (st_locks s)) k = Some l"
  shows "lt.stale (lock_remove (st_locks s) k) (FencingToken l)"
  using lock_wf_bound [OF store_wf_locks [OF wf] l] lock_wf_token_unique [OF store_wf_locks [OF wf] l]
  by (auto simp: lt.stale_def lock_remove_def lock_Get_def split: if_splits)

lemma removed_token_stale_run:
  assumes wf: "store_wf s" and l: "fmlookup (Locks (st_locks s)) k = Some l"
    and s1: "st_locks s1 = lock_remove (st_locks s) k" and run: "apply_all s1 ces = Some s2"
    and room: "NextToken (st_locks s) + length ces < 2 ^ 64"
  shows "lt.stale (st_locks s2) (FencingToken l)"
proof (rule apply_all_locks(3) [OF run])
  show "lock_wf (st_locks s1)"
    using lock_wf_remove [OF store_wf_locks [OF wf]] by (simp add: s1 lock_remove_def)
  show "NextToken (st_locks s1) + length ces < 2 ^ 64" using room by (simp add: s1 lock_remove_def)
  show "lt.stale (st_locks s1) (FencingToken l)" using removed_token_stale [OF wf l] by (simp add: s1)
qed

lemma ExpireLock_removes:
  assumes "store_wf s" "fmlookup (Locks (st_locks s)) k = Some l"
  shows "st_locks (snd (ExpireLock s k (FencingToken l))) = lock_remove (st_locks s) k"
  using assms(2) lock_wf_bound [OF store_wf_locks [OF assms(1)] assms(2)] store_wf_owner [OF assms]
  by (auto simp: ExpireLock_def lock_Expire_def lock_remove_def)

section \<open>The machine as a whole\<close>

text \<open>
  C2. On a well-formed store with room in the token counter, every sequence of committed commands
  applies without a panic and leaves a well-formed store: locks and jobs sit under their own
  non-empty keys, tokens are issued, positive and unique, a pending job carries no ownership, any
  other job a worker and an issued token, and a fenced value a token that is not above the token of
  the lock that now guards its key.
\<close>

theorem store_invariant:
  assumes "store_wf s" and "NextToken (st_locks s) + length ces < 2 ^ 64"
  shows "\<exists>s'. apply_all s ces = Some s' \<and> store_wf s'"
proof -
  obtain s' where run: "apply_all s ces = Some s'" using apply_all_total by blast
  from apply_all_induct [OF run assms, of "\<lambda>_. True"] run show ?thesis by blast
qed

theorem store_invariant_witness:
  "\<exists>s'. apply_all NewStore [cmd_create, cmd_claim, cmd_acquire, cmd_write] = Some s' \<and> store_wf s'"
  by (rule store_invariant) (simp_all add: store_wf_NewStore, simp add: NewStore_def NewState_def)

text \<open>
  C24. Fencing: once the lock on a key has been expired, its token is dead.  Whatever commands follow,
  no lock on any key ever carries that token again, and a fenced write with it is refused on every
  key and leaves the store as it is.
\<close>

theorem expired_token_dead:
  assumes wf: "store_wf s" and lock: "GetLock s k = Some l"
    and run: "apply_all (snd (ExpireLock s k (FencingToken l))) ces = Some s'"
    and room: "NextToken (st_locks s) + length ces < 2 ^ 64"
  shows "(\<forall>k' l'. GetLock s' k' = Some l' \<longrightarrow> FencingToken l' \<noteq> FencingToken l) \<and>
    (\<forall>k' v. \<exists>err. FencedPut s' k' v (FencingToken l) = (Some err, s'))"
proof -
  from lock have l: "fmlookup (Locks (st_locks s)) k = Some l" by (simp add: GetLock_def lock_Get_def)
  from removed_token_stale_run [OF wf l ExpireLock_removes [OF wf l] run room]
  have "lt.stale (st_locks s') (FencingToken l)" .
  then have gone: "FencingToken l' \<noteq> FencingToken l" if "fmlookup (Locks (st_locks s')) k' = Some l'"
    for k' l' using that by (auto simp: lt.stale_def lock_Get_def)
  then show ?thesis by (fastforce simp: GetLock_def lock_Get_def FencedPut_def split: option.split)
qed

theorem expired_token_dead_witness:
  "GetLock store_fenced ''k'' = Some (job_lock\<lparr>LockKey := ''k'', GrantIndex := 3\<rparr>) \<and>
   (\<exists>s'. apply_all (snd (ExpireLock store_fenced ''k'' 1)) [cmd_acquire] = Some s' \<and>
     (\<exists>err. FencedPut s' ''k'' ''y'' 1 = (Some err, s')))"
proof -
  have lock: "GetLock store_fenced ''k'' = Some (job_lock\<lparr>LockKey := ''k'', GrantIndex := 3\<rparr>)"
    by (simp add: GetLock_def lock_Get_def store_fenced_def)
  obtain s' where run: "apply_all (snd (ExpireLock store_fenced ''k'' 1)) [cmd_acquire] = Some s'"
    using apply_all_total by blast
  from expired_token_dead [OF store_fenced_wf lock, of "[cmd_acquire]" s'] run lock show ?thesis
    by (simp add: job_lock_def store_fenced_def)
qed

text \<open>
  C25. Along any sequence of committed commands the token stored with a fenced value never goes back,
  and the value is never lost: writes of successive lock holders land in the order of their grants.
\<close>

theorem fenced_tokens_monotone:
  assumes "store_wf s" "NextToken (st_locks s) + length ces < 2 ^ 64" "apply_all s ces = Some s'"
    and "GetFenced s k = Some v"
  shows "\<exists>v'. GetFenced s' k = Some v' \<and> FToken v \<le> FToken v'"
proof -
  let ?P = "\<lambda>s. \<exists>v'. fmlookup (st_fenced s) k = Some v' \<and> FToken v \<le> FToken v'"
  have "?P s" using assms(4) by (simp add: GetFenced_def)
  moreover have "?P s2" if "store_wf s1" "applyCommand s1 c e = Some (r, s2)" "?P s1"
    for s1 c e r s2 using that applyCommand_fenced_mono order_trans by meson
  ultimately have "?P s'" using apply_all_induct [OF assms(3,1,2), of ?P] by blast
  then show ?thesis by (simp add: GetFenced_def)
qed

theorem fenced_tokens_monotone_witness:
  "GetFenced store_fenced ''k'' = Some \<lparr>FValue = ''x'', FToken = 1\<rparr> \<and>
   (\<exists>s' v'. apply_all store_fenced [cmd_write] = Some s' \<and> GetFenced s' ''k'' = Some v' \<and> 1 \<le> FToken v')"
proof -
  have v: "GetFenced store_fenced ''k'' = Some \<lparr>FValue = ''x'', FToken = 1\<rparr>"
    by (simp add: GetFenced_def store_fenced_def)
  obtain s' where run: "apply_all store_fenced [cmd_write] = Some s'" using apply_all_total by blast
  have "\<exists>v'. GetFenced s' ''k'' = Some v' \<and> FToken \<lparr>FValue = ''x'', FToken = 1\<rparr> \<le> FToken v'"
    by (rule fenced_tokens_monotone [OF store_fenced_wf _ run v]) (simp add: store_fenced_def)
  with run v show ?thesis by auto
qed

section \<open>Jobs\<close>

lemma job_step_terminal: "job_step j j' \<Longrightarrow> JState j \<notin> {JobSucceeded, JobFailed}"
  by (auto elim: job_stepE)

lemma job_steps_terminal: "job_step\<^sup>*\<^sup>* j j' \<Longrightarrow> JState j \<in> {JobSucceeded, JobFailed} \<Longrightarrow> j' = j"
  by (induction rule: rtranclp_induct) (use job_step_terminal in blast)+

lemma job_steps_identity:
  "job_step\<^sup>*\<^sup>* j j' \<Longrightarrow> JobIDOf j' = JobIDOf j \<and> Payload j' = Payload j \<and>
     ScheduledAt j' = ScheduledAt j \<and> CreatedIndex j' = CreatedIndex j"
  by (induction rule: rtranclp_induct) (auto elim: job_stepE)

lemma apply_all_job_steps:
  assumes "apply_all s ces = Some s'" "fmlookup (st_jobs s) i = Some j"
  shows "\<exists>j'. fmlookup (st_jobs s') i = Some j' \<and> job_step\<^sup>*\<^sup>* j j'"
  using assms
proof (induction ces arbitrary: s j)
  case Nil
  then show ?case by auto
next
  case (Cons ce ces)
  obtain c e where ce: "ce = (c, e)" by (cases ce)
  from Cons.prems(1) obtain r s1 where one: "applyCommand s c e = Some (r, s1)"
    and rest: "apply_all s1 ces = Some s'"
    by (auto simp: ce split: option.splits)
  from applyCommand_job_moves [OF one] Cons.prems(2) obtain j1
    where "fmlookup (st_jobs s1) i = Some j1" "j1 = j \<or> job_step j j1"
    unfolding job_moves_def by blast
  with Cons.IH [OF rest] show ?case by (meson converse_rtranclp_into_rtranclp)
qed

text \<open>
  C26. Whatever commands are committed, a job is never lost; it only moves along claim, start, succeed,
  fail and reclaim; its identity, payload, schedule and creation index stay what they were; and a
  job that has succeeded or failed never changes again.
\<close>

theorem job_life_cycle:
  assumes "apply_all s ces = Some s'" "GetJob s i = Some j"
  shows "\<exists>j'. GetJob s' i = Some j' \<and> job_step\<^sup>*\<^sup>* j j' \<and>
    JobIDOf j' = JobIDOf j \<and> Payload j' = Payload j \<and> ScheduledAt j' = ScheduledAt j \<and>
    CreatedIndex j' = CreatedIndex j \<and> (JState j \<in> {JobSucceeded, JobFailed} \<longrightarrow> j' = j)"
proof -
  from apply_all_job_steps [OF assms(1)] assms(2) obtain j'
    where j': "fmlookup (st_jobs s') i = Some j'" "job_step\<^sup>*\<^sup>* j j'"
    by (auto simp: GetJob_def)
  with job_steps_identity [OF j'(2)] job_steps_terminal [OF j'(2)]
  show ?thesis unfolding GetJob_def by blast
qed

theorem job_life_cycle_witness:
  "apply_all store_created [cmd_claim] = Some store_claimed \<and> GetJob store_created ''j'' = Some pending_job \<and>
   (\<exists>j'. GetJob store_claimed ''j'' = Some j' \<and> job_step\<^sup>*\<^sup>* pending_job j')"
  using job_life_cycle [OF history_claimed, of "''j''" pending_job] history_claimed
  by (simp add: GetJob_def store_created_def store_claimed_def)

text \<open>
  C27. A worker whose job has been reclaimed is fenced off for good: after any further commands, every
  transition it reports with its old token is refused and changes nothing, and its ownership no
  longer validates.
\<close>

theorem reclaimed_worker_fenced:
  assumes wf: "store_wf s" and rec: "ReclaimExpiredJob s i t a = (Inr j, s1)"
    and run: "apply_all s1 ces = Some s2" and room: "NextToken (st_locks s) + length ces < 2 ^ 64"
  shows "(\<exists>err. TransitionJobState s2 i w x t f n at = (Inl err, s2)) \<and>
    \<not> ValidateJobOwnership s2 i w t now"
proof -
  from rec obtain l where l: "fmlookup (Locks (st_locks s)) i = Some l" "FencingToken l = t"
    and s1: "st_locks s1 = lock_remove (st_locks s) i"
    by (auto simp: ReclaimExpiredJob_def lock_Get_def Let_def split: option.splits if_splits)
  from removed_token_stale_run [OF wf l(1) s1 run room] l(2) have "lt.stale (st_locks s2) t" by simp
  then have gone: "FencingToken l' \<noteq> t" if "lock_Get (st_locks s2) i = Some l'" for l'
    using that by (auto simp: lt.stale_def)
  have "\<forall>job. validateTransitionOwnership s2 job i w x t at f \<noteq> None"
    using gone by (auto simp: validateTransitionOwnership_def split: option.splits)
  then have "\<exists>err. TransitionJobState s2 i w x t f n at = (Inl err, s2)"
    unfolding TransitionJobState_def by (auto split: option.split dest: spec) (metis option.distinct(1))
  moreover have "\<not> ValidateJobOwnership s2 i w t now"
    using gone by (auto simp: ValidateJobOwnership_def split: option.splits)
  ultimately show ?thesis ..
qed

theorem reclaimed_worker_fenced_witness:
  "\<exists>j s1. ReclaimExpiredJob store_claimed ''j'' 1 200 = (Inr j, s1) \<and>
     (\<exists>s2 err. apply_all s1 [cmd_claim] = Some s2 \<and>
        TransitionJobState s2 ''j'' ''w'' ''j/1'' 1 JobScheduled JobRunning 201 = (Inl err, s2))"
proof -
  obtain j s1 where rec: "ReclaimExpiredJob store_claimed ''j'' 1 200 = (Inr j, s1)"
    by (simp add: ReclaimExpiredJob_def lock_Get_def store_claimed_def history_defs Let_def)
  obtain s2 where run: "apply_all s1 [cmd_claim] = Some s2" using apply_all_total by blast
  have "NextToken (st_locks store_claimed) + length [cmd_claim] < 2 ^ 64"
    by (simp add: store_claimed_def)
  from reclaimed_worker_fenced [OF store_claimed_wf rec run this] rec run show ?thesis by blast
qed

text \<open>
  C28. A committed \<^verbatim>\<open>LOCK_EXPIRE\<close> of the lock that guards a scheduled or running job orphans the job:
  whatever commands follow, the job stays exactly as it is, so it is never started, finished,
  reclaimed or claimed again.  The server's expiry loop proposes such a command for every expired
  lock, job locks included.
\<close>

theorem orphaned_job_stuck:
  assumes wf: "store_wf s" and job: "GetJob s i = Some j" "JState j \<in> {JobScheduled, JobRunning}"
    and lock: "GetLock s i = Some l" "FencingToken l = JobToken j"
    and run: "apply_all (snd (ExpireLock s i (JobToken j))) ces = Some s'"
    and room: "NextToken (st_locks s) + length ces < 2 ^ 64"
  shows "GetJob s' i = Some j"
proof -
  let ?s = "snd (ExpireLock s i (JobToken j))"
  from lock have l: "fmlookup (Locks (st_locks s)) i = Some l" by (simp add: GetLock_def lock_Get_def)
  note locks = ExpireLock_removes [OF wf l, unfolded lock(2)]
  have "lt.stale (st_locks ?s) (JobToken j)"
    using removed_token_stale [OF wf l] lock(2) by (simp add: locks)
  with job have orph: "orphaned ?s i j" by (simp add: orphaned_def GetJob_def)
  have room': "NextToken (st_locks ?s) + length ces < 2 ^ 64"
    using room by (simp add: locks lock_remove_def)
  have "orphaned s' i j"
    using apply_all_induct [OF run ExpireLock_wf [OF wf] room', of "\<lambda>s. orphaned s i j"]
      orph orphaned_step by blast
  then show ?thesis by (simp add: orphaned_def GetJob_def)
qed

theorem orphaned_job_stuck_witness:
  "GetJob store_claimed ''j'' = Some scheduled_job \<and>
   (\<exists>s'. apply_all (snd (ExpireLock store_claimed ''j'' 1)) [cmd_claim] = Some s' \<and>
      GetJob s' ''j'' = Some scheduled_job)"
proof -
  have job: "GetJob store_claimed ''j'' = Some scheduled_job"
    by (simp add: GetJob_def store_claimed_def)
  obtain s' where run: "apply_all (snd (ExpireLock store_claimed ''j'' (JobToken scheduled_job)))
      [cmd_claim] = Some s'" using apply_all_total by blast
  have "GetJob s' ''j'' = Some scheduled_job"
    by (rule orphaned_job_stuck [OF store_claimed_wf job _ _ _ run])
      (simp_all add: GetLock_def lock_Get_def store_claimed_def scheduled_job_def,
       simp_all add: job_lock_def)
  with job run show ?thesis by (simp add: scheduled_job_def)
qed

section \<open>Listings\<close>

lemma listed_jobs_distinct:
  assumes "store_wf s"
  shows "distinct (map JobIDOf (map snd (map_range (st_jobs s))))"
proof -
  have "map (JobIDOf \<circ> snd) (map_range (st_jobs s)) = map fst (map_range (st_jobs s))"
    using assms by (auto simp: set_map_range store_wf_def job_ok_def)
  then show ?thesis using distinct_keys_map_range [of "st_jobs s"] by (simp only: map_map)
qed

lemma set_jobs: "set (map snd (map_range (st_jobs s))) = {j. \<exists>i. GetJob s i = Some j}"
  by (auto simp: set_map_range GetJob_def image_iff)

lemma sort_key_filter_spec:
  assumes "distinct (map f xs)"
  shows "set (sort_key k (filter P xs)) = {x \<in> set xs. P x} \<and> distinct (map f (sort_key k (filter P xs))) \<and>
    sorted (map k (sort_key k (filter P xs)))"
  using distinct_map_filter [OF assms, of P]
  by (simp add: distinct_map)



text \<open>
  C37. The expired-job listing and the reclaim command agree: at a positive time, a job is listed as
  expired exactly when the reclaim command the scheduler then proposes for it (its identifier, its
  token, the same time) is accepted.
\<close>

theorem ListExpiredJobs_reclaimable:
  assumes wf: "store_wf s" and job: "GetJob s i = Some j" and now: "0 < now"
  shows "j \<in> set (ListExpiredJobs s now) \<longleftrightarrow>
    is_ok (fst (ReclaimExpiredJob s (JobIDOf j) (JobToken j) now))"
proof -
  from job have j: "fmlookup (st_jobs s) i = Some j" by (simp add: GetJob_def)
  note ok = store_wf_job [OF wf j]
  have "j \<in> set (ListExpiredJobs s now) \<longleftrightarrow> lease_expired s now j"
    using sort_key_filter_spec [OF listed_jobs_distinct [OF wf], of job_order "lease_expired s now"] job now
    unfolding ListExpiredJobs_def set_jobs by auto
  also have "\<dots> \<longleftrightarrow> is_ok (fst (ReclaimExpiredJob s (JobIDOf j) (JobToken j) now))"
    using ok j now
    by (auto simp: lease_expired_def ReclaimExpiredJob_def job_ok_def Let_def split: option.splits if_splits)
  finally show ?thesis .
qed

theorem ListExpiredJobs_reclaimable_witness:
  "scheduled_job \<in> set (ListExpiredJobs store_claimed 200) \<and>
   is_ok (fst (ReclaimExpiredJob store_claimed ''j'' 1 200))"
proof -
  have job: "GetJob store_claimed ''j'' = Some scheduled_job" by (simp add: GetJob_def store_claimed_def)
  have "is_ok (fst (ReclaimExpiredJob store_claimed ''j'' 1 200))"
    by (simp add: ReclaimExpiredJob_def lock_Get_def store_claimed_def history_defs Let_def)
  with ListExpiredJobs_reclaimable [OF store_claimed_wf job, of 200] show ?thesis
    by (simp add: scheduled_job_def pending_job_def zero_job_def)
qed

section \<open>Execution identifiers\<close>

lemma digit_slash: "d < 10 \<Longrightarrow> CHR ''/'' \<noteq> digit d"
proof
  assume "d < 10" "CHR ''/'' = digit d"
  then have "of_char (digit d) = (of_char CHR ''/'' :: nat)" by simp
  with \<open>d < 10\<close> show False by (simp add: digit_def)
qed

lemma show_nat_slash: "CHR ''/'' \<notin> set (show_nat n)"
proof (induction n rule: show_nat.induct)
  case (1 n)
  then show ?case by (subst show_nat.simps) (simp add: digit_slash)
qed

lemma takeWhile_last_slash:
  "CHR ''/'' \<notin> set x \<Longrightarrow> takeWhile (\<lambda>c. c \<noteq> CHR ''/'') (rev (a @ CHR ''/'' # x)) = rev x"
  by (subst rev_append, simp, subst takeWhile_append2) auto

lemma split_last_slash:
  assumes "a @ CHR ''/'' # x = b @ CHR ''/'' # y" "CHR ''/'' \<notin> set x" "CHR ''/'' \<notin> set y"
  shows "a = b \<and> x = y"
  using takeWhile_last_slash [OF assms(2), of a] takeWhile_last_slash [OF assms(3), of b] assms(1) by simp

text \<open>
  Execution identifiers name one attempt of one job: two of them are equal only when both the job
  and the attempt number are, even when job identifiers contain the separator.
\<close>

theorem executionID_injective: "executionID i a = executionID i' a' \<longleftrightarrow> i = i' \<and> a = a'"
  using split_last_slash [OF _ show_nat_slash show_nat_slash, of i a i' a'] show_nat_inj
  by (auto simp: executionID_def)

end
