(* ===== verification/KV_Restore.thy ===== *)
theory KV_Restore
  imports KV_Snapshot KV_Properties
begin

text \<open>
  Which stores survive a snapshot: the invariants of every command sequence that the restored store
  is checked against, and the properties of the command and snapshot codecs.
\<close>

section \<open>Active jobs and their locks\<close>

definition owned :: "store \<Rightarrow> job_id \<Rightarrow> job \<Rightarrow> bool" where
  "owned s i j \<longleftrightarrow> (\<exists>l. fmlookup (Locks (st_locks s)) i = Some l \<and> OwnerID l = AssignedWorkerID j \<and> FencingToken l = JobToken j)"

definition active :: "job \<Rightarrow> bool" where
  "active j \<longleftrightarrow> JState j \<in> {JobScheduled, JobRunning}"

text \<open>A scheduled or running job holds its lock, or its token is dead.\<close>

definition jobs_owned :: "store \<Rightarrow> bool" where
  "jobs_owned s \<longleftrightarrow> (\<forall>i j. fmlookup (st_jobs s) i = Some j \<and> active j \<longrightarrow> owned s i j \<or> lt.stale (st_locks s) (JobToken j))"

lemma owned_step:
  assumes "applyCommand s c e = Some (r, s')" "store_wf s" "Suc (NextToken (st_locks s)) < 2 ^ 64" "owned s i j"
  shows "owned s' i j \<or> lt.stale (st_locks s') (JobToken j)"
proof -
  from applyCommand_moves [OF assms(1)] obtain ops where
    ops: "length ops \<le> 1" "st_locks s' = foldl lt.step (st_locks s) ops"
    by (auto simp: lock_moves_def)
  from assms(4) obtain l where l: "lock_Get (st_locks s) i = Some l" "OwnerID l = AssignedWorkerID j" "FencingToken l = JobToken j"
    by (auto simp: owned_def lock_Get_def)
  show ?thesis
  proof (cases ops)
    case Nil
    with ops assms(4) show ?thesis by (simp add: owned_def)
  next
    case (Cons op ops')
    with ops have "st_locks s' = lt.step (st_locks s) op" by simp
    with lt.step_kept_or_stale [OF store_wf_locks [OF assms(2)] assms(3) l(1), of op] l show ?thesis
      by (auto simp: owned_def lock_Get_def)
  qed
qed

text \<open>Where an active job of the new store comes from.\<close>

lemma active_origin:
  assumes "applyCommand s c e = Some (r, s')" "Suc (NextToken (st_locks s)) < 2 ^ 64"
    "fmlookup (st_jobs s') i = Some j'" "active j'"
  obtains (Kept) j where "fmlookup (st_jobs s) i = Some j" "active j" "JobToken j = JobToken j'"
      "AssignedWorkerID j = AssignedWorkerID j'"
  | (Claimed) "owned s' i j'"
  using assms(1)
proof (cases rule: applyCommand_cases)
  case Create
  with assms(3,4) Kept show ?thesis
    by (auto simp: CreateJob_def active_def split: option.splits if_splits)
next
  case Claim
  from assms(2) show ?thesis
  proof (cases rule: ClaimJob_outcome [of s "CJobID c" "COwnerID c" "CExpiresAt c" "Index e"])
    case Refused
    with Claim assms(3,4) Kept show ?thesis by auto
  next
    case (Adopted j l)
    with Claim assms(3,4) Kept Claimed show ?thesis by (cases "i = CJobID c") (auto simp: owned_def)
  next
    case (Granted j l ls)
    with Claim assms(3,4) Kept Claimed show ?thesis by (cases "i = CJobID c") (auto simp: owned_def)
  qed
next
  case (Transition f t)
  show ?thesis
  proof (cases "fmlookup (st_jobs s) i = Some j'")
    case True
    with assms(4) Kept show ?thesis by blast
  next
    case False
    with Transition assms(3,4) obtain j where "fmlookup (st_jobs s) i = Some j" "j' = j\<lparr>JState := t\<rparr>" "JState j = f"
      by (auto simp: TransitionJobState_def validateTransitionOwnership_def Let_def split: option.splits if_splits)
    with Transition(1) Kept show ?thesis
      by (auto simp: active_def jobTransitionStates_def split: if_splits)
  qed
next
  case Reclaim
  show ?thesis
  proof (cases "fmlookup (st_jobs s) i = Some j'")
    case True
    with assms(4) Kept show ?thesis by blast
  next
    case False
    with Reclaim assms(3,4) show ?thesis
      by (auto simp: ReclaimExpiredJob_def Let_def active_def split: option.splits if_splits)
  qed
qed (use assms(3,4) Kept in \<open>auto simp: store_Put_def store_Delete_def AcquireLock_def ExpireLock_def FencedPut_def
      split: option.splits prod.splits if_splits\<close>)

lemma jobs_owned_step:
  assumes "store_wf s" "Suc (NextToken (st_locks s)) < 2 ^ 64" "applyCommand s c e = Some (r, s')" "jobs_owned s"
  shows "jobs_owned s'"
  unfolding jobs_owned_def
proof (intro allI impI, elim conjE)
  fix i j'
  assume "fmlookup (st_jobs s') i = Some j'" "active j'"
  with assms(3,2) show "owned s' i j' \<or> lt.stale (st_locks s') (JobToken j')"
  proof (cases rule: active_origin)
    case (Kept j)
    from Kept(1,2) assms(4) consider "owned s i j" | "lt.stale (st_locks s) (JobToken j)" unfolding jobs_owned_def by blast
    then show ?thesis
    proof cases
      case 1
      with owned_step [OF assms(3,1,2) 1] Kept show ?thesis by (auto simp: owned_def)
    next
      case 2
      with applyCommand_tokens(3) [OF assms(3) store_wf_locks [OF assms(1)] assms(2)] Kept show ?thesis by simp
    qed
  qed blast
qed

lemma jobs_owned_NewStore: "jobs_owned NewStore"
  by (simp add: jobs_owned_def NewStore_def)

text \<open>The checks of a restored store fail exactly on the jobs whose lock has gone.\<close>

lemma validateSnapshotState_reached:
  assumes "store_wf s" "jobs_owned s"
  shows "validateSnapshotState \<lparr>ss_Version = v, ss_Data = d, ss_Locks = Locks (st_locks s),
      ss_NextToken = NextToken (st_locks s), ss_Fenced = f, ss_Jobs = st_jobs s\<rparr> = None \<longleftrightarrow> \<not> (\<exists>i j. orphaned s i j)"
    (is "validateSnapshotState ?ss = None \<longleftrightarrow> _")
proof -
  have locks: "validate_snapshot_lock (NextToken (st_locks s)) (k, l) = None" if "fmlookup (Locks (st_locks s)) k = Some l" for k l
    using store_wf_owner [OF assms(1) that] lock_wf_bound [OF store_wf_locks [OF assms(1)] that]
      lock_wf_key [OF store_wf_locks [OF assms(1)] that]
    by (auto simp: validate_snapshot_lock_def)
  have jobs: "validate_snapshot_job (Locks (st_locks s)) (i, j) = None \<longleftrightarrow> \<not> orphaned s i j" if "fmlookup (st_jobs s) i = Some j" for i j
  proof (cases "active j")
    case True
    with that assms(2) consider "owned s i j" | "lt.stale (st_locks s) (JobToken j)" unfolding jobs_owned_def by blast
    then show ?thesis
    proof cases
      case 1
      then have "\<not> orphaned s i j" by (auto simp: owned_def orphaned_def lt.stale_def lock_Get_def)
      with 1 True store_wf_job [OF assms(1) that] show ?thesis
        by (auto simp: validate_snapshot_job_def validateActiveJobOwnership_def owned_def active_def job_ok_def)
    next
      case 2
      then have "fmlookup (Locks (st_locks s)) i = Some l \<Longrightarrow> FencingToken l \<noteq> JobToken j" for l
        by (auto simp: lt.stale_def lock_Get_def)
      with 2 True that store_wf_job [OF assms(1) that] show ?thesis
        by (auto simp: validate_snapshot_job_def validateActiveJobOwnership_def active_def job_ok_def orphaned_def split: option.splits)
    qed
  next
    case False
    with store_wf_job [OF assms(1) that] show ?thesis
      by (auto simp: validate_snapshot_job_def active_def job_ok_def orphaned_def split: if_splits)
  qed
  have "first_error (validate_snapshot_lock (NextToken (st_locks s))) (map_range (Locks (st_locks s))) = None"
    using locks by (auto simp: first_error_None set_map_range)
  then have "validateSnapshotState ?ss = None \<longleftrightarrow>
      (\<forall>i j. fmlookup (st_jobs s) i = Some j \<longrightarrow> validate_snapshot_job (Locks (st_locks s)) (i, j) = None)"
    by (simp add: validateSnapshotState_def) (simp add: first_error_None set_map_range)
  also have "\<dots> \<longleftrightarrow> \<not> (\<exists>i j. orphaned s i j)" using jobs by (auto simp: orphaned_def)
  finally show ?thesis .
qed

section \<open>Numbers and strings stay in range\<close>

lemma utf8_take_extend: "0 < utf8_take xs \<Longrightarrow> utf8_take (xs @ ys) = utf8_take xs"
  by (cases xs; cases "tl xs"; cases "tl (tl xs)"; cases "tl (tl (tl xs))") (simp_all add: utf8_take_def split: if_splits)

lemma utf8_take_length: "utf8_take xs \<le> length xs"
  by (cases xs; cases "tl xs"; cases "tl (tl xs)"; cases "tl (tl (tl xs))") (simp_all add: utf8_take_def)

lemma utf8_ok_append: "utf8_ok xs \<Longrightarrow> utf8_ok ys \<Longrightarrow> utf8_ok (xs @ ys)"
proof (induction xs rule: utf8_ok.induct)
  case (2 b rest)
  then have "0 < utf8_take (b # rest)" by simp
  with 2 utf8_take_extend [of "b # rest" ys] utf8_take_length [of "b # rest"] show ?case by simp
qed simp

lemma show_nat_ascii: "list_all (\<lambda>c. byte c < 128) (show_nat n)"
  using show_nat_digits [of n] by (auto simp: list_all_iff is_digit_def)

lemma utf8_executionID: "utf8_ok i \<Longrightarrow> utf8_ok (executionID i n)"
  unfolding executionID_def by (intro utf8_ok_append) (simp_all add: ascii_utf8 show_nat_ascii del: utf8_ok.simps)

lemma inc32_bound: "inc32 n < 2 ^ 32"
  by (simp add: inc32_def)

lemma store_fits_NewStore: "store_fits NewStore"
  by (simp add: store_fits_def NewStore_def NewState_def)

lemma store_fits_locks:
  assumes "store_fits s" "utf8_ok k" "utf8_ok w" "fits_int64 x" "g < 2 ^ 64"
  shows "store_fits (s\<lparr>st_locks := snd (snd (lock_Acquire (st_locks s) k w x g))\<rparr>)"
  using assms inc64_bound by (auto simp: store_fits_def lock_Acquire_def Let_def lock_fits_def split: option.split)

lemma store_fits_remove:
  "store_fits s \<Longrightarrow> store_fits (s\<lparr>st_locks := lock_remove (st_locks s) k\<rparr>)"
  by (auto simp: store_fits_def lock_remove_def fmpred_iff)

lemma store_fits_job:
  "store_fits s \<Longrightarrow> utf8_ok i \<Longrightarrow> job_fits j \<Longrightarrow> store_fits (s\<lparr>st_jobs := fmupd i j (st_jobs s)\<rparr>)"
  by (auto simp: store_fits_def)

lemma store_fits_lookup:
  "store_fits s \<Longrightarrow> fmlookup (st_jobs s) i = Some j \<Longrightarrow> utf8_ok i \<and> job_fits j"
  "store_fits s \<Longrightarrow> fmlookup (Locks (st_locks s)) i = Some l \<Longrightarrow> utf8_ok i \<and> lock_fits l"
  by (auto simp: store_fits_def)

lemma ClaimJob_fits:
  assumes "store_fits s" "Suc (NextToken (st_locks s)) < 2 ^ 64" "utf8_ok w" "fits_int64 x" "g < 2 ^ 64"
  shows "store_fits (snd (ClaimJob s i w x g))"
  using assms(2)
proof (cases rule: ClaimJob_outcome [of s i w x g])
  case (Adopted j l)
  with store_fits_lookup(1) [OF assms(1) Adopted(1)] store_fits_lookup(2) [OF assms(1) Adopted(3)] assms show ?thesis
    by (auto simp: job_fits_def lock_fits_def ascii_utf8 simp del: utf8_ok.simps intro!: store_fits_job)
next
  case (Granted j l ls)
  let ?s = "s\<lparr>st_locks := ls\<rparr>"
  note j = store_fits_lookup(1) [OF assms(1) Granted(1)]
  from store_fits_locks [OF assms(1) _ assms(3-5)] j have s: "store_fits ?s" by (simp add: Granted(6))
  from store_fits_lookup(2) [OF this] Granted(7) have l: "lock_fits l" by simp
  have "job_fits (j\<lparr>JState := JobScheduled, AssignedWorkerID := w, JobToken := FencingToken l, Attempt := inc32 (Attempt j),
      JobExecutionID := executionID (JobIDOf j) (inc32 (Attempt j))\<rparr>)"
    using j l assms(3) inc32_bound utf8_executionID
    by (auto simp: job_fits_def lock_fits_def ascii_utf8 simp del: utf8_ok.simps)
  from store_fits_job [OF s _ this] j Granted(9) show ?thesis by simp
qed (use assms in simp)

lemma applyCommand_fits:
  assumes "applyCommand s c e = Some (r, s')" "store_fits s" "Suc (NextToken (st_locks s)) < 2 ^ 64" "command_fits c" "Index e < 2 ^ 64"
  shows "store_fits s'"
  using assms(1)
proof (cases rule: applyCommand_cases)
  case Acquire
  with assms(2,4,5) store_fits_locks [OF assms(2), of "CKey c" "COwnerID c" "CExpiresAt c" "Index e"] show ?thesis
    by (auto simp: AcquireLock_def command_fits_def split: prod.splits)
next
  case Expire
  with assms(2) store_fits_remove [OF assms(2), of "CKey c"] show ?thesis
    by (auto simp: ExpireLock_def lock_Expire_def lock_remove_def split: option.splits)
next
  case Fenced
  with assms(2,4) show ?thesis
    by (auto simp: FencedPut_def store_fits_def command_fits_def split: option.splits)
next
  case Create
  with assms(2,4,5) show ?thesis
    by (auto simp: CreateJob_def command_fits_def job_fits_def zero_job_def ascii_utf8 simp del: utf8_ok.simps
        split: option.splits intro!: store_fits_job)
next
  case Claim
  with ClaimJob_fits [OF assms(2,3)] assms(4,5) show ?thesis by (simp add: command_fits_def)
next
  case (Transition f t)
  have "utf8_ok t" using Transition(1) by (auto simp: jobTransitionStates_def ascii_utf8 simp del: utf8_ok.simps split: if_splits)
  with Transition(2) assms(2) store_fits_lookup(1) [OF assms(2)] show ?thesis
    by (auto simp: TransitionJobState_def Let_def job_fits_def split: option.splits intro!: store_fits_job)
next
  case Reclaim
  have "store_fits (s\<lparr>st_locks := lock_remove (st_locks s) i, st_jobs := fmupd i (j\<lparr>JState := JobPending, AssignedWorkerID := [], JobToken := 0\<rparr>) (st_jobs s)\<rparr>)"
    if "fmlookup (st_jobs s) i = Some j" for i j
    using store_fits_job [OF store_fits_remove [OF assms(2)], of i _ i] store_fits_lookup(1) [OF assms(2) that]
    by (auto simp: job_fits_def ascii_utf8 simp del: utf8_ok.simps)
  with Reclaim assms(2) show ?thesis
    by (auto simp: ReclaimExpiredJob_def Let_def split: option.splits if_splits)
qed (use assms(2,4) in \<open>auto simp: store_Put_def store_Delete_def store_fits_def command_fits_def fmpred_iff
      split: option.splits if_splits\<close>)

section \<open>Every command sequence\<close>

definition history_fits :: "(command \<times> log_entry) list \<Rightarrow> bool" where
  "history_fits ces = list_all (\<lambda>(c, e). command_fits c \<and> Index e < 2 ^ 64) ces"

lemma apply_all_restorable:
  assumes "apply_all s ces = Some s'" "history_fits ces" "NextToken (st_locks s) + length ces < 2 ^ 64"
    "store_wf s" "jobs_owned s" "store_fits s"
  shows "store_wf s' \<and> jobs_owned s' \<and> store_fits s'"
  using assms
proof (induction ces arbitrary: s)
  case (Cons ce ces)
  obtain c e where ce: "ce = (c, e)" by (cases ce)
  from Cons.prems(1) obtain r s1 where one: "applyCommand s c e = Some (r, s1)" and rest: "apply_all s1 ces = Some s'"
    by (auto simp: ce split: option.splits)
  from Cons.prems(2) have fits: "command_fits c" "Index e < 2 ^ 64" "history_fits ces" by (simp_all add: history_fits_def ce)
  from Cons.prems(3) have room: "Suc (NextToken (st_locks s)) < 2 ^ 64" by simp
  from applyCommand_tokens(2) [OF one store_wf_locks [OF Cons.prems(4)] room] Cons.prems(3)
  have "NextToken (st_locks s1) + length ces < 2 ^ 64" by simp
  then show ?case
    by (rule Cons.IH [OF rest fits(3)])
      (rule applyCommand_wf [OF one Cons.prems(4) room] jobs_owned_step [OF Cons.prems(4) room one Cons.prems(5)]
        applyCommand_fits [OF one Cons.prems(6) room fits(1,2)])+
qed simp

text \<open>C35.  What is proposed is what is applied: a command whose strings are valid UTF-8 and whose numbers fit their
  types decodes to itself, fields left out because they are zero included, so applying the log entry that
  holds its JSON text applies exactly that command.\<close>

theorem command_roundtrip:
  assumes "command_fits c" and "Data e = EncodeCommand c"
  shows "DecodeCommand (Data e) = Inr c \<and> ApplyWithMetrics s e = applyCommand s c e"
  using DecodeCommand_EncodeCommand [OF assms(1)] by (simp add: assms(2) ApplyWithMetrics_def)

definition demo_create_entry :: log_entry where
  "demo_create_entry = \<lparr>Index = 1, Term = 1, Data = EncodeCommand (fst cmd_create)\<rparr>"

lemma cmd_create_fits: "command_fits (fst cmd_create)"
  by (simp add: command_fits_def history_defs ascii_utf8 del: utf8_ok.simps)

theorem command_roundtrip_witness:
  "DecodeCommand (Data demo_create_entry) = Inr (fst cmd_create) \<and>
   ApplyWithMetrics NewStore demo_create_entry = applyCommand NewStore (fst cmd_create) demo_create_entry"
  by (rule command_roundtrip) (simp_all add: cmd_create_fits demo_create_entry_def)

lemma snapshot_restorable:
  assumes "apply_all NewStore ces = Some s" "history_fits ces" "length ces < 2 ^ 64"
  shows "store_Restore (store_Snapshot s) s0 =
    (if \<exists>i j. orphaned s i j then (fst (store_Restore (store_Snapshot s) s0), s0) else (None, s))"
    "(\<exists>i j. orphaned s i j) \<Longrightarrow> fst (store_Restore (store_Snapshot s) s0) \<noteq> None"
proof -
  have "store_wf s \<and> jobs_owned s \<and> store_fits s"
    by (rule apply_all_restorable [OF assms(1,2) _ store_wf_NewStore jobs_owned_NewStore store_fits_NewStore])
      (use assms(3) in \<open>simp add: NewStore_def NewState_def\<close>)
  with validateSnapshotState_reached [of s snapshotVersion "st_data s" "st_fenced s"]
  show "store_Restore (store_Snapshot s) s0 =
      (if \<exists>i j. orphaned s i j then (fst (store_Restore (store_Snapshot s) s0), s0) else (None, s))"
    "(\<exists>i j. orphaned s i j) \<Longrightarrow> fst (store_Restore (store_Snapshot s) s0) \<noteq> None"
    by (cases "\<exists>i j. orphaned s i j"; auto simp: store_Restore_Snapshot)+
qed

text \<open>C18.  Snapshots restore exactly, or not at all: for the store after any sequence of commands, restoring its snapshot
  (into any store) gives it back in full, unless some scheduled or running job has lost its lock; then the
  snapshot the node itself made is rejected and the store is left as it was.\<close>

theorem snapshot_roundtrip:
  assumes "apply_all NewStore ces = Some s" and "history_fits ces" and "length ces < 2 ^ 64"
  shows "if \<exists>i j. orphaned s i j
    then fst (store_Restore (store_Snapshot s) s0) \<noteq> None \<and> snd (store_Restore (store_Snapshot s) s0) = s0
    else store_Restore (store_Snapshot s) s0 = (None, s)"
  using snapshot_restorable [OF assms] by (simp split: if_splits) (metis snd_conv)

definition cmd_expire :: "command \<times> log_entry" where
  "cmd_expire = (zero_command\<lparr>CType := CommandLockExpire, CKey := ''j'', CFencingToken := 1\<rparr>, \<lparr>Index = 3, Term = 1, Data = []\<rparr>)"

definition store_orphaned :: store where
  "store_orphaned = store_claimed\<lparr>st_locks := \<lparr>Locks = fmdrop ''j'' (fmupd ''j'' job_lock fmempty), NextToken = 1\<rparr>\<rparr>"

lemma apply_all_append: "apply_all s xs = Some s1 \<Longrightarrow> apply_all s (xs @ ys) = apply_all s1 ys"
  by (induction s xs rule: apply_all.induct) (auto split: option.splits)

lemmas history_claimed' = apply_all_append [OF history_created, of "[cmd_claim]", unfolded history_claimed append.simps]

lemma history_orphaned: "apply_all NewStore [cmd_create, cmd_claim, cmd_expire] = Some store_orphaned"
proof -
  have "apply_all store_claimed [cmd_expire] = Some store_orphaned"
    by (simp add: store_claimed_def store_orphaned_def cmd_expire_def history_defs apply_defs ExpireLock_def lock_Expire_def)
  with apply_all_append [OF history_claimed', of "[cmd_expire]"] show ?thesis by simp
qed

lemma histories_fit: "history_fits [cmd_create, cmd_claim]" "history_fits [cmd_create, cmd_claim, cmd_expire]"
  by (simp_all add: history_fits_def command_fits_def history_defs cmd_expire_def ascii_utf8 del: utf8_ok.simps)

theorem snapshot_roundtrip_witness:
  "store_Restore (store_Snapshot store_claimed) NewStore = (None, store_claimed) \<and>
   fst (store_Restore (store_Snapshot store_orphaned) NewStore) \<noteq> None"
proof
  have "\<not> (\<exists>i j. orphaned store_claimed i j)"
    by (auto simp: orphaned_def store_claimed_def lt.stale_def lock_Get_def scheduled_job_def job_lock_def split: if_splits)
  then show "store_Restore (store_Snapshot store_claimed) NewStore = (None, store_claimed)"
    using snapshot_roundtrip [OF history_claimed' histories_fit(1), of NewStore] by auto
  have "orphaned store_orphaned ''j'' scheduled_job"
    by (simp add: orphaned_def store_orphaned_def store_claimed_def lt.stale_def lock_Get_def) (simp add: scheduled_job_def)
  then have "\<exists>i j. orphaned store_orphaned i j" by blast
  then show "fst (store_Restore (store_Snapshot store_orphaned) NewStore) \<noteq> None"
    using snapshot_roundtrip [OF history_orphaned histories_fit(2), of NewStore] by (simp only: if_True simp_thms) simp
qed

section \<open>The types of the stored values\<close>

lemma apply_all_tokens:
  assumes "apply_all s ces = Some s'" "NextToken (st_locks s) + length ces < 2 ^ 64" "store_wf s"
  shows "NextToken (st_locks s') \<le> NextToken (st_locks s) + length ces"
  using assms
proof (induction ces arbitrary: s)
  case (Cons ce ces)
  obtain c e where ce: "ce = (c, e)" by (cases ce)
  from Cons.prems(1) obtain r s1 where one: "applyCommand s c e = Some (r, s1)" and rest: "apply_all s1 ces = Some s'"
    by (auto simp: ce split: option.splits)
  from Cons.prems(2) have room: "Suc (NextToken (st_locks s)) < 2 ^ 64" by simp
  from applyCommand_tokens(2) [OF one store_wf_locks [OF Cons.prems(3)] room] Cons.prems(2) Cons.IH [OF rest _ applyCommand_wf [OF one Cons.prems(3) room]]
  show ?case by simp
qed simp



end
