(* ===== verification/KV_Applier.thy ===== *)
theory KV_Applier
  imports KV_Restore
begin

text \<open>
  The applier (\<^verbatim>\<open>applier.go\<close>): it receives the committed entries of the node and applies them to the store.
  One entry is applied under \<^verbatim>\<open>applyMu\<close>, so an iteration of \<^verbatim>\<open>Run\<close> is one step; the polling loops of
  \<^verbatim>\<open>WaitApplied\<close> and \<^verbatim>\<open>WaitResult\<close> are given the states they observe, tick by tick, until the context ends.
  \<^verbatim>\<open>Run\<close> is given what its \<^verbatim>\<open>select\<close> receives.
\<close>

section \<open>State and steps\<close>

record applier =
  a_store :: store
  a_lastApplied :: log_index
  a_applyErr :: "go_error option"
  a_results :: "(log_index, apply_result) fmap"

definition NewApplier :: "store \<Rightarrow> applier" where
  "NewApplier s = \<lparr>a_store = s, a_lastApplied = 0, a_applyErr = None, a_results = fmempty\<rparr>"

definition commandNeedsResult :: "log_entry \<Rightarrow> bool" where
  "commandNeedsResult entry =
     (case DecodeCommand (Data entry) of
        Inl _ \<Rightarrow> False
      | Inr c \<Rightarrow> CType c \<in> {CommandFencedPut, CommandCreateJob, CommandClaimJob, CommandJobReclaim, CommandJobStart,
                           CommandJobSucceeded, CommandJobFailed})"

definition isExpectedApplyError :: "go_error \<Rightarrow> bool" where
  "isExpectedApplyError err \<longleftrightarrow>
     errors_is err ErrStaleFencingToken \<or> errors_is err ErrLockNotFound \<or> errors_is err ErrJobNotFound \<or>
     errors_is err ErrInvalidJob \<or> errors_is err ErrJobNotClaimable \<or> errors_is err ErrJobAlreadyClaimed \<or>
     errors_is err ErrJobAlreadyExists \<or> errors_is err ErrInvalidJobState \<or> errors_is err ErrJobOwnershipLost"

text \<open>The body of the loop for one entry; an error ends \<^verbatim>\<open>Run\<close>.\<close>

definition apply_entry :: "log_entry \<Rightarrow> applier \<Rightarrow> (go_error option \<times> applier) option" where
  "apply_entry entry a =
     (case ApplyWithMetrics (a_store a) entry of
        None \<Rightarrow> None
      | Some (result, s') \<Rightarrow>
          let a1 = a\<lparr>a_store := s', a_lastApplied := (if Index entry > a_lastApplied a then Index entry else a_lastApplied a)\<rparr>;
              a2 = (if commandNeedsResult entry then a1\<lparr>a_results := fmupd (Index entry) result (a_results a1)\<rparr> else a1)
          in case ResErr result of
               Some err \<Rightarrow>
                 if \<not> isExpectedApplyError err
                 then let applyErr = Wrapf ''apply entry'' [err] in Some (Some applyErr, a2\<lparr>a_applyErr := Some applyErr\<rparr>)
                 else Some (None, a2)
             | None \<Rightarrow> Some (None, a2))"

datatype apply_event = Received log_entry | ContextDone go_error | ChannelClosed

text \<open>
  The result is \<open>Running\<close> when the events are used up, and otherwise what \<^verbatim>\<open>Run\<close> returns; a panic of the
  store would be \<open>Panicked\<close>.
\<close>

datatype run_outcome = Running | Returned "go_error option" | Panicked

fun applier_Run :: "apply_event list \<Rightarrow> applier \<Rightarrow> run_outcome \<times> applier" where
  "applier_Run [] a = (Running, a)"
| "applier_Run (ContextDone err # es) a = (Returned (Some err), a)"
| "applier_Run (ChannelClosed # es) a = (Returned None, a)"
| "applier_Run (Received entry # es) a =
     (case apply_entry entry a of
        None \<Rightarrow> (Panicked, a)
      | Some (Some err, a') \<Rightarrow> (Returned (Some err), a')
      | Some (None, a') \<Rightarrow> applier_Run es a')"

section \<open>Waiting\<close>

fun WaitApplied :: "log_index \<Rightarrow> applier list \<Rightarrow> go_error \<Rightarrow> go_error option" where
  "WaitApplied index [] ctxErr = Some ctxErr"
| "WaitApplied index (a # polls) ctxErr =
     (case a_applyErr a of
        Some err \<Rightarrow> Some err
      | None \<Rightarrow> if a_lastApplied a \<ge> index then None else WaitApplied index polls ctxErr)"

text \<open>One poll of \<^verbatim>\<open>WaitResult\<close>: the result is taken out of the table.\<close>

definition wait_result_poll :: "log_index \<Rightarrow> applier \<Rightarrow> apply_result result option \<times> applier" where
  "wait_result_poll index a =
     (case fmlookup (a_results a) index of
        Some result \<Rightarrow> (Some (Inr result), a\<lparr>a_results := fmdrop index (a_results a)\<rparr>)
      | None \<Rightarrow>
        (case a_applyErr a of
           Some err \<Rightarrow> (Some (Inl err), a)
         | None \<Rightarrow> (None, a)))"

fun WaitResult :: "log_index \<Rightarrow> applier list \<Rightarrow> go_error \<Rightarrow> apply_result result" where
  "WaitResult index [] ctxErr = Inl ctxErr"
| "WaitResult index (a # polls) ctxErr =
     (case fst (wait_result_poll index a) of Some r \<Rightarrow> r | None \<Rightarrow> WaitResult index polls ctxErr)"

section \<open>Snapshots\<close>

definition applier_Snapshot :: "applier \<Rightarrow> bytes \<times> log_index" where
  "applier_Snapshot a = (store_Snapshot (a_store a), a_lastApplied a)"

definition applier_RestoreSnapshot :: "snapshot \<Rightarrow> applier \<Rightarrow> go_error option \<times> applier" where
  "applier_RestoreSnapshot sn a =
     (case store_Restore (SnapData sn) (a_store a) of
        (Some err, s') \<Rightarrow> (Some (Wrapf ''restore KV snapshot'' [err]), a\<lparr>a_store := s'\<rparr>)
      | (None, s') \<Rightarrow>
          (None, a\<lparr>a_store := s', a_lastApplied := LastIncludedIndex sn, a_applyErr := None, a_results := fmempty\<rparr>))"

section \<open>One entry\<close>

lemma ApplyWithMetrics_total: "\<exists>r s'. ApplyWithMetrics s e = Some (r, s')"
  using applyCommand_total by (auto simp: ApplyWithMetrics_def split: sum.split)

text \<open>The store an entry leaves, whatever its result.\<close>

definition entry_effect :: "log_entry \<Rightarrow> store \<Rightarrow> store" where
  "entry_effect e s = snd (the (ApplyWithMetrics s e))"

lemma apply_entry_total: "\<exists>r a'. apply_entry e a = Some (r, a')"
proof -
  obtain r s' where "ApplyWithMetrics (a_store a) e = Some (r, s')" using ApplyWithMetrics_total by blast
  then show ?thesis by (simp add: apply_entry_def Let_def split: option.split)
qed

lemma apply_entry_state:
  assumes "apply_entry e a = Some (r, a')"
  shows "a_store a' = entry_effect e (a_store a)" "a_lastApplied a' = max (a_lastApplied a) (Index e)"
    "a_applyErr a' = (if r = None then a_applyErr a else r)"
proof -
  obtain r' s' where "ApplyWithMetrics (a_store a) e = Some (r', s')" using ApplyWithMetrics_total by blast
  with assms show "a_store a' = entry_effect e (a_store a)" "a_lastApplied a' = max (a_lastApplied a) (Index e)"
    "a_applyErr a' = (if r = None then a_applyErr a else r)"
    by (auto simp: apply_entry_def entry_effect_def Let_def max_def split: option.splits if_splits)
qed

section \<open>Which entries stop the applier\<close>

definition malformed_command :: "command \<Rightarrow> bool" where
  "malformed_command c \<longleftrightarrow>
     (if CType c = CommandLockAcquire then CKey c = [] \<or> COwnerID c = []
      else if CType c = CommandLockExpire then CKey c = [] \<or> CFencingToken c = 0
      else if CType c = CommandFencedPut then CKey c = []
      else CType c \<notin> {CommandPut, CommandDelete, CommandReadBarrier, CommandCreateJob, CommandClaimJob, CommandJobStart,
                      CommandJobSucceeded, CommandJobFailed, CommandJobReclaim})"

lemmas expected_defs = isExpectedApplyError_def

lemma ClaimJob_expected: "ClaimJob s i w x g = (Inl err, s') \<Longrightarrow> isExpectedApplyError (Wrapf m [err])"
  by (auto simp: ClaimJob_def validateClaimArguments_def handleExistingClaim_def handleFailedClaim_def Let_def expected_defs
      split: option.splits prod.splits if_splits)

lemma CreateJob_expected: "CreateJob s j = (Some err, s') \<Longrightarrow> isExpectedApplyError (Wrapf m [err])"
  by (auto simp: CreateJob_def expected_defs split: option.splits if_splits)

lemma TransitionJobState_expected: "TransitionJobState s i w x t f n a = (Inl err, s') \<Longrightarrow> isExpectedApplyError err"
  by (auto simp: TransitionJobState_def validateTransitionArguments_def validateTransitionStates_def
      validateTransitionOwnership_def Let_def expected_defs split: option.splits if_splits)

lemma ReclaimExpiredJob_expected: "ReclaimExpiredJob s i t a = (Inl err, s') \<Longrightarrow> isExpectedApplyError err"
  by (auto simp: ReclaimExpiredJob_def Let_def expected_defs split: option.splits if_splits)

definition unexpected :: "apply_result \<Rightarrow> bool" where
  "unexpected r \<longleftrightarrow> (case ResErr r of None \<Rightarrow> False | Some err \<Rightarrow> \<not> isExpectedApplyError err)"

lemma unexpected_simps [simp]:
  "\<not> unexpected apply_ok" "\<not> unexpected \<lparr>ResJob = j, ResErr = None\<rparr>"
  "unexpected \<lparr>ResJob = j, ResErr = Some err\<rparr> \<longleftrightarrow> \<not> isExpectedApplyError err"
  by (simp_all add: unexpected_def)

lemma applyLockCommand_unexpected:
  "CType c \<in> {CommandLockAcquire, CommandLockExpire, CommandFencedPut} \<Longrightarrow>
     unexpected (fst (applyLockCommand s c e)) \<longleftrightarrow> malformed_command c"
  by (auto simp: applyLockCommand_def malformed_command_def AcquireLock_def ExpireLock_def applyFencedPut_def FencedPut_def
      expected_defs split: option.splits prod.splits)

lemma applyJob_expected:
  "\<not> unexpected (fst (applyJobCreationCommand s c e))"
  "applyJobTransitionCommand s c = Some (r, s') \<Longrightarrow> \<not> unexpected r"
  "\<not> unexpected (fst (applyJobReclaimCommand s c))"
  by (auto simp: applyJobCreationCommand_def applyClaimJob_def applyJobTransitionCommand_def applyJobReclaimCommand_def
      job_apply_result_def Let_def ClaimJob_expected CreateJob_expected TransitionJobState_expected ReclaimExpiredJob_expected
      split: prod.splits sum.splits option.splits)

lemma applyCommand_unexpected:
  assumes "applyCommand s c e = Some (r, s')"
  shows "unexpected r \<longleftrightarrow> malformed_command c"
proof (cases "CType c \<in> {CommandLockAcquire, CommandLockExpire, CommandFencedPut}")
  case True
  with assms have "r = fst (applyLockCommand s c e)" by (auto simp: applyCommand_def)
  with applyLockCommand_unexpected [OF True] show ?thesis by simp
next
  case False
  with assms applyJob_expected(1) [of s c e] applyJob_expected(2,3) [of s c] show ?thesis
    by (auto simp: applyCommand_def applyKVCommand_def malformed_command_def expected_defs split: if_splits)
qed

definition poison_entry :: "log_entry \<Rightarrow> bool" where
  "poison_entry e \<longleftrightarrow> (case DecodeCommand (Data e) of Inl _ \<Rightarrow> True | Inr c \<Rightarrow> malformed_command c)"

lemma DecodeCommand_plain: "plain_error (DecodeCommand data)"
  by (simp add: DecodeCommand_def dec_struct_plain set_command_field_def)

lemma apply_entry_stops:
  assumes "apply_entry e a = Some (r, a')"
  shows "r \<noteq> None \<longleftrightarrow> poison_entry e"
proof -
  obtain r' s' where m: "ApplyWithMetrics (a_store a) e = Some (r', s')" using ApplyWithMetrics_total by blast
  with assms have "r \<noteq> None \<longleftrightarrow> unexpected r'"
    by (auto simp: apply_entry_def Let_def unexpected_def split: option.splits if_splits)
  also have "\<dots> \<longleftrightarrow> poison_entry e"
  proof (cases "DecodeCommand (Data e)")
    case (Inl err)
    with plain_error_Inl [OF DecodeCommand_plain Inl] m show ?thesis
      by (auto simp: ApplyWithMetrics_def poison_entry_def expected_defs)
  next
    case (Inr c)
    with m applyCommand_unexpected [of "a_store a" c e r' s'] show ?thesis by (simp add: ApplyWithMetrics_def poison_entry_def)
  qed
  finally show ?thesis .
qed

section \<open>Sequences of entries\<close>

lemma applier_Run_entries:
  assumes "list_all (\<lambda>e. \<not> poison_entry e) es"
  shows "\<exists>a'. applier_Run (map Received es) a = (Running, a') \<and> a_store a' = fold entry_effect es (a_store a) \<and>
    a_lastApplied a' = foldl max (a_lastApplied a) (map Index es) \<and> a_applyErr a' = a_applyErr a"
  using assms
proof (induction es arbitrary: a)
  case (Cons e es)
  obtain r a1 where a1: "apply_entry e a = Some (r, a1)" using apply_entry_total by blast
  with apply_entry_stops [OF a1] Cons.prems have "r = None" by simp
  with Cons.IH [of a1] Cons.prems apply_entry_state [OF a1] a1 show ?case by simp
qed simp

text \<open>The log entries a leader makes of commands.\<close>

definition entries_of :: "(command \<times> log_entry) list \<Rightarrow> log_entry list" where
  "entries_of ces = map (\<lambda>(c, e). e\<lparr>Data := EncodeCommand c\<rparr>) ces"

definition well_formed_history :: "(command \<times> log_entry) list \<Rightarrow> bool" where
  "well_formed_history ces \<longleftrightarrow> history_fits ces \<and> list_all (\<lambda>(c, e). \<not> malformed_command c) ces"

lemma applyCommand_Data [simp]: "applyCommand s c (e\<lparr>Data := d\<rparr>) = applyCommand s c e"
  by (simp add: applyCommand_def applyLockCommand_def applyJobCreationCommand_def applyClaimJob_def)

lemma entries_of_not_poison:
  "well_formed_history ces \<Longrightarrow> list_all (\<lambda>e. \<not> poison_entry e) (entries_of ces)"
  by (induction ces) (auto simp: well_formed_history_def history_fits_def entries_of_def poison_entry_def DecodeCommand_EncodeCommand)

lemma entries_of_apply_all:
  "history_fits ces \<Longrightarrow> apply_all s ces = Some (fold entry_effect (entries_of ces) s)"
proof (induction ces arbitrary: s)
  case (Cons ce ces)
  obtain c e where ce: "ce = (c, e)" by (cases ce)
  with Cons.prems have fits: "command_fits c" "history_fits ces" by (simp_all add: history_fits_def)
  obtain r s1 where one: "applyCommand s c e = Some (r, s1)" using applyCommand_total by blast
  have "entry_effect (e\<lparr>Data := EncodeCommand c\<rparr>) s = s1"
    by (simp add: entry_effect_def ApplyWithMetrics_def DecodeCommand_EncodeCommand [OF fits(1)] one)
  with Cons.IH [OF fits(2), of s1] one show ?case by (simp add: ce entries_of_def)
qed (simp add: entries_of_def)

lemma entries_of_append: "entries_of (xs @ ys) = entries_of xs @ entries_of ys"
  by (simp add: entries_of_def)



text \<open>C30.  The store is the fold of the log: on well-formed commands the apply loop keeps running, and the store it
  leaves is the one the commands give in log order, the index it reports the highest applied one.\<close>

theorem applier_applies_in_order:
  assumes "well_formed_history ces"
  shows "\<exists>a'. applier_Run (map Received (entries_of ces)) a = (Running, a') \<and> apply_all (a_store a) ces = Some (a_store a') \<and>
    a_lastApplied a' = foldl max (a_lastApplied a) (map (\<lambda>(c, e). Index e) ces)"
proof -
  have "map Index (entries_of ces) = map (\<lambda>(c, e). Index e) ces" by (auto simp: entries_of_def)
  moreover have "history_fits ces" using assms by (simp add: well_formed_history_def)
  ultimately show ?thesis
    using applier_Run_entries [OF entries_of_not_poison [OF assms], of a] entries_of_apply_all [of ces "a_store a"] by auto
qed

lemma demo_history_ok: "well_formed_history [cmd_create, cmd_claim]"
  using histories_fit(1) by (simp add: well_formed_history_def malformed_command_def) (simp add: history_defs)

theorem applier_applies_in_order_witness:
  "\<exists>a'. applier_Run (map Received (entries_of [cmd_create, cmd_claim])) (NewApplier NewStore) = (Running, a') \<and>
     a_store a' = store_claimed \<and> a_lastApplied a' = 2"
  using applier_applies_in_order [OF demo_history_ok, of "NewApplier NewStore"] history_claimed'
  by (auto simp: NewApplier_def) (simp add: history_defs)

text \<open>C15.  Catching up from a snapshot: a node that restores another's snapshot, taken after a prefix of the log, and then
  applies the rest ends with the same store and the same applied index as a node that applied the whole log, provided
  no active job had lost its lock when the snapshot was taken.\<close>

theorem snapshot_catch_up:
  assumes "well_formed_history (ces @ ds)" and "length ces < 2 ^ 64"
    and "applier_Run (map Received (entries_of ces)) (NewApplier NewStore) = (Running, a)"
    and "\<not> (\<exists>i j. orphaned (a_store a) i j)" and "applier_Snapshot a = (data, index)"
  shows "\<exists>b b' full. applier_RestoreSnapshot \<lparr>LastIncludedIndex = index, LastIncludedTerm = t, SnapData = data\<rparr> b0 = (None, b) \<and>
    applier_Run (map Received (entries_of ds)) b = (Running, b') \<and>
    applier_Run (map Received (entries_of (ces @ ds))) (NewApplier NewStore) = (Running, full) \<and>
    a_store b' = a_store full \<and> a_lastApplied b' = a_lastApplied full"
proof -
  have wf: "well_formed_history ces" "well_formed_history ds" "history_fits ces"
    using assms(1) by (auto simp: well_formed_history_def history_fits_def)
  from applier_Run_entries [OF entries_of_not_poison [OF wf(1)], of "NewApplier NewStore"] assms(3)
  have a: "a_store a = fold entry_effect (entries_of ces) NewStore" "a_lastApplied a = foldl max 0 (map Index (entries_of ces))"
    by (auto simp: NewApplier_def)
  have "apply_all NewStore ces = Some (a_store a)" using entries_of_apply_all [OF wf(3)] a(1) by simp
  from snapshot_restorable [OF this wf(3) assms(2)] assms(4,5)
  have "store_Restore data (a_store b0) = (None, a_store a)" by (simp add: applier_Snapshot_def)
  then obtain b where b: "applier_RestoreSnapshot \<lparr>LastIncludedIndex = index, LastIncludedTerm = t, SnapData = data\<rparr> b0 = (None, b)"
    "a_store b = a_store a" "a_lastApplied b = a_lastApplied a"
    using assms(5) by (auto simp: applier_RestoreSnapshot_def applier_Snapshot_def)
  from applier_Run_entries [OF entries_of_not_poison [OF wf(2)], of b] obtain b' where
    b': "applier_Run (map Received (entries_of ds)) b = (Running, b')" "a_store b' = fold entry_effect (entries_of ds) (a_store a)"
    "a_lastApplied b' = foldl max (a_lastApplied a) (map Index (entries_of ds))"
    using b by auto
  from applier_Run_entries [OF entries_of_not_poison [OF assms(1)], of "NewApplier NewStore"] a b b' show ?thesis
    by (fastforce simp: entries_of_append NewApplier_def)
qed

theorem snapshot_catch_up_witness:
  "\<exists>a b b'. applier_Run (map Received (entries_of [cmd_create])) (NewApplier NewStore) = (Running, a) \<and>
     applier_RestoreSnapshot \<lparr>LastIncludedIndex = snd (applier_Snapshot a), LastIncludedTerm = 1, SnapData = fst (applier_Snapshot a)\<rparr>
       (NewApplier NewStore) = (None, b) \<and>
     applier_Run (map Received (entries_of [cmd_claim])) b = (Running, b') \<and> a_lastApplied b' = 2"
proof -
  have wf: "well_formed_history [cmd_create]" "well_formed_history ([cmd_create] @ [cmd_claim])"
    using demo_history_ok by (simp_all add: well_formed_history_def history_fits_def)
  have ne: "list_all (\<lambda>e. \<not> poison_entry e) (entries_of [cmd_create])" by (rule entries_of_not_poison [OF wf(1)])
  obtain a where a: "applier_Run (map Received (entries_of [cmd_create])) (NewApplier NewStore) = (Running, a)"
    "a_store a = fold entry_effect (entries_of [cmd_create]) NewStore"
    using applier_Run_entries [OF ne, of "NewApplier NewStore"] by (auto simp: NewApplier_def)
  have "a_store a = store_created"
    using a(2) entries_of_apply_all [of "[cmd_create]" NewStore] wf(1) history_created by (simp add: well_formed_history_def)
  then have "\<not> (\<exists>i j. orphaned (a_store a) i j)"
    by (auto simp: orphaned_def store_created_def history_defs split: if_splits)
  from snapshot_catch_up [OF wf(2) _ a(1) this, of "fst (applier_Snapshot a)" "snd (applier_Snapshot a)" 1 "NewApplier NewStore"]
  obtain b b' full where b: "applier_RestoreSnapshot \<lparr>LastIncludedIndex = snd (applier_Snapshot a), LastIncludedTerm = 1,
      SnapData = fst (applier_Snapshot a)\<rparr> (NewApplier NewStore) = (None, b)"
    "applier_Run (map Received (entries_of [cmd_claim])) b = (Running, b')"
    "applier_Run (map Received (entries_of ([cmd_create] @ [cmd_claim]))) (NewApplier NewStore) = (Running, full)"
    "a_lastApplied b' = a_lastApplied full" by auto
  have "a_lastApplied full = 2"
    using applier_Run_entries [OF entries_of_not_poison [OF wf(2)], of "NewApplier NewStore"] b(3)
    by (auto simp: NewApplier_def entries_of_def history_defs)
  with a(1) b show ?thesis by auto
qed

end
