(* ===== verification/Raft_Membership.thy ===== *)
theory Raft_Membership
  imports Model_Types
begin

text \<open>
  Quorums of \<^verbatim>\<open>internal/raft/membership.go\<close>: majorities of a configuration, and of both
  configurations while a change is under way.  A Go \<^verbatim>\<open>map[NodeID]struct{}\<close> is a set of node
  identifiers.  The interface \<open>quorum_system\<close> holds the one law elections and commits rest on.
\<close>

definition configurationMajority :: "configuration \<Rightarrow> nat" where
  "configurationMajority c = length (Voters c) div 2 + 1"

definition configurationHasQuorum :: "configuration \<Rightarrow> node_id set \<Rightarrow> bool" where
  "configurationHasQuorum c votes =
     (let required = configurationMajority c
      in if required = 0 then False
         else let granted = length (filter (\<lambda>voterID. voterID \<in> votes) (Voters c))
              in required \<le> granted)"

definition membershipHasQuorum :: "membership \<Rightarrow> node_id set \<Rightarrow> bool" where
  "membershipHasQuorum m votes =
     (case Joint m of
        Some j \<Rightarrow> configurationHasQuorum (Old j) votes \<and> configurationHasQuorum (New j) votes
      | None \<Rightarrow> configurationHasQuorum (Current m) votes)"

definition configurationContainsVoter :: "configuration \<Rightarrow> node_id \<Rightarrow> bool" where
  "configurationContainsVoter c nodeID = list_ex (\<lambda>voterID. voterID = nodeID) (Voters c)"

definition membershipIsVoter :: "membership \<Rightarrow> node_id \<Rightarrow> bool" where
  "membershipIsVoter m nodeID =
     (if nodeID = [] then False
      else case Joint m of
        Some j \<Rightarrow> configurationContainsVoter (Old j) nodeID \<or> configurationContainsVoter (New j) nodeID
      | None \<Rightarrow> configurationContainsVoter (Current m) nodeID)"

section \<open>Majorities meet\<close>

lemma configurationHasQuorum_iff:
  "configurationHasQuorum c votes \<longleftrightarrow> length (Voters c) < 2 * length (filter (\<lambda>v. v \<in> votes) (Voters c))"
  by (auto simp: configurationHasQuorum_def configurationMajority_def Let_def)

lemma configurationContainsVoter_iff: "configurationContainsVoter c v \<longleftrightarrow> v \<in> set (Voters c)"
  by (auto simp: configurationContainsVoter_def list_ex_iff)

lemma length_filter_disjoint:
  "(\<forall>x \<in> set xs. \<not> (P x \<and> Q x)) \<Longrightarrow> length (filter P xs) + length (filter Q xs) \<le> length xs"
  by (induction xs) auto

lemma configuration_quorums_meet:
  assumes "configurationHasQuorum c A" "configurationHasQuorum c B"
  shows "\<exists>v \<in> A \<inter> B. v \<in> set (Voters c)"
proof (rule ccontr)
  assume "\<not> ?thesis"
  then have "length (filter (\<lambda>v. v \<in> A) (Voters c)) + length (filter (\<lambda>v. v \<in> B) (Voters c))
      \<le> length (Voters c)"
    by (intro length_filter_disjoint) auto
  with assms show False by (auto simp: configurationHasQuorum_iff)
qed

lemma configurationHasQuorum_mono:
  assumes "A \<subseteq> B" "configurationHasQuorum c A"
  shows "configurationHasQuorum c B"
proof -
  have "length (filter (\<lambda>v. v \<in> A) xs) \<le> length (filter (\<lambda>v. v \<in> B) xs)" for xs :: "node_id list"
    using assms(1) by (induction xs) auto
  from this [of "Voters c"] assms(2) show ?thesis by (simp add: configurationHasQuorum_iff)
qed

lemma configurationHasQuorum_empty: "Voters c = [] \<Longrightarrow> \<not> configurationHasQuorum c A"
  by (simp add: configurationHasQuorum_iff)

section \<open>The interface of a quorum system\<close>

locale quorum_system =
  fixes quorum :: "node_id set \<Rightarrow> bool"
  assumes meet: "quorum A \<Longrightarrow> quorum B \<Longrightarrow> A \<inter> B \<noteq> {}"
    and mono: "quorum A \<Longrightarrow> A \<subseteq> B \<Longrightarrow> quorum B"
begin

text \<open>At most one candidate can collect a quorum when every node has one vote.\<close>

lemma one_winner:
  assumes "quorum A" "quorum B"
    and "\<And>v. v \<in> A \<Longrightarrow> vote v a" "\<And>v. v \<in> B \<Longrightarrow> vote v b"
    and "\<And>v x y. vote v x \<Longrightarrow> vote v y \<Longrightarrow> x = y"
  shows "a = b"
  using meet [OF assms(1,2)] assms(3-5) by blast

text \<open>A quorum that acknowledged a value and a quorum that voted share a witness.\<close>

lemma shared_member:
  assumes "quorum A" "quorum B"
  obtains v where "v \<in> A" "v \<in> B"
  using meet [OF assms] by blast

lemma not_empty: "\<not> quorum {}"
  using meet [of "{}" "{}"] by blast

end

interpretation conf: quorum_system "configurationHasQuorum c" for c
proof
  fix A B
  show "configurationHasQuorum c A \<Longrightarrow> configurationHasQuorum c B \<Longrightarrow> A \<inter> B \<noteq> {}"
    using configuration_quorums_meet by blast
  show "configurationHasQuorum c A \<Longrightarrow> A \<subseteq> B \<Longrightarrow> configurationHasQuorum c B"
    using configurationHasQuorum_mono by blast
qed

text \<open>Two memberships that have a configuration in common, one of them possibly joint.\<close>

definition quorum_configurations :: "membership \<Rightarrow> configuration set" where
  "quorum_configurations m = (case Joint m of Some j \<Rightarrow> {Old j, New j} | None \<Rightarrow> {Current m})"

lemma membershipHasQuorum_all:
  "membershipHasQuorum m A \<longleftrightarrow> (\<forall>c \<in> quorum_configurations m. configurationHasQuorum c A)"
  by (auto simp: membershipHasQuorum_def quorum_configurations_def split: option.splits)

lemma membershipIsVoter_iff:
  "membershipIsVoter m v \<longleftrightarrow> v \<noteq> [] \<and> (\<exists>c \<in> quorum_configurations m. v \<in> set (Voters c))"
  by (auto simp: membershipIsVoter_def quorum_configurations_def configurationContainsVoter_iff
      split: option.splits)

interpretation mem: quorum_system "membershipHasQuorum m" for m
proof
  fix A B
  have "quorum_configurations m \<noteq> {}" by (simp add: quorum_configurations_def split: option.splits)
  then show "membershipHasQuorum m A \<Longrightarrow> membershipHasQuorum m B \<Longrightarrow> A \<inter> B \<noteq> {}"
    by (meson all_not_in_conv conf.meet membershipHasQuorum_all)
  show "membershipHasQuorum m A \<Longrightarrow> A \<subseteq> B \<Longrightarrow> membershipHasQuorum m B"
    by (meson conf.mono membershipHasQuorum_all)
qed

text \<open>
  C31. Any two quorums meet in a voter, also across the two steps of a membership change: whenever two
  memberships share a configuration that counts for both (the old configuration and the joint one,
  or the joint one and the new configuration), a quorum of the first and a quorum of the second
  have a voter of that configuration in common.
\<close>

theorem membership_quorums_meet:
  assumes "membershipHasQuorum m A" "membershipHasQuorum m' B"
    and "c \<in> quorum_configurations m" "c \<in> quorum_configurations m'"
  shows "\<exists>v \<in> A \<inter> B. v \<in> set (Voters c)"
  using assms configuration_quorums_meet by (auto simp: membershipHasQuorum_all)

theorem membership_quorums_meet_witness:
  "\<exists>v \<in> {''a'', ''b''} \<inter> {''b'', ''c'', ''d''}. v \<in> {''a'', ''b'', ''c''}"
  using membership_quorums_meet [of "\<lparr>Current = \<lparr>Voters = [''a'', ''b'', ''c'']\<rparr>, Joint = None\<rparr>"
      "{''a'', ''b''}"
      "\<lparr>Current = \<lparr>Voters = [''a'', ''b'', ''c'']\<rparr>,
        Joint = Some \<lparr>Old = \<lparr>Voters = [''a'', ''b'', ''c'']\<rparr>, New = \<lparr>Voters = [''a'', ''b'', ''c'', ''d'']\<rparr>\<rparr>\<rparr>"
      "{''b'', ''c'', ''d''}" "\<lparr>Voters = [''a'', ''b'', ''c'']\<rparr>"]
  by (simp add: membershipHasQuorum_def configurationHasQuorum_iff quorum_configurations_def)

end
