(* ===== verification/Raft_Log.thy ===== *)
theory Raft_Log
  imports Model_Types
begin

text \<open>
  The in-memory log of \<^verbatim>\<open>internal/raft/log.go\<close>: a suffix of entries behind a snapshot boundary.
  The log mutex makes each method one step.  \<open>cloneBytes\<close> copies contents and is the identity here.
  The invariant \<open>log_wf\<close> says that positions are contiguous from the boundary on, and the interface
  \<open>indexed_log\<close> says what the node's handlers rely on: the log is a map from positions to entries.
\<close>

section \<open>The log and its operations\<close>

record raft_log =
  log_entries :: "log_entry list"
  lastIncludedIndex :: log_index
  lastIncludedTerm :: raft_term

definition NewLog :: raft_log where
  "NewLog = \<lparr>log_entries = [], lastIncludedIndex = 0, lastIncludedTerm = 0\<rparr>"

definition LastIndex :: "raft_log \<Rightarrow> log_index" where
  "LastIndex l = (if log_entries l = [] then lastIncludedIndex l else Index (last (log_entries l)))"

definition LastTerm :: "raft_log \<Rightarrow> raft_term" where
  "LastTerm l = (if log_entries l = [] then lastIncludedTerm l else Term (last (log_entries l)))"

definition log_Get :: "raft_log \<Rightarrow> log_index \<Rightarrow> log_entry option" where
  "log_Get l index =
     (if index = lastIncludedIndex l \<and> index \<noteq> 0
      then Some \<lparr>Index = index, Term = lastIncludedTerm l, Data = []\<rparr>
      else find (\<lambda>entry. Index entry = index) (log_entries l))"

definition log_Append :: "raft_log \<Rightarrow> log_entry \<Rightarrow> raft_log result" where
  "log_Append l entry =
     (let expectedIndex = inc64 (LastIndex l)
      in if Index entry \<noteq> expectedIndex then Inl (Message ''invalid log index'')
         else Inr (l\<lparr>log_entries := log_entries l @ [entry]\<rparr>))"

definition TruncateFrom :: "raft_log \<Rightarrow> log_index \<Rightarrow> raft_log" where
  "TruncateFrom l index =
     (if index = 0 then l\<lparr>log_entries := []\<rparr>
      else if index \<le> lastIncludedIndex l then l
      else l\<lparr>log_entries := takeWhile (\<lambda>entry. \<not> index \<le> Index entry) (log_entries l)\<rparr>)"

definition log_Compact :: "raft_log \<Rightarrow> snapshot \<Rightarrow> raft_log result" where
  "log_Compact l snap =
     (if LastIncludedIndex snap < lastIncludedIndex l
      then Inl (Message ''cannot move snapshot backwards'')
      else if LastIndex l < LastIncludedIndex snap
      then Inl (Message ''cannot compact beyond last log index'')
      else if LastIncludedIndex snap = lastIncludedIndex l then
        (if LastIncludedTerm snap \<noteq> lastIncludedTerm l
         then Inl (Message ''snapshot term mismatch at index'') else Inr l)
      else case log_Get l (LastIncludedIndex snap) of
        None \<Rightarrow> Inl (Message ''cannot compact: snapshot boundary index not found'')
      | Some entry \<Rightarrow>
          if Term entry \<noteq> LastIncludedTerm snap
          then Inl (Message ''snapshot term mismatch at index'')
          else Inr (l\<lparr>log_entries :=
                       filter (\<lambda>e. LastIncludedIndex snap < Index e) (log_entries l),
                     lastIncludedIndex := LastIncludedIndex snap,
                     lastIncludedTerm := LastIncludedTerm snap\<rparr>))"

definition log_RestoreSnapshot :: "raft_log \<Rightarrow> snapshot \<Rightarrow> raft_log result" where
  "log_RestoreSnapshot l snap =
     (if LastIncludedIndex snap < lastIncludedIndex l
      then Inl (Message ''cannot restore snapshot backwards'')
      else if LastIncludedIndex snap = lastIncludedIndex l then
        (if LastIncludedTerm snap \<noteq> lastIncludedTerm l
         then Inl (Message ''snapshot term mismatch at index'') else Inr l)
      else
        let boundaryMatches =
              (case log_Get l (LastIncludedIndex snap) of
                 None \<Rightarrow> False
               | Some entry \<Rightarrow> Term entry = LastIncludedTerm snap);
            remaining = (if boundaryMatches
                         then filter (\<lambda>e. LastIncludedIndex snap < Index e) (log_entries l) else [])
        in Inr (l\<lparr>log_entries := remaining, lastIncludedIndex := LastIncludedIndex snap,
                  lastIncludedTerm := LastIncludedTerm snap\<rparr>))"

definition log_Size :: "raft_log \<Rightarrow> nat" where
  "log_Size l = length (log_entries l)"

section \<open>Contiguous runs of entries\<close>

fun contiguous :: "log_index \<Rightarrow> log_entry list \<Rightarrow> bool" where
  "contiguous base [] \<longleftrightarrow> True"
| "contiguous base (e # es) \<longleftrightarrow> Index e = Suc base \<and> contiguous (Suc base) es"

lemma contiguous_append:
  "contiguous b (xs @ ys) \<longleftrightarrow> contiguous b xs \<and> contiguous (b + length xs) ys"
  by (induction xs arbitrary: b) auto

lemma contiguous_nth: "contiguous b es \<Longrightarrow> i < length es \<Longrightarrow> Index (es ! i) = Suc (b + i)"
  by (induction es arbitrary: b i) (auto simp: nth_Cons split: nat.splits)

lemma contiguous_iff: "contiguous b es \<longleftrightarrow> (\<forall>i < length es. Index (es ! i) = Suc (b + i))"
proof (induction es arbitrary: b)
  case (Cons e es)
  have "(\<forall>i < length (e # es). Index ((e # es) ! i) = Suc (b + i)) \<longleftrightarrow>
      Index e = Suc b \<and> (\<forall>i < length es. Index (es ! i) = Suc (Suc b + i))"
    by (subst All_less_Suc2 [of "length es", folded length_Cons [of e es]]) simp
  with Cons show ?case by simp
qed simp

lemma contiguous_last: "contiguous b es \<Longrightarrow> es \<noteq> [] \<Longrightarrow> Index (last es) = b + length es"
  by (cases es rule: rev_cases) (auto simp: contiguous_append)

lemma contiguous_range: "contiguous b es \<Longrightarrow> e \<in> set es \<Longrightarrow> b < Index e \<and> Index e \<le> b + length es"
  by (induction es arbitrary: b) fastforce+

lemma contiguous_take: "contiguous b es \<Longrightarrow> contiguous b (take n es)"
  by (metis append_take_drop_id contiguous_append)

lemma contiguous_drop: "contiguous b es \<Longrightarrow> n \<le> length es \<Longrightarrow> contiguous (b + n) (drop n es)"
  using contiguous_append [of b "take n es" "drop n es"] by simp

lemma contiguous_find:
  "contiguous b es \<Longrightarrow> find (\<lambda>e. Index e = i) es =
     (if b < i \<and> i \<le> b + length es then Some (es ! (i - Suc b)) else None)"
proof (induction es arbitrary: b)
  case (Cons e es)
  have "i - Suc (Suc b) = n" if "i - Suc b = Suc n" for n using that by simp
  with Cons show ?case by (auto simp: nth_Cons split: nat.split)
qed simp

lemma contiguous_takeWhile:
  "contiguous b es \<Longrightarrow> takeWhile (\<lambda>e. \<not> i \<le> Index e) es = take (i - Suc b) es"
proof (induction es arbitrary: b)
  case (Cons e es)
  then have "takeWhile (\<lambda>e. \<not> i \<le> Index e) es = take (i - Suc (Suc b)) es" by simp
  moreover have "i - Suc (Suc b) = n" if "i - Suc b = Suc n" for n using that by simp
  ultimately show ?case using Cons.prems by (cases "i - Suc b") auto
qed simp

lemma contiguous_filter:
  "contiguous b es \<Longrightarrow> b \<le> i \<Longrightarrow> filter (\<lambda>e. i < Index e) es = drop (i - b) es"
proof (induction es arbitrary: b)
  case (Cons e es)
  show ?case
  proof (cases "i = b")
    case True
    with Cons.prems contiguous_range [OF Cons.prems(1)] show ?thesis by (simp add: filter_id_conv)
  next
    case False
    with Cons.prems(2) have "i - b = Suc (i - Suc b)" by simp
    with Cons False show ?thesis by simp
  qed
qed simp

section \<open>The invariant and the contents of a log\<close>

definition log_wf :: "raft_log \<Rightarrow> bool" where
  "log_wf l \<longleftrightarrow> contiguous (lastIncludedIndex l) (log_entries l) \<and>
     (lastIncludedIndex l = 0 \<longrightarrow> lastIncludedTerm l = 0) \<and> LastIndex l < 2 ^ 64"

definition log_at :: "raft_log \<Rightarrow> log_index \<Rightarrow> log_entry option" where
  "log_at l i = (if lastIncludedIndex l < i \<and> i \<le> lastIncludedIndex l + length (log_entries l)
     then Some (log_entries l ! (i - Suc (lastIncludedIndex l))) else None)"

lemma LastIndex_length:
  "contiguous (lastIncludedIndex l) (log_entries l) \<Longrightarrow>
     LastIndex l = lastIncludedIndex l + length (log_entries l)"
  by (simp add: LastIndex_def contiguous_last)

lemma log_wf_contiguous: "log_wf l \<Longrightarrow> contiguous (lastIncludedIndex l) (log_entries l)"
  by (simp add: log_wf_def)

lemma log_wf_LastIndex: "log_wf l \<Longrightarrow> LastIndex l = lastIncludedIndex l + length (log_entries l)"
  by (simp add: log_wf_def LastIndex_length)

lemma log_wf_NewLog [wf_intros, simp]: "log_wf NewLog"
  by (simp add: log_wf_def NewLog_def LastIndex_def)

lemma log_Get_at:
  assumes "log_wf l"
  shows "log_Get l i = (if i = lastIncludedIndex l \<and> i \<noteq> 0
     then Some \<lparr>Index = i, Term = lastIncludedTerm l, Data = []\<rparr> else log_at l i)"
  using contiguous_find [OF log_wf_contiguous [OF assms]] by (simp add: log_Get_def log_at_def)

lemma log_at_index: "log_wf l \<Longrightarrow> log_at l i = Some e \<Longrightarrow> Index e = i"
  using contiguous_nth [of "lastIncludedIndex l" "log_entries l" "i - Suc (lastIncludedIndex l)"]
  by (auto simp: log_wf_def log_at_def split: if_splits)

lemma log_at_dom: "log_wf l \<Longrightarrow> log_at l i \<noteq> None \<longleftrightarrow> lastIncludedIndex l < i \<and> i \<le> LastIndex l"
  by (simp add: log_at_def log_wf_LastIndex)

lemma log_at_set: "e \<in> set (log_entries l) \<longleftrightarrow> (\<exists>i. log_at l i = Some e)"
proof
  assume "e \<in> set (log_entries l)"
  then obtain k where "k < length (log_entries l)" "log_entries l ! k = e" by (auto simp: in_set_conv_nth)
  then show "\<exists>i. log_at l i = Some e"
    by (intro exI [of _ "Suc (lastIncludedIndex l + k)"]) (simp add: log_at_def)
qed (auto simp: log_at_def split: if_splits)

section \<open>Each operation on the contents\<close>

lemma log_Append_next:
  assumes "log_wf l" "Suc (LastIndex l) < 2 ^ 64" "Index e = Suc (LastIndex l)"
  obtains l' where "log_Append l e = Inr l'" "log_wf l'" "lastIncludedIndex l' = lastIncludedIndex l"
    "lastIncludedTerm l' = lastIncludedTerm l"
    "LastIndex l' = Suc (LastIndex l)" "log_at l' = (log_at l)(Suc (LastIndex l) \<mapsto> e)"
proof
  let ?l = "l\<lparr>log_entries := log_entries l @ [e]\<rparr>"
  note last = log_wf_LastIndex [OF assms(1)]
  have ct: "contiguous (lastIncludedIndex ?l) (log_entries ?l)"
    using log_wf_contiguous [OF assms(1)] assms(3) by (simp add: contiguous_append last)
  show "log_Append l e = Inr ?l" using assms(2,3) by (simp add: log_Append_def inc64_Suc)
  show "LastIndex ?l = Suc (LastIndex l)" using LastIndex_length [OF ct] by (simp add: last)
  with ct assms(1,2) show "log_wf ?l" by (simp add: log_wf_def)
  show "log_at ?l = (log_at l)(Suc (LastIndex l) \<mapsto> e)"
    by (auto simp: log_at_def last nth_append fun_eq_iff)
qed simp_all

lemma log_Append_other: "Suc (LastIndex l) < 2 ^ 64 \<Longrightarrow> Index e \<noteq> Suc (LastIndex l) \<Longrightarrow>
    log_Append l e = Inl (Message ''invalid log index'')"
  by (simp add: log_Append_def inc64_Suc)

lemma TruncateFrom_spec:
  assumes "log_wf l" "lastIncludedIndex l < i"
  shows "log_wf (TruncateFrom l i)" "lastIncludedIndex (TruncateFrom l i) = lastIncludedIndex l"
    "lastIncludedTerm (TruncateFrom l i) = lastIncludedTerm l"
    "LastIndex (TruncateFrom l i) = min (LastIndex l) (i - 1)"
    "log_at (TruncateFrom l i) = (\<lambda>j. if j < i then log_at l j else None)"
proof -
  note ct = log_wf_contiguous [OF assms(1)]
  have eq: "TruncateFrom l i = l\<lparr>log_entries := take (i - Suc (lastIncludedIndex l)) (log_entries l)\<rparr>"
    using assms(2) contiguous_takeWhile [OF ct] by (simp add: TruncateFrom_def)
  have ct': "contiguous (lastIncludedIndex (TruncateFrom l i)) (log_entries (TruncateFrom l i))"
    using contiguous_take [OF ct] by (simp add: eq)
  show last: "LastIndex (TruncateFrom l i) = min (LastIndex l) (i - 1)"
    using LastIndex_length [OF ct'] log_wf_LastIndex [OF assms(1)] assms(2) by (auto simp: eq min_def)
  show "lastIncludedIndex (TruncateFrom l i) = lastIncludedIndex l"
    "lastIncludedTerm (TruncateFrom l i) = lastIncludedTerm l" by (simp_all add: eq)
  with last ct' assms(1) show "log_wf (TruncateFrom l i)" by (auto simp: log_wf_def min_def)
  show "log_at (TruncateFrom l i) = (\<lambda>j. if j < i then log_at l j else None)"
    using assms(2) by (auto simp: log_at_def eq fun_eq_iff)
qed

lemma log_drop_spec:
  assumes "log_wf l" "lastIncludedIndex l \<le> k" "k \<le> LastIndex l" "k = 0 \<longrightarrow> t = 0"
  defines "l' \<equiv> l\<lparr>log_entries := filter (\<lambda>e. k < Index e) (log_entries l), lastIncludedIndex := k,
    lastIncludedTerm := t\<rparr>"
  shows "log_wf l'" "LastIndex l' = LastIndex l" "log_at l' = (\<lambda>j. if k < j then log_at l j else None)"
proof -
  note ct = log_wf_contiguous [OF assms(1)] and last = log_wf_LastIndex [OF assms(1)]
  have eq: "log_entries l' = drop (k - lastIncludedIndex l) (log_entries l)"
    using contiguous_filter [OF ct assms(2)] by (simp add: l'_def)
  have ct': "contiguous (lastIncludedIndex l') (log_entries l')"
    using contiguous_drop [OF ct, of "k - lastIncludedIndex l"] assms(2,3) last
    by (simp only: eq) (simp add: l'_def)
  show last': "LastIndex l' = LastIndex l"
    using LastIndex_length [OF ct'] last assms(2,3) by (simp only: eq) (simp add: l'_def)
  with ct' assms(1,4) show "log_wf l'" by (simp only: log_wf_def) (simp add: l'_def)
  have base: "lastIncludedIndex l' = k" by (simp add: l'_def)
  show "log_at l' = (\<lambda>j. if k < j then log_at l j else None)"
    unfolding log_at_def eq base using assms(2) by (auto simp: fun_eq_iff)
qed

lemma log_Compact_cases:
  assumes "log_Compact l snap = Inr l'"
  obtains (Same) "l' = l" "LastIncludedIndex snap = lastIncludedIndex l"
    "LastIncludedTerm snap = lastIncludedTerm l"
  | (Moved) e where "lastIncludedIndex l < LastIncludedIndex snap" "LastIncludedIndex snap \<le> LastIndex l"
    "log_Get l (LastIncludedIndex snap) = Some e" "Term e = LastIncludedTerm snap"
    "l' = l\<lparr>log_entries := filter (\<lambda>e. LastIncludedIndex snap < Index e) (log_entries l),
       lastIncludedIndex := LastIncludedIndex snap, lastIncludedTerm := LastIncludedTerm snap\<rparr>"
  using assms
  by (auto simp: log_Compact_def not_less split: if_splits option.splits)

lemma log_Compact_spec:
  assumes "log_wf l" "log_Compact l snap = Inr l'"
  shows "log_wf l' \<and> LastIndex l' = LastIndex l \<and> lastIncludedIndex l' = LastIncludedIndex snap \<and>
    lastIncludedTerm l' = LastIncludedTerm snap \<and>
    log_at l' = (\<lambda>j. if LastIncludedIndex snap < j then log_at l j else None)"
  using assms(2)
proof (cases rule: log_Compact_cases)
  case Same
  with assms(1) show ?thesis by (auto simp: log_at_def fun_eq_iff)
next
  case (Moved e)
  then have "LastIncludedIndex snap = 0 \<longrightarrow> LastIncludedTerm snap = 0" by simp
  from log_drop_spec [OF assms(1) _ Moved(2) this] Moved show ?thesis by simp
qed

text \<open>
  Restoring a snapshot keeps the suffix behind the boundary when the log agrees with the snapshot
  there, and drops every entry otherwise.
\<close>

lemma log_RestoreSnapshot_spec:
  assumes "log_wf l" "lastIncludedIndex l < LastIncludedIndex snap" "LastIncludedIndex snap < 2 ^ 64"
  obtains l' where "log_RestoreSnapshot l snap = Inr l'" "log_wf l'"
    "lastIncludedIndex l' = LastIncludedIndex snap" "lastIncludedTerm l' = LastIncludedTerm snap"
    "log_at l' = (if \<exists>e. log_at l (LastIncludedIndex snap) = Some e \<and> Term e = LastIncludedTerm snap
       then (\<lambda>j. if LastIncludedIndex snap < j then log_at l j else None) else Map.empty)"
proof (cases "\<exists>e. log_at l (LastIncludedIndex snap) = Some e \<and> Term e = LastIncludedTerm snap")
  case True
  let ?l = "l\<lparr>log_entries := filter (\<lambda>e. LastIncludedIndex snap < Index e) (log_entries l),
      lastIncludedIndex := LastIncludedIndex snap, lastIncludedTerm := LastIncludedTerm snap\<rparr>"
  from True have "LastIncludedIndex snap \<le> LastIndex l"
    using log_at_dom [OF assms(1), of "LastIncludedIndex snap"] by auto
  moreover have "log_RestoreSnapshot l snap = Inr ?l"
    using assms(2) True by (auto simp: log_RestoreSnapshot_def log_Get_at [OF assms(1)])
  ultimately show ?thesis
    using log_drop_spec [OF assms(1), of "LastIncludedIndex snap" "LastIncludedTerm snap"] assms(2) True
    by (intro that [of ?l]) auto
next
  case False
  let ?l = "l\<lparr>log_entries := [], lastIncludedIndex := LastIncludedIndex snap,
      lastIncludedTerm := LastIncludedTerm snap\<rparr>"
  have "log_RestoreSnapshot l snap = Inr ?l"
    using assms(2) False
    by (auto simp: log_RestoreSnapshot_def log_Get_at [OF assms(1)] split: option.splits)
  with False assms(2,3) show ?thesis
    by (intro that [of ?l]) (auto simp: log_wf_def LastIndex_def log_at_def fun_eq_iff)
qed

section \<open>The log as a map from positions to entries\<close>

text \<open>The loop that appends entries one by one and stops at the first error.\<close>

fun log_append_all :: "raft_log \<Rightarrow> log_entry list \<Rightarrow> go_error option \<times> raft_log" where
  "log_append_all l [] = (None, l)"
| "log_append_all l (e # es) =
     (case log_Append l e of Inl err \<Rightarrow> (Some err, l) | Inr l' \<Rightarrow> log_append_all l' es)"

lemma log_append_all_contiguous:
  assumes "contiguous (LastIndex l) es" "LastIndex l + length es < 2 ^ 64"
  shows "log_append_all l es = (None, l\<lparr>log_entries := log_entries l @ es\<rparr>)"
  using assms
proof (induction es arbitrary: l)
  case (Cons e es)
  let ?l = "l\<lparr>log_entries := log_entries l @ [e]\<rparr>"
  have "log_Append l e = Inr ?l" using Cons.prems by (simp add: log_Append_def inc64_Suc)
  moreover have "LastIndex ?l = Suc (LastIndex l)" using Cons.prems(1) by (simp add: LastIndex_def)
  ultimately show ?case using Cons.IH [of ?l] Cons.prems by simp
qed simp

locale indexed_log =
  fixes base :: "'l \<Rightarrow> log_index" and final :: "'l \<Rightarrow> log_index"
    and at :: "'l \<Rightarrow> log_index \<Rightarrow> log_entry option"
    and append :: "'l \<Rightarrow> log_entry \<Rightarrow> 'l result" and truncate :: "'l \<Rightarrow> log_index \<Rightarrow> 'l"
    and inv :: "'l \<Rightarrow> bool"
  assumes at_dom: "inv l \<Longrightarrow> at l i \<noteq> None \<longleftrightarrow> base l < i \<and> i \<le> final l"
    and at_index: "inv l \<Longrightarrow> at l i = Some e \<Longrightarrow> Index e = i"
    and append_next: "inv l \<Longrightarrow> Suc (final l) < 2 ^ 64 \<Longrightarrow> Index e = Suc (final l) \<Longrightarrow>
      \<exists>l'. append l e = Inr l' \<and> inv l' \<and> base l' = base l \<and> final l' = Suc (final l) \<and>
        at l' = (at l)(Suc (final l) \<mapsto> e)"
    and truncate_spec: "inv l \<Longrightarrow> base l < i \<Longrightarrow> inv (truncate l i) \<and> base (truncate l i) = base l \<and>
      final (truncate l i) = min (final l) (i - 1) \<and>
      at (truncate l i) = (\<lambda>j. if j < i then at l j else None)"
begin

fun extend :: "'l \<Rightarrow> log_entry list \<Rightarrow> go_error option \<times> 'l" where
  "extend l [] = (None, l)"
| "extend l (e # es) = (case append l e of Inl err \<Rightarrow> (Some err, l) | Inr l' \<Rightarrow> extend l' es)"

lemma extend_spec:
  assumes "inv l" "contiguous (final l) es" "final l + length es < 2 ^ 64"
  shows "\<exists>l'. extend l es = (None, l') \<and> inv l' \<and> base l' = base l \<and> final l' = final l + length es \<and>
    at l' = (\<lambda>j. if final l < j \<and> j \<le> final l + length es then Some (es ! (j - Suc (final l))) else at l j)"
  using assms
proof (induction es arbitrary: l)
  case Nil
  then show ?case by (auto simp: fun_eq_iff)
next
  case (Cons e es)
  then have room: "Suc (final l) < 2 ^ 64" and next_index: "Index e = Suc (final l)" by auto
  from append_next [OF Cons.prems(1) room next_index] obtain l1 where
    l1: "append l e = Inr l1" "inv l1" "base l1 = base l" "final l1 = Suc (final l)"
      "at l1 = (at l)(Suc (final l) \<mapsto> e)" by blast
  from Cons.IH [OF l1(2)] Cons.prems(2,3) l1(4) obtain l' where
    l': "extend l1 es = (None, l')" "inv l'" "base l' = base l1" "final l' = final l1 + length es"
      "at l' = (\<lambda>j. if final l1 < j \<and> j \<le> final l1 + length es then Some (es ! (j - Suc (final l1))) else at l1 j)"
    by auto
  have "at l' = (\<lambda>j. if final l < j \<and> j \<le> final l + length (e # es)
      then Some ((e # es) ! (j - Suc (final l))) else at l j)"
    by (auto simp: l'(5) l1(4,5) fun_eq_iff nth_Cons split: nat.split) (metis Suc_diff_Suc Suc_leI diff_Suc_1 le_neq_implies_less)+
  with l' l1 show ?case by simp
qed

lemma overwrite_spec:
  assumes "inv l" "base l < i" "i \<le> Suc (final l)" "contiguous (i - 1) es" "i + length es < 2 ^ 64"
  shows "\<exists>l'. extend (truncate l i) es = (None, l') \<and> inv l' \<and> base l' = base l \<and>
    final l' = i - 1 + length es \<and>
    at l' = (\<lambda>j. if j < i then at l j else if j < i + length es then Some (es ! (j - i)) else None)"
proof -
  from truncate_spec [OF assms(1,2)] assms(3) have t: "inv (truncate l i)" "base (truncate l i) = base l"
    "final (truncate l i) = i - 1" "at (truncate l i) = (\<lambda>j. if j < i then at l j else None)" by auto
  have "i - 1 + length es < 2 ^ 64" using assms(5) by simp
  from extend_spec [OF t(1), unfolded t, OF assms(4) this] obtain l' where
    "extend (truncate l i) es = (None, l')" "inv l'" "base l' = base l" "final l' = i - 1 + length es"
    and at: "at l' = (\<lambda>j. if i - 1 < j \<and> j \<le> i - 1 + length es then Some (es ! (j - Suc (i - 1)))
      else if j < i then at l j else None)" by blast
  moreover have "at l' = (\<lambda>j. if j < i then at l j else if j < i + length es then Some (es ! (j - i)) else None)"
    using assms(2) by (auto simp: at fun_eq_iff)
  ultimately show ?thesis by blast
qed

end

interpretation lg: indexed_log lastIncludedIndex LastIndex log_at log_Append TruncateFrom log_wf
proof
  fix l :: raft_log and e i
  show "log_wf l \<Longrightarrow> log_at l i \<noteq> None \<longleftrightarrow> lastIncludedIndex l < i \<and> i \<le> LastIndex l" by (rule log_at_dom)
  show "log_wf l \<Longrightarrow> log_at l i = Some e \<Longrightarrow> Index e = i" by (rule log_at_index)
  show "log_wf l \<Longrightarrow> Suc (LastIndex l) < 2 ^ 64 \<Longrightarrow> Index e = Suc (LastIndex l) \<Longrightarrow>
      \<exists>l'. log_Append l e = Inr l' \<and> log_wf l' \<and> lastIncludedIndex l' = lastIncludedIndex l \<and>
        LastIndex l' = Suc (LastIndex l) \<and> log_at l' = (log_at l)(Suc (LastIndex l) \<mapsto> e)"
    by (metis log_Append_next)
  show "log_wf l \<Longrightarrow> lastIncludedIndex l < i \<Longrightarrow> log_wf (TruncateFrom l i) \<and>
      lastIncludedIndex (TruncateFrom l i) = lastIncludedIndex l \<and>
      LastIndex (TruncateFrom l i) = min (LastIndex l) (i - 1) \<and>
      log_at (TruncateFrom l i) = (\<lambda>j. if j < i then log_at l j else None)"
    by (simp add: TruncateFrom_spec)
qed

lemma log_append_all_extend: "log_append_all l es = lg.extend l es"
  by (induction es arbitrary: l) (auto split: sum.split)

end
