(* ===== verification/Storage_Iface.thy ===== *)
theory Storage_Iface
  imports Raft_Log
begin

text \<open>
  The interface \<^verbatim>\<open>storage.Storage\<close> as a record of operations, the validation functions every backend
  runs (\<^verbatim>\<open>wal_validate.go\<close>, \<^verbatim>\<open>wal_copy.go\<close>), and the contract \<open>raft_storage\<close> the Raft node relies on:
  a view of the stored state, log and snapshot, and the set of views a crash may leave behind.
  \<^verbatim>\<open>Close\<close> ends the use of a storage and is not part of the record.
\<close>

section \<open>Operations\<close>

record 's storage_ops =
  op_SaveState :: "persistent_state \<Rightarrow> 's \<Rightarrow> go_error option \<times> 's"
  op_LoadState :: "'s \<Rightarrow> persistent_state result"
  op_AppendEntries :: "log_entry list \<Rightarrow> 's \<Rightarrow> go_error option \<times> 's"
  op_ReplaceSuffix :: "log_index \<Rightarrow> log_entry list \<Rightarrow> 's \<Rightarrow> go_error option \<times> 's"
  op_LoadEntries :: "'s \<Rightarrow> log_entry list result"
  op_SaveSnapshot :: "snapshot \<Rightarrow> 's \<Rightarrow> go_error option \<times> 's"
  op_LoadSnapshot :: "'s \<Rightarrow> snapshot result"
  op_Compact :: "snapshot \<Rightarrow> 's \<Rightarrow> go_error option \<times> 's"
  op_Sync :: "'s \<Rightarrow> go_error option \<times> 's"

abbreviation ErrInvalidLog :: go_error where "ErrInvalidLog \<equiv> Sentinel ''invalid log''"
abbreviation ErrWALCorrupt :: go_error where "ErrWALCorrupt \<equiv> Sentinel ''wal corrupt''"
abbreviation ErrWALVersion :: go_error where "ErrWALVersion \<equiv> Sentinel ''unsupported wal version''"
abbreviation ErrWALDiskFull :: go_error where "ErrWALDiskFull \<equiv> Sentinel ''wal disk full''"
abbreviation ErrClosedStorage :: go_error where
  "ErrClosedStorage \<equiv> Sentinel ''error in closed storage''"

section \<open>Validation\<close>

text \<open>The loop of \<^verbatim>\<open>validateEntries\<close>: the first argument is the entry before the current one.\<close>

fun validate_after :: "log_entry option \<Rightarrow> log_entry list \<Rightarrow> go_error option" where
  "validate_after previous [] = None"
| "validate_after previous (entry # rest) =
     (if Index entry = 0 then Some (Wrapf ''entry has zero index'' [ErrInvalidLog])
      else case previous of
        Some p \<Rightarrow>
          if Index entry \<noteq> inc64 (Index p)
          then Some (Wrapf ''entry indexes are not contiguous'' [ErrInvalidLog])
          else validate_after (Some entry) rest
      | None \<Rightarrow> validate_after (Some entry) rest)"

definition validateEntries :: "log_entry list \<Rightarrow> go_error option" where
  "validateEntries entries = validate_after None entries"

definition validateLog :: "log_entry list \<Rightarrow> go_error option" where
  "validateLog entries = (if entries = [] then None else validateEntries entries)"

text \<open>Every caller passes a non-empty list of additions, so the Go index expression is in range.\<close>

definition validateAppend :: "log_entry list \<Rightarrow> log_entry list \<Rightarrow> go_error option" where
  "validateAppend existing additions =
     (if existing = [] then None
      else let expected = inc64 (Index (last existing))
           in if Index (hd additions) \<noteq> expected
              then Some (Wrapf ''append starts at index'' [ErrInvalidLog]) else None)"

definition validateReplaceSuffix ::
  "snapshot option \<Rightarrow> log_index \<Rightarrow> log_entry list \<Rightarrow> go_error option" where
  "validateReplaceSuffix snap from entries =
     (if from = 0
      then Some (Wrapf ''suffix replacement index must be greater than zero'' [ErrInvalidLog])
      else if (case snap of None \<Rightarrow> False | Some sn \<Rightarrow> from \<le> LastIncludedIndex sn)
      then Some (Wrapf ''suffix replacement index is at or before snapshot index'' [ErrInvalidLog])
      else case validateEntries entries of
        Some err \<Rightarrow> Some (Wrapf ''validate replacement entries'' [err])
      | None \<Rightarrow>
          if entries \<noteq> [] \<and> Index (hd entries) \<noteq> from
          then Some (Wrapf ''replacement starts at index'' [ErrInvalidLog]) else None)"

definition validateRecoveredAppend :: "log_entry list \<Rightarrow> log_entry list \<Rightarrow> go_error option" where
  "validateRecoveredAppend existing additions =
     (if additions = [] then None else validateAppend existing additions)"

definition validateSnapshot :: "snapshot \<Rightarrow> go_error option" where
  "validateSnapshot snap =
     (if LastIncludedIndex snap = 0
      then Some (Wrapf ''snapshot index must be greater than zero'' [ErrInvalidLog]) else None)"

definition validateRecoveredSnapshot :: "snapshot option \<Rightarrow> snapshot \<Rightarrow> go_error option" where
  "validateRecoveredSnapshot current snap =
     (case validateSnapshot snap of
        Some err \<Rightarrow> Some err
      | None \<Rightarrow>
        (case current of
           None \<Rightarrow> None
         | Some c \<Rightarrow>
             if LastIncludedIndex snap < LastIncludedIndex c
             then Some (Wrapf ''snapshot index moved backwards'' [ErrInvalidLog])
             else if LastIncludedIndex snap = LastIncludedIndex c \<and>
                     LastIncludedTerm snap \<noteq> LastIncludedTerm c
             then Some (Wrapf ''snapshot term changed at index'' [ErrInvalidLog])
             else None))"

definition appendEntriesCopy :: "log_entry list \<Rightarrow> log_entry list \<Rightarrow> log_entry list" where
  "appendEntriesCopy dst src = dst @ src"

definition replaceSuffixCopy ::
  "log_entry list \<Rightarrow> log_index \<Rightarrow> log_entry list \<Rightarrow> log_entry list" where
  "replaceSuffixCopy existing from replacement =
     appendEntriesCopy (takeWhile (\<lambda>entry. \<not> from \<le> Index entry) existing) replacement"

lemma validate_after_contiguous:
  assumes "contiguous b es" "b + length es < 2 ^ 64" "\<And>p. previous = Some p \<Longrightarrow> Index p = b"
  shows "validate_after previous es = None"
  using assms
proof (induction es arbitrary: b previous)
  case (Cons e es)
  then have "Index e = Suc b" "inc64 b = Suc b" by (simp_all add: inc64_Suc)
  with Cons.IH [of "Suc b" "Some e"] Cons.prems show ?case by (auto split: option.split)
qed simp

lemma validateEntries_contiguous:
  "contiguous b es \<Longrightarrow> b + length es < 2 ^ 64 \<Longrightarrow> validateEntries es = None"
  unfolding validateEntries_def by (rule validate_after_contiguous) auto

section \<open>Save, then sync\<close>

text \<open>The block every handler runs before it publishes a new persistent state.\<close>

definition persist :: "'s storage_ops \<Rightarrow> persistent_state \<Rightarrow> 's \<Rightarrow> go_error option \<times> 's" where
  "persist ops p s = (case op_SaveState ops p s of
     (Some err, s') \<Rightarrow> (Some err, s') | (None, s') \<Rightarrow> op_Sync ops s')"

section \<open>The contract\<close>

text \<open>
  \<open>view s\<close> is what the load operations return now, \<open>durable s\<close> what they may return after a crash.
  An operation that reports success has changed the view; one that reports an error has not, but the
  change may still have reached the disk.  A successful \<^verbatim>\<open>Sync\<close> leaves the view as the only durable
  state.
\<close>

record disk =
  d_state :: persistent_state
  d_entries :: "log_entry list"
  d_snapshot :: "snapshot option"

definition disk_snapshot :: "disk \<Rightarrow> snapshot" where
  "disk_snapshot d = (case d_snapshot d of None \<Rightarrow> zero_snapshot | Some sn \<Rightarrow> sn)"

definition compacted :: "snapshot \<Rightarrow> disk \<Rightarrow> disk" where
  "compacted sn d = d\<lparr>d_entries := filter (\<lambda>e. LastIncludedIndex sn < Index e) (d_entries d)\<rparr>"

text \<open>The result \<open>(r, s')\<close> of an operation on \<open>s\<close> whose effect on the view is \<open>f\<close>.\<close>

definition writes ::
  "('s \<Rightarrow> disk) \<Rightarrow> ('s \<Rightarrow> disk set) \<Rightarrow> 's \<Rightarrow> disk \<Rightarrow> go_error option \<times> 's \<Rightarrow> bool" where
  "writes view durable s d rs \<longleftrightarrow>
     view (snd rs) = (if fst rs = None then d else view s) \<and>
     durable (snd rs) \<subseteq> insert d (durable s)"

locale raft_storage =
  fixes ops :: "'s storage_ops" and view :: "'s \<Rightarrow> disk" and durable :: "'s \<Rightarrow> disk set"
    and sinv :: "'s \<Rightarrow> bool"
  assumes view_durable: "sinv s \<Longrightarrow> view s \<in> durable s"
    and SaveState: "sinv s \<Longrightarrow> sinv (snd (op_SaveState ops p s)) \<and>
      writes view durable s ((view s)\<lparr>d_state := p\<rparr>) (op_SaveState ops p s)"
    and AppendEntries: "sinv s \<Longrightarrow> sinv (snd (op_AppendEntries ops es s)) \<and>
      writes view durable s ((view s)\<lparr>d_entries := d_entries (view s) @ es\<rparr>) (op_AppendEntries ops es s)"
    and ReplaceSuffix: "sinv s \<Longrightarrow> sinv (snd (op_ReplaceSuffix ops i es s)) \<and>
      writes view durable s ((view s)\<lparr>d_entries := replaceSuffixCopy (d_entries (view s)) i es\<rparr>)
        (op_ReplaceSuffix ops i es s)"
    and SaveSnapshot: "sinv s \<Longrightarrow> sinv (snd (op_SaveSnapshot ops sn s)) \<and>
      writes view durable s ((view s)\<lparr>d_snapshot := Some sn\<rparr>) (op_SaveSnapshot ops sn s)"
    and Compact: "sinv s \<Longrightarrow> sinv (snd (op_Compact ops sn s)) \<and>
      (\<exists>sn'. writes view durable s (compacted sn ((view s)\<lparr>d_snapshot := sn'\<rparr>)) (op_Compact ops sn s) \<and>
        sn' \<in> {d_snapshot (view s), Some sn})"
    and Sync: "sinv s \<Longrightarrow> sinv (snd (op_Sync ops s)) \<and> view (snd (op_Sync ops s)) = view s \<and>
      (if fst (op_Sync ops s) = None then durable (snd (op_Sync ops s)) = {view s}
       else durable (snd (op_Sync ops s)) \<subseteq> durable s)"
    and LoadState: "sinv s \<Longrightarrow> op_LoadState ops s = Inr p \<Longrightarrow> p = d_state (view s)"
    and LoadEntries: "sinv s \<Longrightarrow> op_LoadEntries ops s = Inr es \<Longrightarrow> es = d_entries (view s)"
    and LoadSnapshot: "sinv s \<Longrightarrow> op_LoadSnapshot ops s = Inr sn \<Longrightarrow> sn = disk_snapshot (view s)"
begin

text \<open>
  After \<open>persist\<close> succeeds, the saved state is what any crash leaves behind; when it fails, a crash
  leaves either the saved state or one that could have been left before.
\<close>

lemma persist_spec:
  assumes "sinv s" "persist ops p s = (r, s')"
  shows "sinv s'" "durable s' \<subseteq> insert ((view s)\<lparr>d_state := p\<rparr>) (durable s)"
    "r = None \<Longrightarrow> view s' = (view s)\<lparr>d_state := p\<rparr> \<and> durable s' = {(view s)\<lparr>d_state := p\<rparr>}"
proof -
  obtain r1 s1 where 1: "op_SaveState ops p s = (r1, s1)" by fastforce
  from SaveState [OF assms(1), of p] 1 have s1: "sinv s1"
    "view s1 = (if r1 = None then (view s)\<lparr>d_state := p\<rparr> else view s)"
    "durable s1 \<subseteq> insert ((view s)\<lparr>d_state := p\<rparr>) (durable s)"
    by (simp_all add: writes_def)
  show "sinv s'" using assms(2) 1 s1 Sync [OF s1(1)] by (auto simp: persist_def split: option.splits)
  show "r = None \<Longrightarrow> view s' = (view s)\<lparr>d_state := p\<rparr> \<and> durable s' = {(view s)\<lparr>d_state := p\<rparr>}"
    using assms(2) 1 s1 Sync [OF s1(1)] by (auto simp: persist_def split: option.splits)
  show "durable s' \<subseteq> insert ((view s)\<lparr>d_state := p\<rparr>) (durable s)"
    using assms(2) 1 s1 Sync [OF s1(1)] view_durable [OF s1(1)]
    by (cases r1; cases "fst (op_Sync ops s1) = None") (fastforce simp: persist_def)+
qed

end

text \<open>
  The contract with crashes: \<open>recovers s s'\<close> says that a node which crashed with storage \<open>s\<close> may reopen it
  as \<open>s'\<close>, and \<open>fresh\<close> holds of the storages of a node that has never run.
\<close>

locale crash_storage = raft_storage +
  fixes recovers :: "'a \<Rightarrow> 'a \<Rightarrow> bool" and fresh :: "'a \<Rightarrow> bool"
  assumes recovers: "sinv s \<Longrightarrow> recovers s s' \<Longrightarrow> sinv s' \<and> view s' \<in> durable s \<and> durable s' = {view s'}"
    and fresh: "fresh s \<Longrightarrow> sinv s \<and> durable s = {view s} \<and>
      view s = \<lparr>d_state = zero_persistent_state, d_entries = [], d_snapshot = None\<rparr>"

end
