(* ===== verification/Storage_Memory.thy ===== *)
theory Storage_Memory
  imports Storage_Iface
begin

text \<open>
  The in-memory backend \<^verbatim>\<open>storage.MemoryStorage\<close>.  A crash of the node that uses it leaves the storage
  object as it is, so its view is its only durable state; the interpretation at the end shows that
  it meets the contract of the node.
\<close>

record memory_storage =
  ms_state :: persistent_state
  ms_entries :: "log_entry list"
  ms_snapshot :: "snapshot option"

definition NewMemoryStorage :: memory_storage where
  "NewMemoryStorage = \<lparr>ms_state = zero_persistent_state, ms_entries = [], ms_snapshot = None\<rparr>"

definition mem_SaveSnapshot :: "snapshot \<Rightarrow> memory_storage \<Rightarrow> go_error option \<times> memory_storage" where
  "mem_SaveSnapshot snap s = (None, s\<lparr>ms_snapshot := Some snap\<rparr>)"

definition mem_LoadSnapshot :: "memory_storage \<Rightarrow> snapshot result" where
  "mem_LoadSnapshot s = Inr (case ms_snapshot s of None \<Rightarrow> zero_snapshot | Some snap \<Rightarrow> snap)"

definition mem_SaveState :: "persistent_state \<Rightarrow> memory_storage \<Rightarrow> go_error option \<times> memory_storage" where
  "mem_SaveState st s = (None, s\<lparr>ms_state := st\<rparr>)"

definition mem_LoadState :: "memory_storage \<Rightarrow> persistent_state result" where
  "mem_LoadState s = Inr (ms_state s)"

definition mem_AppendEntries :: "log_entry list \<Rightarrow> memory_storage \<Rightarrow> go_error option \<times> memory_storage" where
  "mem_AppendEntries entries s =
     (if entries = [] then (None, s)
      else case validateEntries entries of
        Some err \<Rightarrow> (Some (Wrapf ''validate entries'' [err]), s)
      | None \<Rightarrow>
        (case validateAppend (ms_entries s) entries of
           Some err \<Rightarrow> (Some err, s)
         | None \<Rightarrow> (None, s\<lparr>ms_entries := ms_entries s @ entries\<rparr>)))"

definition mem_LoadEntries :: "memory_storage \<Rightarrow> log_entry list result" where
  "mem_LoadEntries s = Inr (ms_entries s)"

definition mem_Sync :: "memory_storage \<Rightarrow> go_error option \<times> memory_storage" where
  "mem_Sync s = (None, s)"

definition mem_ReplaceSuffix ::
  "log_index \<Rightarrow> log_entry list \<Rightarrow> memory_storage \<Rightarrow> go_error option \<times> memory_storage" where
  "mem_ReplaceSuffix fromIndex entries s =
     (case validateReplaceSuffix (ms_snapshot s) fromIndex entries of
        Some err \<Rightarrow> (Some err, s)
      | None \<Rightarrow>
          let keep = length (takeWhile (\<lambda>e. Index e < fromIndex) (ms_entries s));
              kept = (if keep < length (ms_entries s) then take keep (ms_entries s) else ms_entries s)
          in (None, s\<lparr>ms_entries := kept @ entries\<rparr>))"

definition mem_Compact :: "snapshot \<Rightarrow> memory_storage \<Rightarrow> go_error option \<times> memory_storage" where
  "mem_Compact snap s =
     (if LastIncludedIndex snap = 0 then (Some (Message ''cannot compact at snapshot index 0''), s)
      else case ms_snapshot s of
        None \<Rightarrow> (Some (Message ''cannot compact without persisted snapshot''), s)
      | Some stored \<Rightarrow>
          if LastIncludedIndex stored \<noteq> LastIncludedIndex snap
          then (Some (Message ''snapshot index mismatch''), s)
          else (None, s\<lparr>ms_entries := filter (\<lambda>e. LastIncludedIndex snap < Index e) (ms_entries s)\<rparr>))"

definition memory_ops :: "memory_storage storage_ops" where
  "memory_ops = \<lparr>op_SaveState = mem_SaveState, op_LoadState = mem_LoadState,
     op_AppendEntries = mem_AppendEntries, op_ReplaceSuffix = mem_ReplaceSuffix,
     op_LoadEntries = mem_LoadEntries, op_SaveSnapshot = mem_SaveSnapshot,
     op_LoadSnapshot = mem_LoadSnapshot, op_Compact = mem_Compact, op_Sync = mem_Sync\<rparr>"

lemmas memory_defs = memory_ops_def mem_SaveState_def mem_LoadState_def mem_AppendEntries_def
  mem_ReplaceSuffix_def mem_LoadEntries_def mem_SaveSnapshot_def mem_LoadSnapshot_def mem_Compact_def
  mem_Sync_def

section \<open>The contract\<close>

definition mem_view :: "memory_storage \<Rightarrow> disk" where
  "mem_view s = \<lparr>d_state = ms_state s, d_entries = ms_entries s, d_snapshot = ms_snapshot s\<rparr>"

lemma takeWhile_take: "take (length (takeWhile P xs)) xs = takeWhile P xs"
  by (rule takeWhile_eq_take [symmetric])

lemma kept_takeWhile:
  "(if length (takeWhile P xs) < length xs then take (length (takeWhile P xs)) xs else xs) = takeWhile P xs"
proof (cases "length (takeWhile P xs) < length xs")
  case False
  then have "take (length (takeWhile P xs)) xs = xs" by (intro take_all) simp
  with False show ?thesis by (simp only: takeWhile_take if_False)
qed (simp add: takeWhile_take)

interpretation ms: raft_storage memory_ops mem_view "\<lambda>s. {mem_view s}" "\<lambda>_. True"
proof
  fix s p es i sn
  show "True \<and> writes mem_view (\<lambda>s. {mem_view s}) s ((mem_view s)\<lparr>d_state := p\<rparr>) (op_SaveState memory_ops p s)"
    by (simp add: memory_defs mem_view_def writes_def)
  show "True \<and> writes mem_view (\<lambda>s. {mem_view s}) s
      ((mem_view s)\<lparr>d_entries := d_entries (mem_view s) @ es\<rparr>) (op_AppendEntries memory_ops es s)"
    by (auto simp: memory_defs mem_view_def writes_def split: option.split)
  show "True \<and> writes mem_view (\<lambda>s. {mem_view s}) s
      ((mem_view s)\<lparr>d_entries := replaceSuffixCopy (d_entries (mem_view s)) i es\<rparr>)
      (op_ReplaceSuffix memory_ops i es s)"
    by (auto simp: memory_defs mem_view_def writes_def replaceSuffixCopy_def appendEntriesCopy_def Let_def
        kept_takeWhile not_le split: option.split)
  show "True \<and> (\<exists>sn'. writes mem_view (\<lambda>s. {mem_view s}) s
      (compacted sn ((mem_view s)\<lparr>d_snapshot := sn'\<rparr>)) (op_Compact memory_ops sn s) \<and>
      sn' \<in> {d_snapshot (mem_view s), Some sn})"
    by (auto simp: memory_defs mem_view_def writes_def compacted_def split: option.split)
qed (simp_all add: memory_defs mem_view_def writes_def disk_snapshot_def)

lemma memory_never_fails [simp]:
  "fst (op_SaveState memory_ops p s) = None" "fst (op_Sync memory_ops s) = None"
  "fst (op_SaveSnapshot memory_ops sn s) = None" "fst (persist memory_ops p s) = None"
  by (simp_all add: memory_defs persist_def)

interpretation mc: crash_storage memory_ops mem_view "\<lambda>s. {mem_view s}" "\<lambda>_. True" "(=)" "(=) NewMemoryStorage"
  by unfold_locales (auto simp: mem_view_def NewMemoryStorage_def)

end
