(* ===== verification/Raft_Node.thy ===== *)
theory Raft_Node
  imports Raft_Membership Storage_Memory
begin

text \<open>
  The state of \<^verbatim>\<open>raft.RaftNode\<close>, its construction from a storage, its role changes and its timers
  (\<^verbatim>\<open>types.go\<close>, \<^verbatim>\<open>state.go\<close>, \<^verbatim>\<open>node.go\<close>, \<^verbatim>\<open>node_role.go\<close>, \<^verbatim>\<open>node_helpers.go\<close>, \<^verbatim>\<open>node_config.go\<close>,
  \<^verbatim>\<open>node_lifecycle.go\<close>, \<^verbatim>\<open>node_heartbeat.go\<close>).  Every section a handler runs under the node mutex is one
  function from node to node.  The storage is a component of the node; its operations are an
  argument, as the Go interface value is.  The transport is the environment: a field says whether one
  is set.  Loggers, metrics, the election start time (a metric) and the goroutine bookkeeping of
  \<^verbatim>\<open>Start\<close> and \<^verbatim>\<open>Stop\<close> are left out.
\<close>

section \<open>Messages\<close>

record request_vote_args =
  rv_Term :: raft_term
  rv_CandidateID :: node_id
  rv_LastLogIndex :: log_index
  rv_LastLogTerm :: raft_term

record request_vote_reply =
  rvr_Term :: raft_term
  rvr_VoterID :: node_id
  rvr_VoteGranted :: bool

record pre_vote_args =
  pv_Term :: raft_term
  pv_CandidateID :: node_id
  pv_LastLogIndex :: log_index
  pv_LastLogTerm :: raft_term

record pre_vote_reply =
  pvr_Term :: raft_term
  pvr_VoterID :: node_id
  pvr_VoteGranted :: bool

record append_entries_args =
  ae_Term :: raft_term
  ae_LeaderID :: node_id
  ae_PrevLogIndex :: log_index
  ae_PrevLogTerm :: raft_term
  ae_Entries :: "log_entry list"
  ae_LeaderCommit :: log_index

record append_entries_reply =
  aer_Term :: raft_term
  aer_FollowerID :: node_id
  aer_Success :: bool

record install_snapshot_args =
  is_Term :: raft_term
  is_LeaderID :: node_id
  is_LastIncludedIndex :: log_index
  is_LastIncludedTerm :: raft_term
  is_Data :: bytes

record install_snapshot_reply =
  isr_Term :: raft_term
  isr_FollowerID :: node_id
  isr_Success :: bool

section \<open>The node\<close>

datatype role = Follower | Candidate | Leader

record volatile_state =
  CommitIndex :: log_index
  LastApplied :: log_index

record leader_state =
  NextIndex :: "(node_id, log_index) fmap"
  MatchIndex :: "(node_id, log_index) fmap"

record election_state =
  VotesReceived :: "node_id set"

record node_state =
  Persistent :: persistent_state
  Volatile :: volatile_state
  LeaderProgress :: leader_state
  Election :: election_state
  Role :: role
  LeaderID :: node_id

record 's raft_node =
  n_id :: node_id
  n_state :: node_state
  n_log :: raft_log
  n_transport :: bool
  n_peerIDs :: "node_id list"
  n_storage :: 's
  n_snapshotRestore :: bool
  n_electionElapsed :: int
  n_electionTimeout :: int
  n_storageWriteBlocked :: bool
  n_heartbeatElapsed :: int
  n_heartbeatTimeout :: int

text \<open>Reading a Go map at an absent key gives the zero value.\<close>

definition map_index :: "('k, nat) fmap \<Rightarrow> 'k \<Rightarrow> nat" where
  "map_index m k = (case fmlookup m k of None \<Rightarrow> 0 | Some v \<Rightarrow> v)"

abbreviation node_persistent :: "'s raft_node \<Rightarrow> persistent_state" where
  "node_persistent n \<equiv> Persistent (n_state n)"

abbreviation node_role :: "'s raft_node \<Rightarrow> role" where
  "node_role n \<equiv> Role (n_state n)"

abbreviation node_term :: "'s raft_node \<Rightarrow> raft_term" where
  "node_term n \<equiv> CurrentTerm (Persistent (n_state n))"

abbreviation node_membership :: "'s raft_node \<Rightarrow> membership" where
  "node_membership n \<equiv> Membership (Persistent (n_state n))"

abbreviation node_commit :: "'s raft_node \<Rightarrow> log_index" where
  "node_commit n \<equiv> CommitIndex (Volatile (n_state n))"

section \<open>Construction\<close>

definition NewRaftNodeWithStorage :: "'s storage_ops \<Rightarrow> node_id \<Rightarrow> 's \<Rightarrow> 's raft_node result" where
  "NewRaftNodeWithStorage ops nid store =
     (case op_LoadState ops store of
        Inl err \<Rightarrow> Inl (Wrapf ''load persistent state'' [err])
      | Inr persistentState \<Rightarrow>
     (case op_LoadEntries ops store of
        Inl err \<Rightarrow> Inl (Wrapf ''load log entries'' [err])
      | Inr entries \<Rightarrow>
     (case op_LoadSnapshot ops store of
        Inl err \<Rightarrow> Inl (Wrapf ''load snapshot'' [err])
      | Inr snap \<Rightarrow>
     (case log_append_all NewLog entries of
        (Some err, _) \<Rightarrow> Inl (Wrapf ''restore log entry'' [err])
      | (None, log) \<Rightarrow>
        let node = (\<lambda>log' index. \<lparr>n_id = nid,
              n_state = \<lparr>Persistent = persistentState,
                         Volatile = \<lparr>CommitIndex = index, LastApplied = index\<rparr>,
                         LeaderProgress = \<lparr>NextIndex = fmempty, MatchIndex = fmempty\<rparr>,
                         Election = \<lparr>VotesReceived = {}\<rparr>, Role = Follower, LeaderID = []\<rparr>,
              n_log = log', n_transport = True, n_peerIDs = [], n_storage = store,
              n_snapshotRestore = False, n_electionElapsed = 0, n_electionTimeout = 10,
              n_storageWriteBlocked = False, n_heartbeatElapsed = 0, n_heartbeatTimeout = 1\<rparr>)
        in if LastIncludedIndex snap > 0 then
             (case log_RestoreSnapshot log snap of
                Inl err \<Rightarrow> Inl (Wrapf ''restore snapshot boundary'' [err])
              | Inr log' \<Rightarrow> Inr (node log' (LastIncludedIndex snap)))
           else Inr (node log 0)))))"

definition node_Snapshot :: "'s storage_ops \<Rightarrow> 's raft_node \<Rightarrow> snapshot result" where
  "node_Snapshot ops n =
     (case op_LoadSnapshot ops (n_storage n) of
        Inl err \<Rightarrow> Inl (Wrapf ''load snapshot'' [err])
      | Inr snap \<Rightarrow> Inr snap)"

definition SetTransport :: "'s raft_node \<Rightarrow> node_id list \<Rightarrow> 's raft_node" where
  "SetTransport n peerIDs = n\<lparr>n_transport := True, n_peerIDs := peerIDs\<rparr>"

definition RegisterPeer :: "'s raft_node \<Rightarrow> node_id \<Rightarrow> go_error option \<times> 's raft_node" where
  "RegisterPeer n peerID =
     (if peerID = [] then (Some (Message ''raft peer ID is required''), n)
      else if peerID = n_id n then (Some (Message ''cannot register self as peer''), n)
      else if peerID \<in> set (n_peerIDs n) then (Some (Message ''raft peer already registered''), n)
      else (None, n\<lparr>n_peerIDs := n_peerIDs n @ [peerID]\<rparr>))"

definition SetSnapshotRestore :: "'s raft_node \<Rightarrow> 's raft_node" where
  "SetSnapshotRestore n = n\<lparr>n_snapshotRestore := True\<rparr>"

section \<open>Role changes\<close>

definition persistStateLocked :: "'s storage_ops \<Rightarrow> 's raft_node \<Rightarrow> go_error option \<times> 's raft_node" where
  "persistStateLocked ops n =
     (case op_SaveState ops (node_persistent n) (n_storage n) of
        (Some err, s) \<Rightarrow> (Some (Wrapf ''save persistent state'' [err]), n\<lparr>n_storage := s\<rparr>)
      | (None, s) \<Rightarrow>
        (case op_Sync ops s of
           (Some err, s') \<Rightarrow> (Some (Wrapf ''sync persistent state'' [err]), n\<lparr>n_storage := s'\<rparr>)
         | (None, s') \<Rightarrow> (None, n\<lparr>n_storage := s'\<rparr>)))"

definition becomeFollowerLocked ::
  "'s storage_ops \<Rightarrow> raft_term \<Rightarrow> 's raft_node \<Rightarrow> go_error option \<times> 's raft_node" where
  "becomeFollowerLocked ops term n =
     (let persistentState = (node_persistent n)\<lparr>CurrentTerm := term, VotedFor := []\<rparr>
      in case op_SaveState ops persistentState (n_storage n) of
        (Some err, s) \<Rightarrow> (Some (Wrapf ''persist follower transition'' [err]), n\<lparr>n_storage := s\<rparr>)
      | (None, s) \<Rightarrow>
        (case op_Sync ops s of
           (Some err, s') \<Rightarrow> (Some (Wrapf ''sync follower transition'' [err]), n\<lparr>n_storage := s'\<rparr>)
         | (None, s') \<Rightarrow>
             (None, n\<lparr>n_storage := s',
                      n_state := (n_state n)\<lparr>Persistent := persistentState, Role := Follower, LeaderID := []\<rparr>,
                      n_electionElapsed := 0\<rparr>)))"

definition stepDownForStorageFailureLocked :: "'s raft_node \<Rightarrow> 's raft_node" where
  "stepDownForStorageFailureLocked n =
     n\<lparr>n_state := (n_state n)\<lparr>Role := Follower, LeaderID := []\<rparr>, n_storageWriteBlocked := True,
       n_electionElapsed := 0\<rparr>"

definition set_progress :: "node_id \<Rightarrow> log_index \<Rightarrow> log_index \<Rightarrow> leader_state \<Rightarrow> leader_state" where
  "set_progress peerID nextIndex matchIndex ls =
     ls\<lparr>NextIndex := fmupd peerID nextIndex (NextIndex ls),
        MatchIndex := fmupd peerID matchIndex (MatchIndex ls)\<rparr>"

definition initializeReplicationStateLocked :: "node_id \<Rightarrow> 's raft_node \<Rightarrow> 's raft_node" where
  "initializeReplicationStateLocked peerID n =
     n\<lparr>n_state := (n_state n)\<lparr>LeaderProgress :=
         set_progress peerID (inc64 (LastIndex (n_log n))) 0 (LeaderProgress (n_state n))\<rparr>\<rparr>"

definition initializeNewPeerReplicationStateLocked :: "node_id \<Rightarrow> 's raft_node \<Rightarrow> 's raft_node" where
  "initializeNewPeerReplicationStateLocked peerID n =
     n\<lparr>n_state := (n_state n)\<lparr>LeaderProgress := set_progress peerID 1 0 (LeaderProgress (n_state n))\<rparr>\<rparr>"

definition becomeLeaderLocked :: "'s raft_node \<Rightarrow> 's raft_node" where
  "becomeLeaderLocked n =
     fold initializeReplicationStateLocked (n_peerIDs n)
       (n\<lparr>n_state := (n_state n)\<lparr>Role := Leader, LeaderID := n_id n\<rparr>, n_electionElapsed := 0,
          n_heartbeatElapsed := 0\<rparr>)"

section \<open>Timers\<close>

definition tick :: "'s raft_node \<Rightarrow> (bool \<times> bool) \<times> 's raft_node" where
  "tick n =
     (if node_role n = Leader then
        let elapsed = n_heartbeatElapsed n + 1
        in if elapsed \<ge> n_heartbeatTimeout n then ((False, True), n\<lparr>n_heartbeatElapsed := 0\<rparr>)
           else ((False, False), n\<lparr>n_heartbeatElapsed := elapsed\<rparr>)
      else
        let elapsed = n_electionElapsed n + 1
        in ((elapsed \<ge> n_electionTimeout n, False), n\<lparr>n_electionElapsed := elapsed\<rparr>))"

definition heartbeatDue :: "'s raft_node \<Rightarrow> bool \<times> 's raft_node" where
  "heartbeatDue n =
     (if node_role n \<noteq> Leader then (False, n)
      else let elapsed = n_heartbeatElapsed n + 1
           in if elapsed < n_heartbeatTimeout n then (False, n\<lparr>n_heartbeatElapsed := elapsed\<rparr>)
              else (True, n\<lparr>n_heartbeatElapsed := 0\<rparr>))"

definition SetElectionTimeout :: "'s raft_node \<Rightarrow> int \<Rightarrow> 's raft_node" where
  "SetElectionTimeout n timeout = n\<lparr>n_electionTimeout := timeout\<rparr>"

definition resetElectionTimer :: "'s raft_node \<Rightarrow> 's raft_node" where
  "resetElectionTimer n = n\<lparr>n_electionElapsed := 0\<rparr>"

end
