(* ===== verification/Raft_Election.thy ===== *)
theory Raft_Election
  imports Raft_Node
begin

text \<open>
  Elections (\<^verbatim>\<open>node_election.go\<close>).  \<^verbatim>\<open>runPreVote\<close>, \<^verbatim>\<open>requestVotes\<close> and \<^verbatim>\<open>runElection\<close> release the node
  mutex around every RPC; they appear here as the sections between the RPCs: what is sent, and what is
  done with each reply.
\<close>

section \<open>Votes\<close>

definition isCandidateLogUpToDate :: "'s raft_node \<Rightarrow> log_index \<Rightarrow> raft_term \<Rightarrow> bool" where
  "isCandidateLogUpToDate n lastLogIndex lastLogTerm =
     (let localLastTerm = LastTerm (n_log n); localLastIndex = LastIndex (n_log n)
      in if lastLogTerm \<noteq> localLastTerm then localLastTerm < lastLogTerm
         else localLastIndex \<le> lastLogIndex)"

definition recordVote :: "node_id \<Rightarrow> raft_term \<Rightarrow> bool \<Rightarrow> 's raft_node \<Rightarrow> bool \<times> 's raft_node" where
  "recordVote peerID term granted n =
     (if node_role n \<noteq> Candidate then (False, n)
      else if term \<noteq> node_term n then (False, n)
      else if \<not> granted then (False, n)
      else if \<not> membershipIsVoter (node_membership n) peerID then (False, n)
      else if peerID \<in> VotesReceived (Election (n_state n)) then (False, n)
      else (True, n\<lparr>n_state := (n_state n)\<lparr>Election :=
              \<lparr>VotesReceived = insert peerID (VotesReceived (Election (n_state n)))\<rparr>\<rparr>\<rparr>))"

definition tryBecomeLeader :: "'s raft_node \<Rightarrow> bool \<times> 's raft_node" where
  "tryBecomeLeader n =
     (if node_role n \<noteq> Candidate then (False, n)
      else if \<not> membershipHasQuorum (node_membership n) (VotesReceived (Election (n_state n)))
      then (False, n)
      else (True, becomeLeaderLocked n))"

definition startElection :: "'s storage_ops \<Rightarrow> 's raft_node \<Rightarrow> raft_term result \<times> 's raft_node" where
  "startElection ops n =
     (if \<not> membershipIsVoter (node_membership n) (n_id n)
      then (Inl (Message ''node is not a voter''), n)
      else if n_storageWriteBlocked n then (Inl (Message ''storage writes are blocked''), n)
      else
        let persistentState =
              (node_persistent n)\<lparr>CurrentTerm := inc64 (node_term n), VotedFor := n_id n\<rparr>
        in case persist ops persistentState (n_storage n) of
          (Some err, s) \<Rightarrow> (Inl err, n\<lparr>n_storage := s\<rparr>)
        | (None, s) \<Rightarrow>
            (Inr (CurrentTerm persistentState),
             n\<lparr>n_storage := s,
               n_state := (n_state n)\<lparr>Persistent := persistentState, Role := Candidate, LeaderID := [],
                                     Election := \<lparr>VotesReceived = {n_id n}\<rparr>\<rparr>,
               n_electionElapsed := 0\<rparr>))"

text \<open>What \<^verbatim>\<open>requestVotes\<close> sends, and to whom; \<open>None\<close> when it returns without sending.\<close>

definition requestVotes :: "'s raft_node \<Rightarrow> (node_id list \<times> request_vote_args) option" where
  "requestVotes n =
     (if node_role n \<noteq> Candidate \<or> \<not> membershipIsVoter (node_membership n) (n_id n) then None
      else if \<not> n_transport n then None
      else Some (n_peerIDs n,
             \<lparr>rv_Term = node_term n, rv_CandidateID = n_id n, rv_LastLogIndex = LastIndex (n_log n),
              rv_LastLogTerm = LastTerm (n_log n)\<rparr>))"

text \<open>
  The block that adopts a higher term; \<open>False\<close> is the early return of the handler when
  the new term cannot be made durable.
\<close>

definition adopt_term :: "'s storage_ops \<Rightarrow> raft_term \<Rightarrow> 's raft_node \<Rightarrow> bool \<times> 's raft_node" where
  "adopt_term ops term n =
     (let persistentState = (node_persistent n)\<lparr>CurrentTerm := term, VotedFor := []\<rparr>
      in case persist ops persistentState (n_storage n) of
        (Some err, s) \<Rightarrow> (False, n\<lparr>n_storage := s\<rparr>)
      | (None, s) \<Rightarrow>
          (True, n\<lparr>n_storage := s,
                   n_state := (n_state n)\<lparr>Persistent := persistentState, Role := Follower, LeaderID := []\<rparr>\<rparr>))"

definition grant_vote ::
  "'s storage_ops \<Rightarrow> request_vote_args \<Rightarrow> 's raft_node \<Rightarrow> request_vote_reply \<times> 's raft_node" where
  "grant_vote ops args n =
     (let reply = \<lparr>rvr_Term = node_term n, rvr_VoterID = n_id n, rvr_VoteGranted = False\<rparr>
      in if \<not> membershipIsVoter (node_membership n) (rv_CandidateID args) then (reply, n)
         else if VotedFor (node_persistent n) \<noteq> [] \<and>
                 VotedFor (node_persistent n) \<noteq> rv_CandidateID args then (reply, n)
         else if \<not> isCandidateLogUpToDate n (rv_LastLogIndex args) (rv_LastLogTerm args) then (reply, n)
         else
           let persistentState = (node_persistent n)\<lparr>VotedFor := rv_CandidateID args\<rparr>
           in case persist ops persistentState (n_storage n) of
             (Some err, s) \<Rightarrow> (reply, n\<lparr>n_storage := s\<rparr>)
           | (None, s) \<Rightarrow>
               (reply\<lparr>rvr_VoteGranted := True\<rparr>,
                n\<lparr>n_storage := s, n_state := (n_state n)\<lparr>Persistent := persistentState\<rparr>,
                  n_electionElapsed := 0\<rparr>))"

definition RequestVote ::
  "'s storage_ops \<Rightarrow> request_vote_args \<Rightarrow> 's raft_node \<Rightarrow> request_vote_reply \<times> 's raft_node" where
  "RequestVote ops args n =
     (let reply = \<lparr>rvr_Term = node_term n, rvr_VoterID = n_id n, rvr_VoteGranted = False\<rparr>
      in if rv_Term args < node_term n then (reply, n)
         else if rv_Term args > node_term n then
           (case adopt_term ops (rv_Term args) n of
              (False, n') \<Rightarrow> (reply, n')
            | (True, n') \<Rightarrow> grant_vote ops args n')
         else grant_vote ops args n)"

definition handleVoteReply ::
  "'s storage_ops \<Rightarrow> raft_term \<Rightarrow> request_vote_reply \<Rightarrow> 's raft_node \<Rightarrow> 's raft_node" where
  "handleVoteReply ops electionTerm reply n =
     (if rvr_Term reply > node_term n then
        let persistentState = (node_persistent n)\<lparr>CurrentTerm := rvr_Term reply, VotedFor := []\<rparr>
        in case persist ops persistentState (n_storage n) of
          (Some err, s) \<Rightarrow> n\<lparr>n_storage := s\<rparr>
        | (None, s) \<Rightarrow>
            n\<lparr>n_storage := s,
              n_state := (n_state n)\<lparr>Persistent := persistentState, Role := Follower, LeaderID := [],
                                    Election := \<lparr>VotesReceived = {}\<rparr>\<rparr>\<rparr>
      else if node_role n \<noteq> Candidate then n
      else if electionTerm \<noteq> node_term n then n
      else if rvr_Term reply \<noteq> electionTerm then n
      else if \<not> rvr_VoteGranted reply then n
      else if \<not> membershipIsVoter (node_membership n) (rvr_VoterID reply) then n
      else if rvr_VoterID reply \<in> VotesReceived (Election (n_state n)) then n
      else n\<lparr>n_state := (n_state n)\<lparr>Election :=
               \<lparr>VotesReceived = insert (rvr_VoterID reply) (VotesReceived (Election (n_state n)))\<rparr>\<rparr>\<rparr>)"

section \<open>Pre-votes and the election attempt\<close>

definition PreVote :: "pre_vote_args \<Rightarrow> 's raft_node \<Rightarrow> pre_vote_reply" where
  "PreVote args n =
     (let reply = \<lparr>pvr_Term = node_term n, pvr_VoterID = n_id n, pvr_VoteGranted = False\<rparr>
      in if node_role n = Leader then reply
         else if \<not> membershipIsVoter (node_membership n) (pv_CandidateID args) then reply
         else if pv_Term args < node_term n then reply
         else if LeaderID (n_state n) \<noteq> [] \<and> n_electionElapsed n < n_electionTimeout n then reply
         else if \<not> isCandidateLogUpToDate n (pv_LastLogIndex args) (pv_LastLogTerm args) then reply
         else reply\<lparr>pvr_VoteGranted := True\<rparr>)"

text \<open>
  \<^verbatim>\<open>runPreVote\<close> counts a peer when its RPC returns a granted reply; \<open>answer\<close> is what the transport
  returns for each peer (\<open>None\<close> an error), and the membership is the one read before the first RPC.
\<close>

fun count_pre_votes ::
  "membership \<Rightarrow> (node_id \<Rightarrow> pre_vote_reply option) \<Rightarrow> node_id list \<Rightarrow> node_id set \<Rightarrow> bool" where
  "count_pre_votes m answer [] votes = False"
| "count_pre_votes m answer (peerID # peerIDs) votes =
     (case answer peerID of
        None \<Rightarrow> count_pre_votes m answer peerIDs votes
      | Some reply \<Rightarrow>
          if \<not> pvr_VoteGranted reply then count_pre_votes m answer peerIDs votes
          else if membershipHasQuorum m (insert peerID votes) then True
          else count_pre_votes m answer peerIDs (insert peerID votes))"

definition preVoteArgs :: "'s raft_node \<Rightarrow> pre_vote_args" where
  "preVoteArgs n = \<lparr>pv_Term = inc64 (node_term n), pv_CandidateID = n_id n,
     pv_LastLogIndex = LastIndex (n_log n), pv_LastLogTerm = LastTerm (n_log n)\<rparr>"

definition runPreVote :: "(node_id \<Rightarrow> pre_vote_reply option) \<Rightarrow> 's raft_node \<Rightarrow> bool" where
  "runPreVote answer n =
     (if \<not> membershipIsVoter (node_membership n) (n_id n) then False
      else if membershipHasQuorum (node_membership n) {n_id n} then True
      else if \<not> n_transport n then False
      else count_pre_votes (node_membership n) answer (n_peerIDs n) {n_id n})"

text \<open>
  The sections of \<^verbatim>\<open>runElection\<close>: whether the attempt goes on to a pre-vote, and, after the pre-vote
  returned \<open>won\<close>, the re-check and the start of the real election (the timer is reset when it cannot
  be started).  \<^verbatim>\<open>requestVotes\<close>, the replies and \<^verbatim>\<open>tryBecomeLeader\<close> follow.
\<close>

definition runElection_begin :: "'s raft_node \<Rightarrow> bool" where
  "runElection_begin n = (\<not> n_storageWriteBlocked n)"

definition runElection_start :: "'s storage_ops \<Rightarrow> bool \<Rightarrow> 's raft_node \<Rightarrow> bool \<times> 's raft_node" where
  "runElection_start ops won n =
     (if \<not> won then (False, n)
      else if node_role n = Leader then (False, n)
      else if LeaderID (n_state n) \<noteq> [] \<and> n_electionElapsed n < n_electionTimeout n then (False, n)
      else case startElection ops n of
        (Inl err, n') \<Rightarrow> (False, resetElectionTimer n')
      | (Inr term, n') \<Rightarrow> (True, n'))"

end
