(* ===== verification/Raft_Replication.thy ===== *)
theory Raft_Replication
  imports Raft_Election
begin

text \<open>
  Log replication (\<^verbatim>\<open>node_replication.go\<close>).  \<^verbatim>\<open>replicateTo\<close> alternates sections of the leader with RPCs:
  \<open>buildAppendEntries\<close> makes the request, \<open>AppendEntries\<close> is the follower's handler and
  \<open>handleAppendEntriesReply\<close> takes the reply.  A handler whose code goes on to \<^verbatim>\<open>applyCommitted\<close> returns
  a flag that says so.
\<close>

section \<open>The commit index of the leader\<close>

definition logTerm :: "'s raft_node \<Rightarrow> log_index \<Rightarrow> raft_term" where
  "logTerm n index = (case log_Get (n_log n) index of None \<Rightarrow> 0 | Some entry \<Rightarrow> Term entry)"

definition set_commit :: "log_index \<Rightarrow> 's raft_node \<Rightarrow> 's raft_node" where
  "set_commit index n = n\<lparr>n_state := (n_state n)\<lparr>Volatile := (Volatile (n_state n))\<lparr>CommitIndex := index\<rparr>\<rparr>\<rparr>"

definition replicated_on :: "'s raft_node \<Rightarrow> log_index \<Rightarrow> node_id set" where
  "replicated_on n index =
     insert (n_id n) (set (filter (\<lambda>peerID. map_index (MatchIndex (LeaderProgress (n_state n))) peerID \<ge> index)
                            (n_peerIDs n)))"

definition commit_step :: "log_index \<Rightarrow> 's raft_node \<Rightarrow> 's raft_node" where
  "commit_step index n =
     (if logTerm n index \<noteq> node_term n then n
      else if membershipHasQuorum (node_membership n) (replicated_on n index) then set_commit index n
      else n)"

definition advanceCommitIndexLocked :: "'s raft_node \<Rightarrow> bool \<times> 's raft_node" where
  "advanceCommitIndexLocked n =
     (if node_role n \<noteq> Leader then (False, n)
      else let n' = fold commit_step [node_commit n + 1 ..< LastIndex (n_log n) + 1] n
           in (node_commit n' > node_commit n, n'))"

section \<open>Proposals\<close>

definition Propose :: "'s storage_ops \<Rightarrow> bytes \<Rightarrow> 's raft_node \<Rightarrow> log_index result \<times> bool \<times> 's raft_node" where
  "Propose ops data n =
     (if node_role n \<noteq> Leader then (Inl (Message ''node is not the leader''), False, n)
      else
        let index = inc64 (LastIndex (n_log n));
            entry = \<lparr>Index = index, Term = node_term n, Data = data\<rparr>
        in case op_AppendEntries ops [entry] (n_storage n) of
          (Some err, s) \<Rightarrow> (Inl (Wrapf ''persist proposed entry'' [err]), False, n\<lparr>n_storage := s\<rparr>)
        | (None, s) \<Rightarrow>
          (case op_Sync ops s of
             (Some err, s') \<Rightarrow>
               if errors_is err ErrWALDiskFull
               then (Inl (Wrapf ''storage disk full'' [err]), False,
                     stepDownForStorageFailureLocked (n\<lparr>n_storage := s'\<rparr>))
               else (Inl (Wrapf ''sync proposed entry'' [err]), False, n\<lparr>n_storage := s'\<rparr>)
           | (None, s') \<Rightarrow>
             (case log_Append (n_log n) entry of
                Inl err \<Rightarrow> (Inl (Wrapf ''append proposed entry to raft log'' [err]), False, n\<lparr>n_storage := s'\<rparr>)
              | Inr log \<Rightarrow>
                  (case advanceCommitIndexLocked (n\<lparr>n_storage := s', n_log := log\<rparr>) of
                     (advanced, n') \<Rightarrow> (Inr index, advanced, n')))))"

section \<open>Requests\<close>

definition buildAppendEntries :: "node_id \<Rightarrow> 's raft_node \<Rightarrow> append_entries_args option" where
  "buildAppendEntries peerID n =
     (if node_role n \<noteq> Leader then None
      else case fmlookup (NextIndex (LeaderProgress (n_state n))) peerID of
        None \<Rightarrow> None
      | Some nextIndex \<Rightarrow>
          let args = \<lparr>ae_Term = node_term n, ae_LeaderID = n_id n, ae_PrevLogIndex = 0, ae_PrevLogTerm = 0,
                      ae_Entries = [], ae_LeaderCommit = node_commit n\<rparr>;
              with_prev =
                (if nextIndex > 1 then
                   (case log_Get (n_log n) (nextIndex - 1) of
                      None \<Rightarrow> None
                    | Some prevEntry \<Rightarrow>
                        Some (args\<lparr>ae_PrevLogIndex := nextIndex - 1, ae_PrevLogTerm := Term prevEntry\<rparr>))
                 else Some args)
          in case with_prev of
               None \<Rightarrow> None
             | Some args' \<Rightarrow>
                 (case those (map (log_Get (n_log n)) [nextIndex ..< LastIndex (n_log n) + 1]) of
                    None \<Rightarrow> None
                  | Some entries \<Rightarrow> Some (args'\<lparr>ae_Entries := entries\<rparr>)))"

section \<open>The follower\<close>

text \<open>
  The first entry that is missing from the log, or in conflict with it: \<open>None\<close> when there is none,
  otherwise \<^verbatim>\<open>replaceFrom\<close> (0 when nothing is replaced) and the entries from there on.
\<close>

fun first_new :: "raft_log \<Rightarrow> log_entry list \<Rightarrow> (log_index \<times> log_entry list) option" where
  "first_new log [] = None"
| "first_new log (entry # rest) =
     (case log_Get log (Index entry) of
        None \<Rightarrow> Some (0, entry # rest)
      | Some existing \<Rightarrow>
          if Term existing \<noteq> Term entry then Some (Index entry, entry # rest) else first_new log rest)"

definition reconcileReplicatedEntriesLocked ::
  "'s storage_ops \<Rightarrow> log_entry list \<Rightarrow> 's raft_node \<Rightarrow> go_error option \<times> 's raft_node" where
  "reconcileReplicatedEntriesLocked ops entries n =
     (case first_new (n_log n) entries of
        None \<Rightarrow> (None, n)
      | Some (replaceFrom, newEntries) \<Rightarrow>
          if replaceFrom > 0 then
            (case op_ReplaceSuffix ops replaceFrom newEntries (n_storage n) of
               (Some err, s) \<Rightarrow> (Some (Wrapf ''replace raft log suffix'' [err]), n\<lparr>n_storage := s\<rparr>)
             | (None, s) \<Rightarrow>
               (case op_Sync ops s of
                  (Some err, s') \<Rightarrow> (Some (Wrapf ''sync replaced raft log suffix'' [err]), n\<lparr>n_storage := s'\<rparr>)
                | (None, s') \<Rightarrow>
                  (case log_append_all (TruncateFrom (n_log n) replaceFrom) newEntries of
                     (Some err, log) \<Rightarrow>
                       (Some (Wrapf ''append replicated raft entry'' [err]), n\<lparr>n_storage := s', n_log := log\<rparr>)
                   | (None, log) \<Rightarrow> (None, n\<lparr>n_storage := s', n_log := log\<rparr>))))
          else
            (case op_AppendEntries ops newEntries (n_storage n) of
               (Some err, s) \<Rightarrow> (Some (Wrapf ''persist replicated raft entries'' [err]), n\<lparr>n_storage := s\<rparr>)
             | (None, s) \<Rightarrow>
               (case op_Sync ops s of
                  (Some err, s') \<Rightarrow> (Some (Wrapf ''sync replicated raft entries'' [err]), n\<lparr>n_storage := s'\<rparr>)
                | (None, s') \<Rightarrow>
                  (case log_append_all (n_log n) newEntries of
                     (Some err, log) \<Rightarrow>
                       (Some (Wrapf ''append replicated raft entry'' [err]), n\<lparr>n_storage := s', n_log := log\<rparr>)
                   | (None, log) \<Rightarrow> (None, n\<lparr>n_storage := s', n_log := log\<rparr>)))))"

definition advance_follower_commit :: "log_index \<Rightarrow> 's raft_node \<Rightarrow> bool \<times> 's raft_node" where
  "advance_follower_commit leaderCommit n =
     (if leaderCommit > node_commit n then
        let lastIndex = LastIndex (n_log n);
            n' = set_commit (if leaderCommit < lastIndex then leaderCommit else lastIndex) n
        in (node_commit n' > node_commit n, n')
      else (False, n))"

text \<open>The body of the handler once the term of the request has been adopted.\<close>

definition append_in_term ::
  "'s storage_ops \<Rightarrow> append_entries_args \<Rightarrow> 's raft_node \<Rightarrow> (append_entries_reply \<times> bool) \<times> 's raft_node" where
  "append_in_term ops args n =
     (let reply = \<lparr>aer_Term = node_term n, aer_FollowerID = n_id n, aer_Success = False\<rparr>
      in if ae_PrevLogIndex args > 0 \<and>
            (case log_Get (n_log n) (ae_PrevLogIndex args) of
               None \<Rightarrow> True | Some prevEntry \<Rightarrow> Term prevEntry \<noteq> ae_PrevLogTerm args)
         then ((reply, False), n)
         else
           let n1 = n\<lparr>n_state := (n_state n)\<lparr>Role := Follower, LeaderID := ae_LeaderID args\<rparr>,
                      n_electionElapsed := 0\<rparr>
           in case reconcileReplicatedEntriesLocked ops (ae_Entries args) n1 of
             (Some err, n2) \<Rightarrow> ((reply, False), n2)
           | (None, n2) \<Rightarrow>
               (case advance_follower_commit (ae_LeaderCommit args) n2 of
                  (commitAdvanced, n3) \<Rightarrow> ((reply\<lparr>aer_Success := True\<rparr>, commitAdvanced), n3)))"

definition AppendEntries ::
  "'s storage_ops \<Rightarrow> append_entries_args \<Rightarrow> 's raft_node \<Rightarrow> (append_entries_reply \<times> bool) \<times> 's raft_node" where
  "AppendEntries ops args n =
     (let reply = \<lparr>aer_Term = node_term n, aer_FollowerID = n_id n, aer_Success = False\<rparr>
      in if ae_Term args < node_term n then ((reply, False), n)
         else if ae_Term args > node_term n then
           (case adopt_term ops (ae_Term args) n of
              (False, n') \<Rightarrow> ((reply, False), n')
            | (True, n') \<Rightarrow> append_in_term ops args n')
         else append_in_term ops args n)"

section \<open>The reply\<close>

definition handleAppendEntriesReply ::
  "'s storage_ops \<Rightarrow> node_id \<Rightarrow> append_entries_args \<Rightarrow> append_entries_reply \<Rightarrow> 's raft_node \<Rightarrow>
   bool \<times> 's raft_node" where
  "handleAppendEntriesReply ops peerID args reply n =
     (if aer_Term reply > node_term n then (False, snd (adopt_term ops (aer_Term reply) n))
      else if node_role n \<noteq> Leader then (False, n)
      else if ae_Term args \<noteq> node_term n then (False, n)
      else if \<not> aer_Success reply then
        let lp = LeaderProgress (n_state n);
            nextIndex = map_index (NextIndex lp) peerID
        in if nextIndex > 1
           then (False, n\<lparr>n_state := (n_state n)\<lparr>LeaderProgress :=
                   lp\<lparr>NextIndex := fmupd peerID (nextIndex - 1) (NextIndex lp)\<rparr>\<rparr>\<rparr>)
           else (False, n)
      else if ae_Entries args = [] then (False, n)
      else
        let lp = LeaderProgress (n_state n);
            lastReplicated = Index (last (ae_Entries args));
            n' = (if lastReplicated > map_index (MatchIndex lp) peerID
                  then n\<lparr>n_state := (n_state n)\<lparr>LeaderProgress :=
                         set_progress peerID (inc64 lastReplicated) lastReplicated lp\<rparr>\<rparr>
                  else n)
        in advanceCommitIndexLocked n')"

end
