(* ===== verification/Config_Entry.thy ===== *)
theory Config_Entry
  imports Bytes_Codec Model_Types
begin

text \<open>
  Configuration entries of the Raft log (\<^verbatim>\<open>config_entry.go\<close>, \<^verbatim>\<open>config_entry_codec.go\<close>,
  \<^verbatim>\<open>config_entry_joint.go\<close>, \<^verbatim>\<open>config_entry_stable.go\<close>): validation, encoding and decoding, and the proof
  that the two are inverse on exactly the accepted byte strings.
\<close>

section \<open>Constants and validation\<close>

definition configurationEntryMagic :: nat where "configurationEntryMagic = 1380140615"
definition configurationEntryVersion :: char where "configurationEntryVersion = char_of (1 :: nat)"
definition configurationEntryTypeStable :: char where "configurationEntryTypeStable = char_of (1 :: nat)"
definition configurationEntryTypeEnterJoint :: char where
  "configurationEntryTypeEnterJoint = char_of (2 :: nat)"
definition configurationEntryTypeLeaveJoint :: char where
  "configurationEntryTypeLeaveJoint = char_of (3 :: nat)"
definition configurationEntryHeaderSize :: nat where "configurationEntryHeaderSize = 4 + 1 + 1 + 4"
definition maxConfigurationVoters :: nat where "maxConfigurationVoters = 1024"
definition maxConfigurationNodeID :: nat where "maxConfigurationNodeID = 1024"
definition maxConfigurationPayload :: nat where "maxConfigurationPayload = 2 ^ 20"

definition IsConfigurationEntry :: "bytes \<Rightarrow> bool" where
  "IsConfigurationEntry data =
     (if length data < 4 then False else be_value (take 4 data) = configurationEntryMagic)"

fun validate_voters :: "node_id set \<Rightarrow> node_id list \<Rightarrow> go_error option" where
  "validate_voters seen [] = None"
| "validate_voters seen (voterID # rest) =
     (if voterID = [] then Some (Message ''configuration contains empty voter ID'')
      else if length voterID > maxConfigurationNodeID
      then Some (Message ''voter ID exceeds maximum length'')
      else if voterID \<in> seen then Some (Message ''configuration contains duplicate voter ID'')
      else validate_voters (insert voterID seen) rest)"

definition validateConfiguration :: "configuration \<Rightarrow> go_error option" where
  "validateConfiguration c =
     (if length (Voters c) = 0 then Some (Message ''configuration must contain at least one voter'')
      else if length (Voters c) > maxConfigurationVoters
      then Some (Message ''configuration contains too many voters'')
      else validate_voters {} (Voters c))"

section \<open>Encoding\<close>

definition encodeConfigurationPayload :: "configuration \<Rightarrow> bytes" where
  "encodeConfigurationPayload c =
     put_uint32 (length (Voters c)) @
     concat (map (\<lambda>voterID. put_uint32 (length voterID) @ voterID) (Voters c))"

definition entry_envelope :: "char \<Rightarrow> bytes" where
  "entry_envelope entryType =
     put_uint32 configurationEntryMagic @ [configurationEntryVersion, entryType]"

definition EncodeConfigurationEntry :: "configuration \<Rightarrow> bytes result" where
  "EncodeConfigurationEntry c =
     (case validateConfiguration c of
        Some err \<Rightarrow> Inl err
      | None \<Rightarrow>
          let buf = entry_envelope configurationEntryTypeStable @ encodeConfigurationPayload c
          in if length buf > maxConfigurationPayload
             then Inl (Message ''configuration entry exceeds maximum payload size'') else Inr buf)"

definition EncodeEnterJointConfigurationEntry :: "configuration \<Rightarrow> configuration \<Rightarrow> bytes result" where
  "EncodeEnterJointConfigurationEntry old new =
     (case validateConfiguration old of
        Some err \<Rightarrow> Inl (Wrapf ''validate old configuration'' [err])
      | None \<Rightarrow>
        (case validateConfiguration new of
           Some err \<Rightarrow> Inl (Wrapf ''validate new configuration'' [err])
         | None \<Rightarrow>
             let buf = entry_envelope configurationEntryTypeEnterJoint @
                       encodeConfigurationPayload old @ encodeConfigurationPayload new
             in if length buf > maxConfigurationPayload
                then Inl (Message ''joint configuration entry exceeds maximum payload size'')
                else Inr buf))"

definition EncodeLeaveJointConfigurationEntry :: "configuration \<Rightarrow> bytes result" where
  "EncodeLeaveJointConfigurationEntry new =
     (case validateConfiguration new of
        Some err \<Rightarrow> Inl (Wrapf ''validate new configuration'' [err])
      | None \<Rightarrow>
          let buf = entry_envelope configurationEntryTypeLeaveJoint @ encodeConfigurationPayload new
          in if length buf > maxConfigurationPayload
             then Inl (Message ''leave-joint configuration entry exceeds maximum payload size'')
             else Inr buf)"

section \<open>Decoding\<close>

definition read_voter :: "node_id reader" where
  "read_voter bs =
     bind_result (wrap_error ''decode voter ID length'' (read_uint32 bs)) (\<lambda>(idLength, rest).
       if idLength = 0 then Inl (Message ''voter has empty ID'')
       else if idLength > maxConfigurationNodeID then Inl (Message ''voter ID is too long'')
       else if idLength > length rest then Inl (Message ''voter ID is truncated'')
       else Inr (take idLength rest, drop idLength rest))"

fun read_voters :: "nat \<Rightarrow> node_id list \<Rightarrow> node_id list reader" where
  "read_voters 0 voters bs = Inr (voters, bs)"
| "read_voters (Suc k) voters bs =
     bind_result (read_voter bs) (\<lambda>(voterID, rest).
       if voterID \<in> set voters then Inl (Message ''duplicate voter ID'')
       else read_voters k (voters @ [voterID]) rest)"

definition read_voter_list :: "node_id list reader" where
  "read_voter_list bs =
     bind_result (wrap_error ''decode voter count'' (read_uint32 bs)) (\<lambda>(voterCount, rest).
       if voterCount = 0 then Inl (Message ''configuration must contain at least one voter'')
       else if voterCount > maxConfigurationVoters
       then Inl (Message ''configuration contains too many voters'')
       else read_voters voterCount [] rest)"

definition check_configuration :: "node_id list \<Rightarrow> configuration result" where
  "check_configuration voters =
     (case validateConfiguration \<lparr>Voters = voters\<rparr> of Some err \<Rightarrow> Inl err | None \<Rightarrow> Inr \<lparr>Voters = voters\<rparr>)"

definition decodeConfigurationPayload :: "configuration reader" where
  "decodeConfigurationPayload bs =
     bind_result (read_voter_list bs) (\<lambda>(voters, rest).
       bind_result (check_configuration voters) (\<lambda>c. Inr (c, rest)))"

definition validateConfigurationEntryEnvelope :: "char \<Rightarrow> unit reader" where
  "validateConfigurationEntryEnvelope expectedType bs =
     bind_result (wrap_error ''decode configuration magic'' (read_uint32 bs)) (\<lambda>(magic, bs1).
       if magic \<noteq> configurationEntryMagic then Inl (Message ''invalid configuration entry magic'')
       else bind_result (wrap_error ''decode configuration version'' (read_byte bs1)) (\<lambda>(version, bs2).
         if version \<noteq> configurationEntryVersion
         then Inl (Message ''unsupported configuration entry version'')
         else bind_result (wrap_error ''decode configuration entry type'' (read_byte bs2))
           (\<lambda>(entryType, bs3).
             if entryType \<noteq> expectedType then Inl (Message ''unexpected configuration entry type'')
             else Inr ((), bs3))))"

definition DecodeConfigurationEntry :: "bytes \<Rightarrow> configuration result" where
  "DecodeConfigurationEntry data =
     (if length data < configurationEntryHeaderSize then Inl (Message ''configuration entry is truncated'')
      else if length data > maxConfigurationPayload
      then Inl (Message ''configuration entry exceeds maximum payload size'')
      else bind_result (validateConfigurationEntryEnvelope configurationEntryTypeStable data) (\<lambda>(_, bs).
        bind_result (read_voter_list bs) (\<lambda>(voters, rest).
          if rest \<noteq> [] then Inl (Message ''configuration entry contains trailing data'')
          else check_configuration voters)))"

definition DecodeEnterJointConfigurationEntry :: "bytes \<Rightarrow> (configuration \<times> configuration) result" where
  "DecodeEnterJointConfigurationEntry data =
     (if length data > maxConfigurationPayload
      then Inl (Message ''joint configuration entry exceeds maximum payload size'')
      else bind_result (validateConfigurationEntryEnvelope configurationEntryTypeEnterJoint data) (\<lambda>(_, bs).
        bind_result (wrap_error ''decode old configuration'' (decodeConfigurationPayload bs)) (\<lambda>(old, bs1).
          bind_result (wrap_error ''decode new configuration'' (decodeConfigurationPayload bs1)) (\<lambda>(new, bs2).
            if bs2 \<noteq> [] then Inl (Message ''joint configuration entry contains trailing data'')
            else Inr (old, new)))))"

definition DecodeLeaveJointConfigurationEntry :: "bytes \<Rightarrow> configuration result" where
  "DecodeLeaveJointConfigurationEntry data =
     (if length data > maxConfigurationPayload
      then Inl (Message ''leave-joint configuration entry exceeds maximum payload size'')
      else bind_result (validateConfigurationEntryEnvelope configurationEntryTypeLeaveJoint data) (\<lambda>(_, bs).
        bind_result (wrap_error ''decode new configuration'' (decodeConfigurationPayload bs)) (\<lambda>(c, rest).
          if rest \<noteq> [] then Inl (Message ''leave-joint configuration entry contains trailing data'')
          else Inr c)))"

section \<open>What the validators and readers accept\<close>

definition voter_ok :: "node_id \<Rightarrow> bool" where
  "voter_ok v \<longleftrightarrow> v \<noteq> [] \<and> length v \<le> maxConfigurationNodeID"

definition voters_ok :: "node_id list \<Rightarrow> bool" where
  "voters_ok vs \<longleftrightarrow> vs \<noteq> [] \<and> length vs \<le> maxConfigurationVoters \<and> list_all voter_ok vs \<and> distinct vs"

definition put_voter :: "node_id \<Rightarrow> bytes" where
  "put_voter v = put_uint32 (length v) @ v"

lemma validate_voters_None:
  "validate_voters seen vs = None \<longleftrightarrow> list_all voter_ok vs \<and> set vs \<inter> seen = {} \<and> distinct vs"
  by (induction vs arbitrary: seen) (auto simp: voter_ok_def)

lemma validateConfiguration_None: "validateConfiguration c = None \<longleftrightarrow> voters_ok (Voters c)"
  by (auto simp: validateConfiguration_def voters_ok_def validate_voters_None)

lemma encodeConfigurationPayload_put:
  "encodeConfigurationPayload c = put_uint32 (length (Voters c)) @ concat (map put_voter (Voters c))"
  by (simp add: encodeConfigurationPayload_def put_voter_def [abs_def])

lemma read_voter_Inr: "read_voter bs = Inr (v, rest) \<longleftrightarrow> voter_ok v \<and> bs = put_voter v @ rest"
proof
  assume "read_voter bs = Inr (v, rest)"
  then show "voter_ok v \<and> bs = put_voter v @ rest"
    by (auto simp: read_voter_def reader_iffs read_uint_Inr voter_ok_def put_voter_def min_def split: if_splits)
next
  assume ok: "voter_ok v \<and> bs = put_voter v @ rest"
  then have "length v < 256 ^ 4" by (simp add: voter_ok_def maxConfigurationNodeID_def)
  with ok show "read_voter bs = Inr (v, rest)"
    by (simp add: read_voter_def put_voter_def voter_ok_def read_uint_put)
qed

lemma read_voters_Inr:
  "read_voters k acc bs = Inr (vs, rest) \<longleftrightarrow> (\<exists>new. vs = acc @ new \<and> length new = k \<and>
     list_all voter_ok new \<and> set new \<inter> set acc = {} \<and> distinct new \<and> bs = concat (map put_voter new) @ rest)"
proof (induction k arbitrary: acc bs)
  case 0
  then show ?case by auto
next
  case (Suc k)
  have "read_voters (Suc k) acc bs = Inr (vs, rest) \<longleftrightarrow> (\<exists>v bs'. voter_ok v \<and> bs = put_voter v @ bs' \<and>
      v \<notin> set acc \<and> read_voters k (acc @ [v]) bs' = Inr (vs, rest))"
    by (auto simp: bind_result_Inr read_voter_Inr)
  also have "\<dots> \<longleftrightarrow> (\<exists>v new. voter_ok v \<and> v \<notin> set acc \<and> vs = acc @ v # new \<and> length new = k \<and>
      list_all voter_ok new \<and> set new \<inter> insert v (set acc) = {} \<and> distinct new \<and>
      bs = put_voter v @ concat (map put_voter new) @ rest)"
    by (auto simp: Suc.IH)
  also have "\<dots> \<longleftrightarrow> (\<exists>new. vs = acc @ new \<and> length new = Suc k \<and> list_all voter_ok new \<and>
      set new \<inter> set acc = {} \<and> distinct new \<and> bs = concat (map put_voter new) @ rest)"
    by (auto simp: length_Suc_conv)
  finally show ?case .
qed

lemma read_voter_list_Inr:
  "read_voter_list bs = Inr (vs, rest) \<longleftrightarrow>
     voters_ok vs \<and> bs = encodeConfigurationPayload \<lparr>Voters = vs\<rparr> @ rest"
proof -
  have "length vs \<le> maxConfigurationVoters \<Longrightarrow> length vs < 256 ^ 4" by (simp add: maxConfigurationVoters_def)
  then show ?thesis
    by (auto simp: read_voter_list_def reader_iffs read_uint_Inr read_voters_Inr voters_ok_def
        encodeConfigurationPayload_put read_uint_put split: if_splits)
qed

lemma check_configuration_Inr: "check_configuration vs = Inr c \<longleftrightarrow> c = \<lparr>Voters = vs\<rparr> \<and> voters_ok vs"
  using validateConfiguration_None [of "\<lparr>Voters = vs\<rparr>"]
  by (auto simp: check_configuration_def split: option.splits)

lemma decodeConfigurationPayload_Inr:
  "decodeConfigurationPayload bs = Inr (c, rest) \<longleftrightarrow>
     validateConfiguration c = None \<and> bs = encodeConfigurationPayload c @ rest"
  by (cases c)
    (auto simp: decodeConfigurationPayload_def reader_iffs read_voter_list_Inr check_configuration_Inr
      validateConfiguration_None)

lemma envelope_Inr:
  "validateConfigurationEntryEnvelope t bs = Inr (u, rest) \<longleftrightarrow> bs = entry_envelope t @ rest"
  by (auto simp: validateConfigurationEntryEnvelope_def reader_iffs read_uint_Inr read_byte_Inr entry_envelope_def
      configurationEntryMagic_def split: if_splits)

lemma length_envelope [simp]: "length (entry_envelope t) = 6"
  by (simp add: entry_envelope_def)

lemma length_payload: "4 \<le> length (encodeConfigurationPayload c)"
  by (simp add: encodeConfigurationPayload_def)

text \<open>
  C34. For each of the three kinds of configuration entry, decoding a byte string gives a configuration
  exactly when encoding that configuration gives the byte string: decoding inverts encoding on every
  valid configuration, and every accepted byte string is the canonical encoding of what it decodes to.
\<close>

theorem configuration_entry_roundtrip:
  "(DecodeConfigurationEntry bs = Inr c \<longleftrightarrow> EncodeConfigurationEntry c = Inr bs) \<and>
   (DecodeEnterJointConfigurationEntry bs = Inr (c, c') \<longleftrightarrow>
      EncodeEnterJointConfigurationEntry c c' = Inr bs) \<and>
   (DecodeLeaveJointConfigurationEntry bs = Inr c \<longleftrightarrow> EncodeLeaveJointConfigurationEntry c = Inr bs)"
proof (intro conjI)
  have "DecodeConfigurationEntry bs = Inr c \<longleftrightarrow> length bs \<le> maxConfigurationPayload \<and> voters_ok (Voters c) \<and>
      bs = entry_envelope configurationEntryTypeStable @ encodeConfigurationPayload c"
    using length_payload [of c]
    by (cases c) (auto simp: DecodeConfigurationEntry_def reader_iffs envelope_Inr read_voter_list_Inr
        check_configuration_Inr configurationEntryHeaderSize_def not_less split: if_splits)
  also have "\<dots> \<longleftrightarrow> EncodeConfigurationEntry c = Inr bs"
    by (auto simp: EncodeConfigurationEntry_def validateConfiguration_None [symmetric] Let_def split: option.splits)
  finally show "DecodeConfigurationEntry bs = Inr c \<longleftrightarrow> EncodeConfigurationEntry c = Inr bs" .
  show "DecodeEnterJointConfigurationEntry bs = Inr (c, c') \<longleftrightarrow>
      EncodeEnterJointConfigurationEntry c c' = Inr bs"
    by (auto simp: DecodeEnterJointConfigurationEntry_def EncodeEnterJointConfigurationEntry_def reader_iffs
        envelope_Inr decodeConfigurationPayload_Inr Let_def split: if_splits option.splits)
  show "DecodeLeaveJointConfigurationEntry bs = Inr c \<longleftrightarrow> EncodeLeaveJointConfigurationEntry c = Inr bs"
    by (auto simp: DecodeLeaveJointConfigurationEntry_def EncodeLeaveJointConfigurationEntry_def reader_iffs
        envelope_Inr decodeConfigurationPayload_Inr Let_def split: if_splits option.splits)
qed

text \<open>An encoded configuration is recognised as a configuration entry.\<close>

lemma IsConfigurationEntry_envelope: "IsConfigurationEntry (entry_envelope t @ bs)"
  by (simp add: IsConfigurationEntry_def entry_envelope_def be_value_be_bytes configurationEntryMagic_def)

end
