(* ===== verification/Raft_Apply.thy ===== *)
theory Raft_Apply
  imports Raft_Replication Config_Entry
begin

text \<open>
  Applying committed entries (\<^verbatim>\<open>node_apply.go\<close>), membership bootstrap and the checks of a membership
  change (\<^verbatim>\<open>node_membership.go\<close>), and the linearizable read (\<^verbatim>\<open>node_readindex.go\<close>).  The apply loop sends
  each entry on a channel outside the node mutex; the sent entries are a result of the model.
\<close>

section \<open>Configuration entries\<close>

definition decode_membership_entry :: "bytes \<Rightarrow> membership result" where
  "decode_membership_entry data =
     (let entryType = data ! 5
      in if entryType = configurationEntryTypeStable then
           bind_result (wrap_error ''decode stable configuration entry'' (DecodeConfigurationEntry data))
             (\<lambda>c. Inr \<lparr>Current = c, Joint = None\<rparr>)
         else if entryType = configurationEntryTypeEnterJoint then
           bind_result (wrap_error ''decode enter-joint configuration entry''
                         (DecodeEnterJointConfigurationEntry data))
             (\<lambda>(old, new). Inr \<lparr>Current = old, Joint = Some \<lparr>Old = old, New = new\<rparr>\<rparr>)
         else if entryType = configurationEntryTypeLeaveJoint then
           bind_result (wrap_error ''decode leave-joint configuration entry''
                         (DecodeLeaveJointConfigurationEntry data))
             (\<lambda>c. Inr \<lparr>Current = c, Joint = None\<rparr>)
         else Inl (Message ''unknown configuration entry type''))"

definition applyConfigurationEntryLocked ::
  "'s storage_ops \<Rightarrow> log_entry \<Rightarrow> 's raft_node \<Rightarrow> go_error option \<times> 's raft_node" where
  "applyConfigurationEntryLocked ops entry n =
     (if length (Data entry) < 6 then (Some (Message ''configuration entry is truncated''), n)
      else case decode_membership_entry (Data entry) of
        Inl err \<Rightarrow> (Some err, n)
      | Inr nextMembership \<Rightarrow>
          let nextState = (node_persistent n)\<lparr>Membership := nextMembership\<rparr>
          in case op_SaveState ops nextState (n_storage n) of
            (Some err, s) \<Rightarrow> (Some (Wrapf ''persist membership'' [err]), n\<lparr>n_storage := s\<rparr>)
          | (None, s) \<Rightarrow>
            (case op_Sync ops s of
               (Some err, s') \<Rightarrow> (Some (Wrapf ''sync membership'' [err]), n\<lparr>n_storage := s'\<rparr>)
             | (None, s') \<Rightarrow>
                 let n' = n\<lparr>n_storage := s', n_state := (n_state n)\<lparr>Persistent := nextState\<rparr>\<rparr>
                 in if node_role n = Leader \<and> Joint nextMembership = None \<and>
                       \<not> membershipIsVoter nextMembership (n_id n)
                    then (case becomeFollowerLocked ops (node_term n') n' of
                            (Some err, n'') \<Rightarrow> (Some (Wrapf ''step down after membership removal'' [err]), n'')
                          | (None, n'') \<Rightarrow> (None, n''))
                    else (None, n')))"

section \<open>The apply loop\<close>

definition set_applied :: "log_index \<Rightarrow> 's raft_node \<Rightarrow> 's raft_node" where
  "set_applied index n = n\<lparr>n_state := (n_state n)\<lparr>Volatile := (Volatile (n_state n))\<lparr>LastApplied := index\<rparr>\<rparr>\<rparr>"

abbreviation node_applied :: "'s raft_node \<Rightarrow> log_index" where
  "node_applied n \<equiv> LastApplied (Volatile (n_state n))"

datatype apply_outcome = ApplyStop | ApplyContinue | ApplySend log_entry

text \<open>
  One pass through the loop up to the channel send.  The last applied index is below the commit index,
  a 64-bit number, so its successor does not wrap.
\<close>

definition applyNext :: "'s storage_ops \<Rightarrow> 's raft_node \<Rightarrow> apply_outcome \<times> 's raft_node" where
  "applyNext ops n =
     (if node_applied n \<ge> node_commit n then (ApplyStop, n)
      else
        let nextIndex = node_applied n + 1
        in case log_Get (n_log n) nextIndex of
          None \<Rightarrow> (ApplyStop, n)
        | Some entry \<Rightarrow>
            if IsConfigurationEntry (Data entry) then
              (case applyConfigurationEntryLocked ops entry n of
                 (Some err, n') \<Rightarrow> (ApplyStop, n')
               | (None, n') \<Rightarrow> (ApplyContinue, set_applied nextIndex n'))
            else (ApplySend entry, n))"

text \<open>The section after the send.\<close>

definition markApplied :: "log_index \<Rightarrow> 's raft_node \<Rightarrow> 's raft_node" where
  "markApplied nextIndex n = (if node_applied n < nextIndex then set_applied nextIndex n else n)"

lemma set_applied_simps [simp]:
  "n_storage (set_applied i n) = n_storage n" "n_log (set_applied i n) = n_log n"
  "n_id (set_applied i n) = n_id n" "n_peerIDs (set_applied i n) = n_peerIDs n" "node_commit (set_applied i n) = node_commit n"
  "node_applied (set_applied i n) = i" "node_persistent (set_applied i n) = node_persistent n"
  "node_role (set_applied i n) = node_role n" "Election (n_state (set_applied i n)) = Election (n_state n)"
  by (simp_all add: set_applied_def)

lemma applyConfigurationEntryLocked_volatile [simp]:
  "Volatile (n_state (snd (applyConfigurationEntryLocked ops e n))) = Volatile (n_state n)"
  "n_log (snd (applyConfigurationEntryLocked ops e n)) = n_log n"
  by (auto simp: applyConfigurationEntryLocked_def becomeFollowerLocked_def Let_def
      split: sum.split option.split prod.split)

lemma applyNext_commit: "applyNext ops n = (out, n') \<Longrightarrow> node_commit n' = node_commit n"
  by (auto simp: applyNext_def Let_def split: if_splits option.splits prod.splits
      dest: arg_cong [where f = "\<lambda>x. Volatile (n_state (snd x))"])

lemma applyNext_progress:
  assumes "applyNext ops n = (out, n')" "out \<noteq> ApplyStop"
  shows "node_applied n < node_commit n" "out = ApplyContinue \<Longrightarrow> node_applied n' = node_applied n + 1"
    "out = ApplySend e \<Longrightarrow> n' = n \<and> log_Get (n_log n) (node_applied n + 1) = Some e"
  using assms by (auto simp: applyNext_def Let_def split: if_splits option.splits prod.splits)

text \<open>The whole loop, when no other section runs in between: the entries sent, and the node.\<close>

function applyCommitted :: "'s storage_ops \<Rightarrow> 's raft_node \<Rightarrow> log_entry list \<times> 's raft_node" where
  "applyCommitted ops n =
     (case applyNext ops n of
        (ApplyStop, n') \<Rightarrow> ([], n')
      | (ApplyContinue, n') \<Rightarrow> applyCommitted ops n'
      | (ApplySend entry, n') \<Rightarrow>
          (case applyCommitted ops (markApplied (node_applied n + 1) n') of
             (sent, n'') \<Rightarrow> (entry # sent, n'')))"
  by pat_completeness auto
termination
proof (relation "measure (\<lambda>(ops, n). node_commit n - node_applied n)", goal_cases)
  case 1
  then show ?case by simp
next
  case (2 ops n x n')
  then have run: "applyNext ops n = (ApplyContinue, n')" by simp
  from applyNext_commit [OF run] applyNext_progress(1,2) [OF run] show ?case by simp
next
  case (3 ops n x n' entry)
  then have run: "applyNext ops n = (ApplySend entry, n')" by simp
  from applyNext_progress(1,3) [OF run] show ?case by (simp add: markApplied_def)
qed

declare applyCommitted.simps [simp del]

section \<open>Membership\<close>

definition bootstrap_voters :: "'s raft_node \<Rightarrow> node_id list" where
  "bootstrap_voters n =
     foldl (\<lambda>voters i. if i = [] \<or> i \<in> set voters then voters else voters @ [i]) [] (n_id n # n_peerIDs n)"

definition BootstrapMembership :: "'s storage_ops \<Rightarrow> 's raft_node \<Rightarrow> go_error option \<times> 's raft_node" where
  "BootstrapMembership ops n =
     (if Voters (Current (node_membership n)) \<noteq> [] \<or> Joint (node_membership n) \<noteq> None then (None, n)
      else
        let voters = bootstrap_voters n
        in if voters = []
           then (Some (Message ''raft membership cannot be bootstrapped without voters''), n)
           else
             let n' = n\<lparr>n_state := (n_state n)\<lparr>Persistent := (node_persistent n)\<lparr>Membership :=
                          \<lparr>Current = \<lparr>Voters = voters\<rparr>, Joint = None\<rparr>\<rparr>\<rparr>\<rparr>
             in case persistStateLocked ops n' of
               (Some err, n'') \<Rightarrow> (Some (Wrapf ''bootstrap membership'' [err]), n'')
             | (None, n'') \<Rightarrow> (None, n''))"

definition validateAddMemberLocked ::
  "node_id \<Rightarrow> 's raft_node \<Rightarrow> (configuration \<times> configuration) result" where
  "validateAddMemberLocked peerID n =
     (if node_role n \<noteq> Leader then Inl (Message ''cannot add member: node is not leader'')
      else if peerID = n_id n then Inl (Message ''cannot add member: member is the local node'')
      else if Joint (node_membership n) \<noteq> None
      then Inl (Message ''cannot add member while membership is in joint configuration'')
      else if membershipIsVoter (node_membership n) peerID then Inl (Message ''member is already a voter'')
      else if peerID \<notin> set (n_peerIDs n) then Inl (Message ''member is not registered as a raft peer'')
      else let old = Current (node_membership n) in Inr (old, \<lparr>Voters = Voters old @ [peerID]\<rparr>))"

definition validateRemoveMemberLocked ::
  "node_id \<Rightarrow> 's raft_node \<Rightarrow> (configuration \<times> configuration) result" where
  "validateRemoveMemberLocked peerID n =
     (if node_role n \<noteq> Leader then Inl (Message ''cannot remove member: node is not leader'')
      else if peerID = n_id n then Inl (Message ''cannot remove self: transfer leadership first'')
      else if Joint (node_membership n) \<noteq> None
      then Inl (Message ''cannot remove member while membership is in joint configuration'')
      else if \<not> membershipIsVoter (node_membership n) peerID then Inl (Message ''member is not a voter'')
      else
        let old = Current (node_membership n)
        in if length (Voters old) \<le> 1 then Inl (Message ''cannot remove the last voter'')
           else Inr (old, \<lparr>Voters = filter (\<lambda>v. v \<noteq> peerID) (Voters old)\<rparr>))"

section \<open>Linearizable reads\<close>

text \<open>
  \<^verbatim>\<open>ReadIndex\<close> reads the term, the commit index and the membership, then sends an empty
  \<^verbatim>\<open>AppendEntries\<close> to every peer and counts the replies.  The sections: the check at the start
  (\<open>Inr (Some i)\<close> when the leader is a quorum by itself), the request to one peer, the treatment of
  one reply, and the final check once a quorum has answered.
\<close>

record read_index_op =
  ri_term :: raft_term
  ri_commit :: log_index
  ri_membership :: membership

definition ReadIndex_begin :: "'s raft_node \<Rightarrow> (read_index_op \<times> log_index option) result" where
  "ReadIndex_begin n =
     (if node_role n \<noteq> Leader then Inl (Message ''raft: not leader'')
      else
        let term = node_term n;
            commitIndex = node_commit n;
            hasCommitted = (if commitIndex > 0 then
                              (case log_Get (n_log n) commitIndex of None \<Rightarrow> False | Some e \<Rightarrow> Term e = term)
                            else False)
        in if \<not> hasCommitted
           then Inl (Message ''raft: leader has not committed an entry in the current term yet'')
           else if \<not> n_transport n then Inl (Message ''raft: transport is not configured'')
           else
             let op = \<lparr>ri_term = term, ri_commit = commitIndex, ri_membership = node_membership n\<rparr>
             in if membershipHasQuorum (node_membership n) {n_id n} then Inr (op, Some commitIndex)
                else Inr (op, None))"

definition ReadIndex_request :: "read_index_op \<Rightarrow> node_id \<Rightarrow> 's raft_node \<Rightarrow> append_entries_args option" where
  "ReadIndex_request op peerID n =
     (if node_role n \<noteq> Leader \<or> node_term n \<noteq> ri_term op then None
      else case fmlookup (NextIndex (LeaderProgress (n_state n))) peerID of
        None \<Rightarrow> None
      | Some nextIndex \<Rightarrow>
          let args = \<lparr>ae_Term = ri_term op, ae_LeaderID = n_id n, ae_PrevLogIndex = 0, ae_PrevLogTerm = 0,
                      ae_Entries = [], ae_LeaderCommit = ri_commit op\<rparr>
          in if nextIndex > 1 then
               (case log_Get (n_log n) (nextIndex - 1) of
                  None \<Rightarrow> None
                | Some prevEntry \<Rightarrow>
                    Some (args\<lparr>ae_PrevLogIndex := nextIndex - 1, ae_PrevLogTerm := Term prevEntry\<rparr>))
             else Some args)"

datatype read_index_outcome = ReadFail go_error | ReadWait "node_id set" | ReadAt log_index

definition ReadIndex_reply ::
  "'s storage_ops \<Rightarrow> read_index_op \<Rightarrow> node_id set \<Rightarrow> node_id \<Rightarrow> append_entries_reply \<Rightarrow> 's raft_node \<Rightarrow>
   read_index_outcome \<times> 's raft_node" where
  "ReadIndex_reply ops op acks peerID reply n =
     (if aer_Term reply > ri_term op then
        (case becomeFollowerLocked ops (aer_Term reply) n of
           (Some err, n') \<Rightarrow> (ReadFail (Wrapf ''raft: step down during ReadIndex'' [err]), n')
         | (None, n') \<Rightarrow> (ReadFail (Message ''raft: leadership lost during ReadIndex''), n'))
      else if aer_Term reply \<noteq> ri_term op \<or> \<not> aer_Success reply then (ReadWait acks, n)
      else
        let acks' = insert peerID acks
        in if \<not> membershipHasQuorum (ri_membership op) acks' then (ReadWait acks', n)
           else if \<not> (node_role n = Leader \<and> node_term n = ri_term op)
           then (ReadFail (Message ''raft: leadership lost during ReadIndex''), n)
           else (ReadAt (if node_commit n > ri_commit op then ri_commit op else node_commit n), n))"

end
