(* ===== verification/Raft_Snapshot.thy ===== *)
theory Raft_Snapshot
  imports Raft_Apply
begin

text \<open>
  Snapshots (\<^verbatim>\<open>node_snapshot.go\<close>).  \<^verbatim>\<open>InstallSnapshot\<close> releases the node mutex while the state machine
  restores the snapshot, so it is two sections: \<open>InstallSnapshot_begin\<close> returns the snapshot to restore,
  \<open>InstallSnapshot_finish\<close> runs when the restore has succeeded.
\<close>

section \<open>Creating a snapshot\<close>

definition validateSnapshotRequestLocked :: "log_index \<Rightarrow> 's raft_node \<Rightarrow> log_entry result" where
  "validateSnapshotRequestLocked index n =
     (if index > node_applied n then Inl (Message ''cannot snapshot unapplied index'')
      else if index > node_commit n then Inl (Message ''cannot snapshot uncommitted index'')
      else if index = 0 then Inl (Message ''cannot snapshot index 0'')
      else case log_Get (n_log n) index of
        None \<Rightarrow> Inl (Message ''cannot snapshot missing log index'')
      | Some entry \<Rightarrow> Inr entry)"

definition persistSnapshotLocked ::
  "'s storage_ops \<Rightarrow> snapshot \<Rightarrow> 's raft_node \<Rightarrow> go_error option \<times> 's raft_node" where
  "persistSnapshotLocked ops snap n =
     (case op_SaveSnapshot ops snap (n_storage n) of
        (Some err, s) \<Rightarrow> (Some (Wrapf ''save installed snapshot'' [err]), n\<lparr>n_storage := s\<rparr>)
      | (None, s) \<Rightarrow>
        (case op_Sync ops s of
           (Some err, s') \<Rightarrow> (Some (Wrapf ''sync installed snapshot'' [err]), n\<lparr>n_storage := s'\<rparr>)
         | (None, s') \<Rightarrow> (None, n\<lparr>n_storage := s'\<rparr>)))"

definition persistAndCompactSnapshotLocked ::
  "'s storage_ops \<Rightarrow> snapshot \<Rightarrow> 's raft_node \<Rightarrow> go_error option \<times> 's raft_node" where
  "persistAndCompactSnapshotLocked ops snap n =
     (case op_SaveSnapshot ops snap (n_storage n) of
        (Some err, s) \<Rightarrow> (Some (Wrapf ''save snapshot'' [err]), n\<lparr>n_storage := s\<rparr>)
      | (None, s) \<Rightarrow>
        (case op_Sync ops s of
           (Some err, s1) \<Rightarrow> (Some (Wrapf ''sync snapshot'' [err]), n\<lparr>n_storage := s1\<rparr>)
         | (None, s1) \<Rightarrow>
           (case op_Compact ops snap s1 of
              (Some err, s2) \<Rightarrow>
                (Some (Wrapf ''compact durable storage after snapshot'' [err]), n\<lparr>n_storage := s2\<rparr>)
            | (None, s2) \<Rightarrow>
              (case log_Compact (n_log n) snap of
                 Inl err \<Rightarrow> (Some (Wrapf ''compact log after snapshot'' [err]), n\<lparr>n_storage := s2\<rparr>)
               | Inr log \<Rightarrow> (None, n\<lparr>n_storage := s2, n_log := log\<rparr>)))))"

definition CreateSnapshot ::
  "'s storage_ops \<Rightarrow> log_index \<Rightarrow> bytes \<Rightarrow> 's raft_node \<Rightarrow> go_error option \<times> 's raft_node" where
  "CreateSnapshot ops index data n =
     (case validateSnapshotRequestLocked index n of
        Inl err \<Rightarrow> (Some err, n)
      | Inr entry \<Rightarrow>
          persistAndCompactSnapshotLocked ops
            \<lparr>LastIncludedIndex = index, LastIncludedTerm = Term entry, SnapData = data\<rparr> n)"

section \<open>Installing a snapshot\<close>

definition install_in_term ::
  "'s storage_ops \<Rightarrow> install_snapshot_args \<Rightarrow> 's raft_node \<Rightarrow>
   (install_snapshot_reply \<times> snapshot option) \<times> 's raft_node" where
  "install_in_term ops args n =
     (let n1 = n\<lparr>n_state := (n_state n)\<lparr>Role := Follower, LeaderID := is_LeaderID args\<rparr>, n_electionElapsed := 0\<rparr>;
          reply = \<lparr>isr_Term = node_term n1, isr_FollowerID = n_id n1, isr_Success = False\<rparr>
      in if is_LastIncludedIndex args \<le> lastIncludedIndex (n_log n1)
         then ((reply\<lparr>isr_Success := True\<rparr>, None), n1)
         else if \<not> n_snapshotRestore n1 then ((reply, None), n1)
         else
           let snap = \<lparr>LastIncludedIndex = is_LastIncludedIndex args,
                       LastIncludedTerm = is_LastIncludedTerm args, SnapData = is_Data args\<rparr>
           in case persistSnapshotLocked ops snap n1 of
             (Some err, n2) \<Rightarrow> ((reply, None), n2)
           | (None, n2) \<Rightarrow> ((reply, Some snap), n2))"

definition InstallSnapshot_begin ::
  "'s storage_ops \<Rightarrow> install_snapshot_args \<Rightarrow> 's raft_node \<Rightarrow>
   (install_snapshot_reply \<times> snapshot option) \<times> 's raft_node" where
  "InstallSnapshot_begin ops args n =
     (let reply = \<lparr>isr_Term = node_term n, isr_FollowerID = n_id n, isr_Success = False\<rparr>
      in if is_Term args < node_term n then ((reply, None), n)
         else if is_Term args > node_term n then
           let persistentState = (node_persistent n)\<lparr>CurrentTerm := is_Term args, VotedFor := []\<rparr>
           in case persist ops persistentState (n_storage n) of
             (Some err, s) \<Rightarrow> ((reply, None), n\<lparr>n_storage := s\<rparr>)
           | (None, s) \<Rightarrow>
               install_in_term ops args
                 (n\<lparr>n_storage := s, n_state := (n_state n)\<lparr>Persistent := persistentState\<rparr>\<rparr>)
         else install_in_term ops args n)"

definition InstallSnapshot_finish ::
  "'s storage_ops \<Rightarrow> snapshot \<Rightarrow> install_snapshot_reply \<Rightarrow> 's raft_node \<Rightarrow> install_snapshot_reply \<times> 's raft_node" where
  "InstallSnapshot_finish ops snap reply n =
     (case op_Compact ops snap (n_storage n) of
        (Some err, s) \<Rightarrow> (reply, n\<lparr>n_storage := s\<rparr>)
      | (None, s) \<Rightarrow>
        (case log_RestoreSnapshot (n_log n) snap of
           Inl err \<Rightarrow> (reply, n\<lparr>n_storage := s\<rparr>)
         | Inr log \<Rightarrow>
             let n1 = n\<lparr>n_storage := s, n_log := log\<rparr>;
                 n2 = (if node_commit n1 < LastIncludedIndex snap then set_commit (LastIncludedIndex snap) n1
                       else n1);
                 n3 = (if node_applied n2 < LastIncludedIndex snap then set_applied (LastIncludedIndex snap) n2
                       else n2)
             in (reply\<lparr>isr_Success := True\<rparr>, n3)))"

section \<open>Sending a snapshot\<close>

definition buildInstallSnapshot ::
  "'s storage_ops \<Rightarrow> node_id \<Rightarrow> 's raft_node \<Rightarrow> install_snapshot_args option" where
  "buildInstallSnapshot ops peerID n =
     (if node_role n \<noteq> Leader then None
      else case fmlookup (NextIndex (LeaderProgress (n_state n))) peerID of
        None \<Rightarrow> None
      | Some nextIndex \<Rightarrow>
        (case op_LoadSnapshot ops (n_storage n) of
           Inl err \<Rightarrow> None
         | Inr snap \<Rightarrow>
             if LastIncludedIndex snap = 0 then None
             else if nextIndex > LastIncludedIndex snap then None
             else Some \<lparr>is_Term = node_term n, is_LeaderID = n_id n,
                        is_LastIncludedIndex = LastIncludedIndex snap,
                        is_LastIncludedTerm = LastIncludedTerm snap, is_Data = SnapData snap\<rparr>))"

definition handleInstallSnapshotReply ::
  "'s storage_ops \<Rightarrow> node_id \<Rightarrow> install_snapshot_args \<Rightarrow> install_snapshot_reply \<Rightarrow> 's raft_node \<Rightarrow>
   bool \<times> 's raft_node" where
  "handleInstallSnapshotReply ops peerID args reply n =
     (if isr_Term reply > node_term n then (False, snd (adopt_term ops (isr_Term reply) n))
      else if node_role n \<noteq> Leader then (False, n)
      else if is_Term args \<noteq> node_term n then (False, n)
      else if \<not> isr_Success reply then (False, n)
      else
        let lp = LeaderProgress (n_state n);
            lp1 = (if is_LastIncludedIndex args > map_index (MatchIndex lp) peerID
                   then lp\<lparr>MatchIndex := fmupd peerID (is_LastIncludedIndex args) (MatchIndex lp)\<rparr> else lp);
            nextIndex = inc64 (is_LastIncludedIndex args);
            lp2 = (if nextIndex > map_index (NextIndex lp1) peerID
                   then lp1\<lparr>NextIndex := fmupd peerID nextIndex (NextIndex lp1)\<rparr> else lp1)
        in advanceCommitIndexLocked (n\<lparr>n_state := (n_state n)\<lparr>LeaderProgress := lp2\<rparr>\<rparr>))"

end
