(* ===== verification/Server.thy ===== *)
theory Server
  imports KV_Applier Raft_Snapshot Raft_Apply
begin

text \<open>
  The server (\<^verbatim>\<open>internal/server\<close>): the operations a client calls.  An operation proposes a command and waits until
  the applier of this node has applied the index it was given.  Between two calls the rest of the
  program runs, so the operations are written over a record of what they call, on a state \<open>'w\<close> that holds everything else;
  \<open>Local_Cluster\<close> fills it with the node and the applier.  \<^verbatim>\<open>EncodeCommand\<close> does not fail on a
  \<^verbatim>\<open>Command\<close>, so the branches for its error are not there.
\<close>

section \<open>What the server calls\<close>

record 'w cluster_env =
  ce_Role :: "'w \<Rightarrow> role"
  ce_Propose :: "bytes \<Rightarrow> 'w \<Rightarrow> log_index result \<times> 'w"
  ce_ReadIndex :: "'w \<Rightarrow> log_index result \<times> 'w"
  ce_WaitApplied :: "log_index \<Rightarrow> 'w \<Rightarrow> go_error option \<times> 'w"
  ce_WaitResult :: "log_index \<Rightarrow> 'w \<Rightarrow> apply_result result \<times> 'w"
  ce_store :: "'w \<Rightarrow> store"
  ce_now :: "'w \<Rightarrow> int \<times> 'w"
  ce_ctxErr :: "'w \<Rightarrow> go_error option"

text \<open>Signed 64-bit arithmetic.\<close>

definition wrap64 :: "int \<Rightarrow> int" where
  "wrap64 x = (x + 2 ^ 63) mod 2 ^ 64 - 2 ^ 63"

lemma wrap64_id: "fits_int64 x \<Longrightarrow> wrap64 x = x"
  by (simp add: wrap64_def)

section \<open>Plain keys\<close>

definition server_Get :: "'w cluster_env \<Rightarrow> string \<Rightarrow> 'w \<Rightarrow> bytes option result \<times> 'w" where
  "server_Get env key w =
     (case ce_ReadIndex env w of
        (Inl err, w1) \<Rightarrow> (Inl (Wrapf ''read index'' [err]), w1)
      | (Inr index, w1) \<Rightarrow>
        (case ce_WaitApplied env index w1 of
           (Some err, w2) \<Rightarrow> (Inl (Wrapf ''wait for read index'' [err]), w2)
         | (None, w2) \<Rightarrow> (Inr (store_Get (ce_store env w2) key), w2)))"

definition server_Put :: "'w cluster_env \<Rightarrow> string \<Rightarrow> bytes \<Rightarrow> 'w \<Rightarrow> go_error option \<times> 'w" where
  "server_Put env key v w =
     (case ce_Propose env (EncodeCommand (zero_command\<lparr>CType := CommandPut, CKey := key, CValue := v\<rparr>)) w of
        (Inl err, w1) \<Rightarrow> (Some (Wrapf ''propose put command'' [err]), w1)
      | (Inr index, w1) \<Rightarrow>
        (case ce_WaitApplied env index w1 of
           (Some err, w2) \<Rightarrow> (Some (Wrapf ''wait for put application'' [err]), w2)
         | (None, w2) \<Rightarrow> (None, w2)))"

definition server_Delete :: "'w cluster_env \<Rightarrow> string \<Rightarrow> 'w \<Rightarrow> go_error option \<times> 'w" where
  "server_Delete env key w =
     (case ce_Propose env (EncodeCommand (zero_command\<lparr>CType := CommandDelete, CKey := key\<rparr>)) w of
        (Inl err, w1) \<Rightarrow> (Some (Wrapf ''propose delete command'' [err]), w1)
      | (Inr index, w1) \<Rightarrow>
        (case ce_WaitApplied env index w1 of
           (Some err, w2) \<Rightarrow> (Some (Wrapf ''wait for delete application'' [err]), w2)
         | (None, w2) \<Rightarrow> (None, w2)))"

section \<open>Locks\<close>

record lock_grant =
  lg_Key :: string
  lg_OwnerID :: string
  lg_FencingToken :: nat
  lg_ExpiresAt :: int

text \<open>
  \<^verbatim>\<open>time.Now().Add(time.Duration(leaseMillis) * time.Millisecond).UnixNano()\<close>: the product is a 64-bit one, and so is
  the result of \<^verbatim>\<open>UnixNano\<close>.
\<close>

definition lease_end :: "int \<Rightarrow> int \<Rightarrow> int" where
  "lease_end now leaseMillis = wrap64 (now + wrap64 (leaseMillis * 1000000))"

definition server_AcquireLock ::
  "'w cluster_env \<Rightarrow> string \<Rightarrow> string \<Rightarrow> int \<Rightarrow> 'w \<Rightarrow> lock_grant result \<times> 'w" where
  "server_AcquireLock env key ownerID leaseMillis w =
     (if key = [] then (Inl ErrInvalidKey, w)
      else if ownerID = [] then (Inl ErrInvalidOwner, w)
      else if leaseMillis \<le> 0 then (Inl (Message ''lease duration must be positive''), w)
      else case ce_now env w of (now, w0) \<Rightarrow>
        (case ce_Propose env (EncodeCommand (zero_command\<lparr>CType := CommandLockAcquire, CKey := key, COwnerID := ownerID,
                CExpiresAt := lease_end now leaseMillis\<rparr>)) w0 of
           (Inl err, w1) \<Rightarrow> (Inl (Wrapf ''propose lock acquire command'' [err]), w1)
         | (Inr index, w1) \<Rightarrow>
           (case ce_WaitApplied env index w1 of
              (Some err, w2) \<Rightarrow> (Inl (Wrapf ''wait for lock acquisition'' [err]), w2)
            | (None, w2) \<Rightarrow>
              (case GetLock (ce_store env w2) key of
                 None \<Rightarrow> (Inl ErrLockBusy, w2)
               | Some current \<Rightarrow>
                   if GrantIndex current \<noteq> index then (Inl ErrLockBusy, w2)
                   else if OwnerID current \<noteq> ownerID then (Inl ErrLockBusy, w2)
                   else (Inr \<lparr>lg_Key = LockKey current, lg_OwnerID = OwnerID current,
                              lg_FencingToken = FencingToken current, lg_ExpiresAt = ExpiresAt current\<rparr>, w2)))))"

definition server_FencedPut :: "'w cluster_env \<Rightarrow> string \<Rightarrow> bytes \<Rightarrow> nat \<Rightarrow> 'w \<Rightarrow> go_error option \<times> 'w" where
  "server_FencedPut env key v fencingToken w =
     (if key = [] then (Some ErrInvalidKey, w)
      else if fencingToken = 0 then (Some ErrStaleFencingToken, w)
      else case ce_Propose env (EncodeCommand (zero_command\<lparr>CType := CommandFencedPut, CKey := key, CValue := v,
                CFencingToken := fencingToken\<rparr>)) w of
        (Inl err, w1) \<Rightarrow> (Some (Wrapf ''propose fenced put command'' [err]), w1)
      | (Inr index, w1) \<Rightarrow>
        (case ce_WaitResult env index w1 of
           (Inl err, w2) \<Rightarrow> (Some (Wrapf ''wait for fenced put'' [err]), w2)
         | (Inr res, w2) \<Rightarrow> (ResErr res, w2)))"

section \<open>Jobs\<close>

text \<open>The index is returned with an error of the state machine too.\<close>

definition server_CreateJob ::
  "'w cluster_env \<Rightarrow> string \<Rightarrow> bytes \<Rightarrow> int \<Rightarrow> 'w \<Rightarrow> (job result \<times> log_index) \<times> 'w" where
  "server_CreateJob env jobID payload scheduledAt w =
     (if jobID = [] then ((Inl (Wrapf ''job id is required'' [ErrInvalidJob]), 0), w)
      else case ce_Propose env (EncodeCommand (zero_command\<lparr>CType := CommandCreateJob, CJobID := jobID,
                CPayload := payload, CScheduledAt := scheduledAt\<rparr>)) w of
        (Inl err, w1) \<Rightarrow> ((Inl (Wrapf ''propose create job command'' [err]), 0), w1)
      | (Inr index, w1) \<Rightarrow>
        (case ce_WaitResult env index w1 of
           (Inl err, w2) \<Rightarrow> ((Inl (Wrapf ''wait for job creation'' [err]), 0), w2)
         | (Inr res, w2) \<Rightarrow>
           (case ResErr res of
              Some err \<Rightarrow> ((Inl err, index), w2)
            | None \<Rightarrow>
              (case ResJob res of
                 None \<Rightarrow> ((Inl (Message ''create job: missing job result''), index), w2)
               | Some j \<Rightarrow> ((Inr j, index), w2)))))"

section \<open>Expiration of locks\<close>

record snapshot_config =
  Interval :: int
  Threshold :: log_index

record server =
  pendingExpiration :: "(string, nat) fmap"
  snapshotConfig :: snapshot_config

definition markExpirationPending :: "string \<Rightarrow> nat \<Rightarrow> server \<Rightarrow> bool \<times> server" where
  "markExpirationPending key token srv =
     (if fmlookup (pendingExpiration srv) key = Some token then (False, srv)
      else (True, srv\<lparr>pendingExpiration := fmupd key token (pendingExpiration srv)\<rparr>))"

definition clearExpirationPending :: "string \<Rightarrow> nat \<Rightarrow> server \<Rightarrow> server" where
  "clearExpirationPending key token srv =
     (if fmlookup (pendingExpiration srv) key \<noteq> Some token then srv
      else srv\<lparr>pendingExpiration := fmdrop key (pendingExpiration srv)\<rparr>)"

text \<open>The loop over the locks: the keys and tokens it starts a goroutine for.\<close>

fun expire_each :: "int \<Rightarrow> lock list \<Rightarrow> server \<Rightarrow> (string \<times> nat) list \<times> server" where
  "expire_each now [] srv = ([], srv)"
| "expire_each now (current # locks) srv =
     (if ExpiresAt current \<le> 0 \<or> ExpiresAt current > now then expire_each now locks srv
      else case markExpirationPending (LockKey current) (FencingToken current) srv of
        (False, srv1) \<Rightarrow> expire_each now locks srv1
      | (True, srv1) \<Rightarrow>
          (case expire_each now locks srv1 of
             (started, srv2) \<Rightarrow> ((LockKey current, FencingToken current) # started, srv2)))"

definition expireLocks :: "'w cluster_env \<Rightarrow> server \<Rightarrow> 'w \<Rightarrow> (string \<times> nat) list \<times> server \<times> 'w" where
  "expireLocks env srv w =
     (if ce_Role env w \<noteq> Leader then ([], srv, w)
      else case ce_now env w of (now, w1) \<Rightarrow>
        (case expire_each now (ListLocks (ce_store env w1)) srv of (started, srv1) \<Rightarrow> (started, srv1, w1)))"

definition expire_command :: "string \<Rightarrow> nat \<Rightarrow> command" where
  "expire_command key token = zero_command\<lparr>CType := CommandLockExpire, CKey := key, CFencingToken := token\<rparr>"

text \<open>The goroutine; the pending mark is cleared on every path.\<close>

definition proposeLockExpiration :: "'w cluster_env \<Rightarrow> string \<Rightarrow> nat \<Rightarrow> server \<Rightarrow> 'w \<Rightarrow> server \<times> 'w" where
  "proposeLockExpiration env key token srv w =
     (clearExpirationPending key token srv,
      case ce_Propose env (EncodeCommand (expire_command key token)) w of
        (Inl err, w1) \<Rightarrow> w1
      | (Inr index, w1) \<Rightarrow> snd (ce_WaitApplied env index w1))"

section \<open>Snapshots and start\<close>

abbreviation ErrInvalidSnapshotConfig :: go_error where
  "ErrInvalidSnapshotConfig \<equiv> Sentinel ''invalid snapshot configuration''"

definition DefaultSnapshotInterval :: int where "DefaultSnapshotInterval = 1000000000"

definition DefaultSnapshotThreshold :: log_index where "DefaultSnapshotThreshold = 1000"

definition snapshot_config_validate :: "snapshot_config \<Rightarrow> go_error option" where
  "snapshot_config_validate c =
     (if Interval c \<le> 0 then Some (Wrapf ''interval must be positive'' [ErrInvalidSnapshotConfig])
      else if Threshold c \<le> 0 then Some (Wrapf ''threshold must be positive'' [ErrInvalidSnapshotConfig])
      else None)"

text \<open>\<^verbatim>\<open>NewServer\<close> gives the node the applier's restore function.\<close>

definition NewServer :: "'s raft_node \<Rightarrow> store \<Rightarrow> server \<times> applier \<times> 's raft_node" where
  "NewServer n s =
     (\<lparr>pendingExpiration = fmempty,
       snapshotConfig = \<lparr>Interval = DefaultSnapshotInterval, Threshold = DefaultSnapshotThreshold\<rparr>\<rparr>,
      NewApplier s, SetSnapshotRestore n)"

definition SetSnapshotConfig :: "snapshot_config \<Rightarrow> server \<Rightarrow> go_error option \<times> server" where
  "SetSnapshotConfig c srv =
     (case snapshot_config_validate c of
        Some err \<Rightarrow> (Some err, srv)
      | None \<Rightarrow> (None, srv\<lparr>snapshotConfig := c\<rparr>))"

text \<open>The part of \<^verbatim>\<open>Start\<close> before the goroutines.\<close>

definition server_Start :: "'s storage_ops \<Rightarrow> 's raft_node \<Rightarrow> applier \<Rightarrow> go_error option \<times> applier" where
  "server_Start ops n a =
     (case node_Snapshot ops n of
        Inl err \<Rightarrow> (Some (Wrapf ''load raft snapshot'' [err]), a)
      | Inr snap \<Rightarrow>
          if LastIncludedIndex snap > 0 then
            (case applier_RestoreSnapshot snap a of
               (Some err, a') \<Rightarrow> (Some (Wrapf ''restore snapshot'' [err]), a')
             | (None, a') \<Rightarrow> (None, a'))
          else (None, a))"

definition maybeCreateSnapshot ::
  "'s storage_ops \<Rightarrow> server \<Rightarrow> applier \<Rightarrow> 's raft_node \<Rightarrow> go_error option \<times> 's raft_node" where
  "maybeCreateSnapshot ops srv a n =
     (case node_Snapshot ops n of
        Inl err \<Rightarrow> (Some (Wrapf ''load current snapshot'' [err]), n)
      | Inr currentSnapshot \<Rightarrow>
        (case applier_Snapshot a of (data, appliedIndex) \<Rightarrow>
           if appliedIndex = 0 then (None, n)
           else if appliedIndex \<le> LastIncludedIndex currentSnapshot then (None, n)
           else if appliedIndex - LastIncludedIndex currentSnapshot < Threshold (snapshotConfig srv) then (None, n)
           else
             (case CreateSnapshot ops appliedIndex data n of
                (Some err, n') \<Rightarrow> (Some (Wrapf ''create snapshot'' [err]), n')
              | (None, n') \<Rightarrow> (None, n'))))"

end
