(* ===== verification/Scheduler.thy ===== *)
theory Scheduler
  imports Server "HOL-Library.Word" "HOL-Library.Multiset"
begin

text \<open>
  The scheduler (\<^verbatim>\<open>internal/scheduler\<close>): on the leader it returns the jobs of expired leases to the queue and assigns
  the due ones to workers, chosen by a hash of the job's name.  It calls the node, the applier and the store through the
  record \<open>cluster_env\<close>, like the server.
\<close>

unbundle bit_operations_syntax

abbreviation ContextCanceled :: go_error where "ContextCanceled \<equiv> Sentinel ''context canceled''"
abbreviation DeadlineExceeded :: go_error where "DeadlineExceeded \<equiv> Sentinel ''context deadline exceeded''"
abbreviation ErrNoWorkers :: go_error where "ErrNoWorkers \<equiv> Sentinel ''no workers configured''"
abbreviation ErrInvalidInterval :: go_error where
  "ErrInvalidInterval \<equiv> Sentinel ''scheduler interval must be positive''"
abbreviation ErrInvalidLease :: go_error where "ErrInvalidLease \<equiv> Sentinel ''scheduler lease must be positive''"

definition context_error :: "go_error \<Rightarrow> bool" where
  "context_error err \<longleftrightarrow> errors_is err ContextCanceled \<or> errors_is err DeadlineExceeded"

section \<open>Choosing a worker\<close>

text \<open>\<^verbatim>\<open>hash/fnv\<close>, 32-bit FNV-1a.\<close>

definition fnv32a :: "bytes \<Rightarrow> 32 word" where
  "fnv32a bs = foldl (\<lambda>hash c. (hash XOR word_of_nat (byte c)) * 16777619) 2166136261 bs"

definition NewHashWorkerSelector :: "string list \<Rightarrow> string list result" where
  "NewHashWorkerSelector workers =
     (if workers = [] then Inl ErrNoWorkers
      else if list_ex (\<lambda>worker. worker = []) workers then Inl (Message ''worker ID must not be empty'')
      else
        let copied = sort workers
        in if list_ex (\<lambda>i. copied ! i = copied ! (i - 1)) [1 ..< length copied] then Inl (Message ''duplicate worker ID'')
           else Inr copied)"

definition SelectWorker :: "string list \<Rightarrow> job \<Rightarrow> string result" where
  "SelectWorker workers job =
     (if workers = [] then Inl ErrNoWorkers
      else Inr (workers ! (unat (fnv32a (JobIDOf job)) mod length workers)))"

section \<open>The scheduler\<close>

record scheduler =
  sch_selector :: "job \<Rightarrow> string result"
  sch_interval :: int
  sch_lease :: int

text \<open>The arguments of \<^verbatim>\<open>New\<close> that may be nil are options; they only have to be there.\<close>

definition NewScheduler ::
  "'n option \<Rightarrow> 's option \<Rightarrow> 'a option \<Rightarrow> (job \<Rightarrow> string result) option \<Rightarrow> int \<Rightarrow> int \<Rightarrow> scheduler result" where
  "NewScheduler raftNode sto app selector interval lease =
     (if raftNode = None then Inl (Message ''raft node is required'')
      else if sto = None then Inl (Message ''store is required'')
      else if app = None then Inl (Message ''applier is required'')
      else case selector of
        None \<Rightarrow> Inl (Message ''worker selector is required'')
      | Some sel \<Rightarrow>
          if interval \<le> 0 then Inl ErrInvalidInterval
          else if lease \<le> 0 then Inl ErrInvalidLease
          else Inr \<lparr>sch_selector = sel, sch_interval = interval, sch_lease = lease\<rparr>)"

definition isExpectedReclaimError :: "go_error \<Rightarrow> bool" where
  "isExpectedReclaimError err \<longleftrightarrow>
     errors_is err ErrJobNotFound \<or> errors_is err ErrInvalidJobState \<or> errors_is err ErrJobOwnershipLost"

definition reclaim_command :: "job \<Rightarrow> int \<Rightarrow> command" where
  "reclaim_command job now =
     zero_command\<lparr>CType := CommandJobReclaim, CJobID := JobIDOf job, CFencingToken := JobToken job, CAt := now\<rparr>"

definition reclaimExpiredJob :: "'w cluster_env \<Rightarrow> job \<Rightarrow> int \<Rightarrow> 'w \<Rightarrow> go_error option \<times> 'w" where
  "reclaimExpiredJob env job now w =
     (if JobToken job = 0 then (None, w)
      else case ce_Propose env (EncodeCommand (reclaim_command job now)) w of
        (Inl err, w1) \<Rightarrow> (Some err, w1)
      | (Inr index, w1) \<Rightarrow>
        (case ce_WaitResult env index w1 of
           (Inl err, w2) \<Rightarrow> (Some (Wrapf ''wait for job reclaim result'' [err]), w2)
         | (Inr res, w2) \<Rightarrow> (ResErr res, w2)))"

fun reclaim_each :: "'w cluster_env \<Rightarrow> int \<Rightarrow> job list \<Rightarrow> 'w \<Rightarrow> go_error option \<times> 'w" where
  "reclaim_each env now [] w = (None, w)"
| "reclaim_each env now (job # jobs) w =
     (case reclaimExpiredJob env job now w of
        (None, w1) \<Rightarrow> reclaim_each env now jobs w1
      | (Some err, w1) \<Rightarrow>
          if context_error err then (Some err, w1)
          else if isExpectedReclaimError err then reclaim_each env now jobs w1
          else (Some err, w1))"

definition reclaimExpiredJobs :: "'w cluster_env \<Rightarrow> int \<Rightarrow> 'w \<Rightarrow> go_error option \<times> 'w" where
  "reclaimExpiredJobs env now w = reclaim_each env now (ListExpiredJobs (ce_store env w) now) w"

definition claim_command :: "job \<Rightarrow> string \<Rightarrow> int \<Rightarrow> command" where
  "claim_command job workerID expiresAt =
     zero_command\<lparr>CType := CommandClaimJob, CJobID := JobIDOf job, COwnerID := workerID, CExpiresAt := expiresAt\<rparr>"

definition scheduleJob :: "'w cluster_env \<Rightarrow> scheduler \<Rightarrow> job \<Rightarrow> 'w \<Rightarrow> go_error option \<times> 'w" where
  "scheduleJob env s job w =
     (case sch_selector s job of
        Inl err \<Rightarrow> (Some err, w)
      | Inr workerID \<Rightarrow>
        (case ce_now env w of (now, w0) \<Rightarrow>
        (case ce_Propose env (EncodeCommand (claim_command job workerID (wrap64 (now + sch_lease s)))) w0 of
           (Inl err, w1) \<Rightarrow> (Some err, w1)
         | (Inr index, w1) \<Rightarrow>
           (case ce_WaitResult env index w1 of
              (Inl err, w2) \<Rightarrow> (Some (Wrapf ''wait for job claim result'' [err]), w2)
            | (Inr res, w2) \<Rightarrow>
              (case ResErr res of
                 None \<Rightarrow> (None, w2)
               | Some err \<Rightarrow>
                   if errors_is err ErrJobAlreadyClaimed \<or> errors_is err ErrJobNotClaimable \<or> errors_is err ErrJobNotFound
                   then (None, w2)
                   else (Some err, w2))))))"

text \<open>The loop over the pending jobs stops at the first that is not due.\<close>

fun schedule_each :: "'w cluster_env \<Rightarrow> scheduler \<Rightarrow> int \<Rightarrow> job list \<Rightarrow> 'w \<Rightarrow> go_error option \<times> 'w" where
  "schedule_each env s now [] w = (None, w)"
| "schedule_each env s now (job # jobs) w =
     (if ScheduledAt job > now then (None, w)
      else case scheduleJob env s job w of
        (None, w1) \<Rightarrow> schedule_each env s now jobs w1
      | (Some err, w1) \<Rightarrow> if context_error err then (Some err, w1) else schedule_each env s now jobs w1)"

definition scheduleDueJobs :: "'w cluster_env \<Rightarrow> scheduler \<Rightarrow> 'w \<Rightarrow> go_error option \<times> 'w" where
  "scheduleDueJobs env s w =
     (if ce_Role env w \<noteq> Leader then (None, w)
      else case ce_now env w of (now, w0) \<Rightarrow>
        (case reclaimExpiredJobs env now w0 of
           (reclaimErr, w1) \<Rightarrow>
             if (case reclaimErr of None \<Rightarrow> False | Some err \<Rightarrow> context_error err) then (reclaimErr, w1)
             else schedule_each env s now (ListPendingJobs (ce_store env w1)) w1))"

text \<open>\<^verbatim>\<open>Run\<close>, for a number of ticks before its context ends.\<close>

fun scheduler_Run :: "'w cluster_env \<Rightarrow> scheduler \<Rightarrow> nat \<Rightarrow> go_error \<Rightarrow> 'w \<Rightarrow> go_error \<times> 'w" where
  "scheduler_Run env s 0 ctxErr w = (ctxErr, w)"
| "scheduler_Run env s (Suc ticks) ctxErr w =
     (case scheduleDueJobs env s w of
        (Some err, w') \<Rightarrow> if context_error err then (err, w') else scheduler_Run env s ticks ctxErr w'
      | (None, w') \<Rightarrow> scheduler_Run env s ticks ctxErr w')"

section \<open>The selector\<close>

lemma NewHashWorkerSelector_Inr:
  assumes "NewHashWorkerSelector ws = Inr ws'"
  shows "ws' = sort ws" "ws' \<noteq> []" "[] \<notin> set ws'" "distinct ws'"
proof -
  from assms show s: "ws' = sort ws" and "ws' \<noteq> []" "[] \<notin> set ws'"
    by (auto simp: NewHashWorkerSelector_def Let_def list_ex_iff split: if_splits)
      (metis length_0_conv length_sort)
  have "ws' ! i \<noteq> ws' ! Suc i" if "Suc i < length ws'" for i
    using assms s that by (force simp: NewHashWorkerSelector_def Let_def list_ex_iff split: if_splits)
  then have "sorted_wrt (<) ws'"
    using s sorted_sort [of ws] by (auto simp: sorted_wrt_iff_nth_Suc_transp sorted_iff_nth_Suc order_less_le)
  then show "distinct ws'" by (simp add: strict_sorted_iff)
qed

lemma NewHashWorkerSelector_mset:
  assumes "mset ws = mset vs"
  shows "NewHashWorkerSelector ws = NewHashWorkerSelector vs"
proof -
  have "sort ws = sort vs" using assms by (intro properties_for_sort [symmetric]) simp_all
  moreover have "set ws = set vs" using assms by (rule mset_eq_setD)
  ultimately show ?thesis by (auto simp: NewHashWorkerSelector_def list_ex_iff)
qed

end
