(* ===== verification/Worker.thy ===== *)
theory Worker
  imports Scheduler
begin

text \<open>
  The worker (\<^verbatim>\<open>internal/worker\<close>): it runs the jobs assigned to it.  The handler is the application's code, a
  parameter that may change the state of the world.  The worker's sentinels are values of their own, distinct from those of
  \<^verbatim>\<open>internal/kv\<close> with the same text.
\<close>

abbreviation ErrInvalidWorker :: go_error where "ErrInvalidWorker \<equiv> Sentinel ''worker: invalid worker''"
abbreviation ErrWorkerInvalidJob :: go_error where "ErrWorkerInvalidJob \<equiv> Sentinel ''worker: invalid job''"
abbreviation ErrOwnershipLost :: go_error where "ErrOwnershipLost \<equiv> Sentinel ''worker: job ownership lost''"

section \<open>State\<close>

record 'w worker =
  wk_id :: string
  wk_handler :: "job \<Rightarrow> 'w \<Rightarrow> go_error option \<times> 'w"
  wk_source :: bool
  wk_interval :: int

definition NewWorker :: "string \<Rightarrow> (job \<Rightarrow> 'w \<Rightarrow> go_error option \<times> 'w) option \<Rightarrow> 'w worker result" where
  "NewWorker wid handler =
     (if wid = [] then Inl (Wrapf ''missing worker ID'' [ErrInvalidWorker])
      else case handler of
        None \<Rightarrow> Inl (Wrapf ''missing job handler'' [ErrInvalidWorker])
      | Some h \<Rightarrow> Inr \<lparr>wk_id = wid, wk_handler = h, wk_source = False, wk_interval = 0\<rparr>)"

text \<open>The arguments that may be nil are given as whether they are there.\<close>

definition ConfigureLoop :: "bool \<Rightarrow> int \<Rightarrow> bool \<Rightarrow> bool \<Rightarrow> 'w worker \<Rightarrow> go_error option \<times> 'w worker" where
  "ConfigureLoop hasSource interval hasRaft hasApplier k =
     (if \<not> hasSource then (Some (Wrapf ''missing job source'' [ErrInvalidWorker]), k)
      else if interval \<le> 0 then (Some (Wrapf ''worker interval must be positive'' [ErrInvalidWorker]), k)
      else if \<not> hasRaft then (Some (Wrapf ''missing Raft node'' [ErrInvalidWorker]), k)
      else if \<not> hasApplier then (Some (Wrapf ''missing applier'' [ErrInvalidWorker]), k)
      else (None, k\<lparr>wk_source := True, wk_interval := interval\<rparr>))"

section \<open>One job\<close>

definition worker_Execute :: "'w cluster_env \<Rightarrow> 'w worker \<Rightarrow> job \<Rightarrow> 'w \<Rightarrow> go_error option \<times> 'w" where
  "worker_Execute env k job w =
     (if JobIDOf job = [] then (Some (Wrapf ''missing job ID'' [ErrWorkerInvalidJob]), w)
      else case ce_ctxErr env w of
        Some err \<Rightarrow> (Some err, w)
      | None \<Rightarrow>
        (case wk_handler k job w of
           (Some err, w1) \<Rightarrow> (Some (Wrapf ''execute job'' [err]), w1)
         | (None, w1) \<Rightarrow> (None, w1)))"

definition transition_command :: "'w worker \<Rightarrow> job \<Rightarrow> string \<Rightarrow> job_state \<Rightarrow> int \<Rightarrow> command" where
  "transition_command k job commandType expectedState now =
     zero_command\<lparr>CType := commandType, CJobID := JobIDOf job, COwnerID := wk_id k, CExecutionID := JobExecutionID job,
       CFencingToken := JobToken job, CExpectedState := expectedState, CAt := now\<rparr>"

definition transitionJob ::
  "'w cluster_env \<Rightarrow> 'w worker \<Rightarrow> job \<Rightarrow> string \<Rightarrow> job_state \<Rightarrow> job_state \<Rightarrow> 'w \<Rightarrow> job result \<times> 'w" where
  "transitionJob env k job commandType expectedState nextState w =
     (case ce_now env w of (now, w0) \<Rightarrow>
     (case ce_Propose env (EncodeCommand (transition_command k job commandType expectedState now)) w0 of
        (Inl err, w1) \<Rightarrow> (Inl (Wrapf ''propose job transition'' [err]), w1)
      | (Inr index, w1) \<Rightarrow>
        (case ce_WaitResult env index w1 of
           (Inl err, w2) \<Rightarrow> (Inl (Wrapf ''wait for job transition'' [err]), w2)
         | (Inr res, w2) \<Rightarrow>
           (case ResErr res of
              Some err \<Rightarrow> (Inl err, w2)
            | None \<Rightarrow>
              (case ResJob res of
                 None \<Rightarrow> (Inl (Message ''job transition returned no job''), w2)
               | Some j \<Rightarrow>
                   if JState j \<noteq> nextState then (Inl (Message ''job transition produced unexpected state''), w2)
                   else (Inr j, w2))))))"

text \<open>
  The body of the loop over the assigned jobs.  The result is the error that ends \<^verbatim>\<open>executeAssignedJobs\<close>;
  every \<^verbatim>\<open>continue\<close> is \<open>None\<close>.  First what follows the handler.
\<close>

definition finish_job :: "'w cluster_env \<Rightarrow> 'w worker \<Rightarrow> job \<Rightarrow> go_error option \<Rightarrow> 'w \<Rightarrow> go_error option \<times> 'w" where
  "finish_job env k runningJob executionErr w =
     (case (if executionErr = None
            then transitionJob env k runningJob CommandJobSucceeded JobRunning JobSucceeded w
            else transitionJob env k runningJob CommandJobFailed JobRunning JobFailed w) of
        (Inr _, w1) \<Rightarrow> (None, w1)
      | (Inl transitionErr, w1) \<Rightarrow>
          if errors_is transitionErr ErrJobOwnershipLost \<or> errors_is transitionErr ErrOwnershipLost then (None, w1)
          else if context_error transitionErr then (Some transitionErr, w1)
          else (None, w1))"

definition execute_assigned_job :: "'w cluster_env \<Rightarrow> 'w worker \<Rightarrow> job \<Rightarrow> 'w \<Rightarrow> go_error option \<times> 'w" where
  "execute_assigned_job env k job w =
     (case ce_now env w of (now, w0) \<Rightarrow>
      if \<not> ValidateJobOwnership (ce_store env w0) (JobIDOf job) (wk_id k) (JobToken job) now then (None, w0)
      else case transitionJob env k job CommandJobStart JobScheduled JobRunning w0 of
        (Inl err, w1) \<Rightarrow>
          if errors_is err ErrJobOwnershipLost \<or> errors_is err ErrOwnershipLost then (None, w1)
          else if errors_is err ErrInvalidJobState then (None, w1)
          else if context_error err then (Some err, w1)
          else (None, w1)
      | (Inr runningJob, w1) \<Rightarrow>
        (case worker_Execute env k runningJob w1 of
           (executionErr, w2) \<Rightarrow> finish_job env k runningJob executionErr w2))"

fun execute_each :: "'w cluster_env \<Rightarrow> 'w worker \<Rightarrow> job list \<Rightarrow> 'w \<Rightarrow> go_error option \<times> 'w" where
  "execute_each env k [] w = (None, w)"
| "execute_each env k (job # jobs) w =
     (case execute_assigned_job env k job w of
        (Some err, w1) \<Rightarrow> (Some err, w1)
      | (None, w1) \<Rightarrow> execute_each env k jobs w1)"

definition executeAssignedJobs :: "'w cluster_env \<Rightarrow> 'w worker \<Rightarrow> 'w \<Rightarrow> go_error option \<times> 'w" where
  "executeAssignedJobs env k w = execute_each env k (ListAssignedJobs (ce_store env w) (wk_id k)) w"

text \<open>The loop of \<^verbatim>\<open>Run\<close>: it works once before it first looks at its context.\<close>

fun worker_loop :: "'w cluster_env \<Rightarrow> 'w worker \<Rightarrow> nat \<Rightarrow> go_error \<Rightarrow> 'w \<Rightarrow> go_error \<times> 'w" where
  "worker_loop env k ticks ctxErr w =
     (case executeAssignedJobs env k w of
        (err, w') \<Rightarrow>
          if (case err of None \<Rightarrow> False | Some e \<Rightarrow> context_error e) then (the err, w')
          else case ticks of
            0 \<Rightarrow> (ctxErr, w')
          | Suc ticks' \<Rightarrow> worker_loop env k ticks' ctxErr w')"

definition worker_Run :: "'w cluster_env \<Rightarrow> 'w worker \<Rightarrow> nat \<Rightarrow> go_error \<Rightarrow> 'w \<Rightarrow> go_error \<times> 'w" where
  "worker_Run env k ticks ctxErr w =
     (if \<not> wk_source k then (Wrapf ''job source is not configured'' [ErrInvalidWorker], w)
      else if wk_interval k \<le> 0 then (Wrapf ''invalid worker interval'' [ErrInvalidWorker], w)
      else worker_loop env k ticks ctxErr w)"

declare worker_loop.simps [simp del]

end
