(* ===== verification/Service_Contract.thy ===== *)
theory Service_Contract
  imports Worker
begin

text \<open>
  What the server, the scheduler and the worker rely on: a leader whose commands are committed and applied.  The locale
  \<open>command_service\<close> states it of a \<open>cluster_env\<close>; its lemmas follow a key, a lock and a job through the three
  clients.  \<open>healthy n w\<close> says that the cluster takes at least \<open>n\<close> more commands before a 64-bit counter wraps, and the
  clock shows times between \<open>low\<close> and \<open>high\<close>.
\<close>

section \<open>What a command leaves alone\<close>

definition job_commands :: "string set" where
  "job_commands = {CommandClaimJob, CommandJobReclaim, CommandJobStart, CommandJobSucceeded, CommandJobFailed}"

definition result_commands :: "string set" where
  "result_commands = insert CommandFencedPut (insert CommandCreateJob job_commands)"

definition kept :: "job_id set \<Rightarrow> store \<Rightarrow> store \<Rightarrow> bool" where
  "kept ids s s' \<longleftrightarrow> fmdom (st_jobs s') = fmdom (st_jobs s) \<and>
     (\<forall>jid. jid \<notin> ids \<longrightarrow> fmlookup (st_jobs s') jid = fmlookup (st_jobs s) jid \<and>
        lock_Get (st_locks s') jid = lock_Get (st_locks s) jid)"

lemma kept_refl [simp]: "kept ids s s"
  by (simp add: kept_def)

lemma kept_trans: "kept A s s' \<Longrightarrow> kept B s' s'' \<Longrightarrow> kept (A \<union> B) s s''"
  by (simp add: kept_def)

lemma kept_mono: "kept A s s' \<Longrightarrow> A \<subseteq> B \<Longrightarrow> kept B s s'"
  by (auto simp: kept_def)

lemma kept_lookup:
  "kept A s s' \<Longrightarrow> jid \<notin> A \<Longrightarrow> fmlookup (st_jobs s') jid = fmlookup (st_jobs s) jid"
  "kept A s s' \<Longrightarrow> jid \<notin> A \<Longrightarrow> lock_Get (st_locks s') jid = lock_Get (st_locks s) jid"
  "kept A s s' \<Longrightarrow> fmdom (st_jobs s') = fmdom (st_jobs s)"
  by (simp_all add: kept_def)

lemma ClaimJob_kept: "kept {i} s (snd (ClaimJob s i w x g))"
  by (auto simp: ClaimJob_def handleFailedClaim_def lock_Acquire_def lock_Get_def kept_def Let_def
      split: option.split prod.split intro: fmdomI)

lemma ReclaimExpiredJob_kept: "kept {i} s (snd (ReclaimExpiredJob s i t a))"
  by (auto simp: ReclaimExpiredJob_def lock_remove_def lock_Get_def kept_def Let_def split: option.split prod.split intro: fmdomI)

lemma TransitionJobState_kept: "kept {i} s (snd (TransitionJobState s i w x t f n a))"
  by (auto simp: TransitionJobState_def kept_def Let_def split: option.split intro: fmdomI)

lemma job_command_kept:
  assumes "applyCommand s c e = Some (r, s')" "CType c \<in> job_commands"
  shows "kept {CJobID c} s s'"
proof -
  from assms consider "s' = snd (ClaimJob s (CJobID c) (COwnerID c) (CExpiresAt c) (Index e))"
    | "s' = snd (ReclaimExpiredJob s (CJobID c) (CFencingToken c) (CAt c))"
    | f n where "s' = snd (TransitionJobState s (CJobID c) (COwnerID c) (CExecutionID c) (CFencingToken c) f n (CAt c))"
    by (auto simp: job_commands_def applyCommand_def applyJobCreationCommand_def applyClaimJob_def applyJobReclaimCommand_def
        applyJobTransitionCommand_def jobTransitionStates_def split: prod.splits sum.splits) (metis snd_conv)+
  then show ?thesis by cases (simp_all add: ClaimJob_kept ReclaimExpiredJob_kept TransitionJobState_kept)
qed

lemma job_command_ok: "CType c \<in> job_commands \<Longrightarrow> \<not> malformed_command c"
  by (auto simp: job_commands_def malformed_command_def)

lemma expected_not_context: "isExpectedApplyError err \<Longrightarrow> ResErr r = Some err \<Longrightarrow> \<not> unexpected r"
  by (simp add: unexpected_def)

section \<open>The contract\<close>

locale command_service =
  fixes env :: "'w cluster_env" and healthy :: "nat \<Rightarrow> 'w \<Rightarrow> bool" and readable :: "'w \<Rightarrow> bool" and low high :: int
  assumes window: "healthy n w \<Longrightarrow> 0 < low \<and> high < 2 ^ 63"
    and leader: "healthy n w \<Longrightarrow> ce_Role env w = Leader"
    and running: "healthy n w \<Longrightarrow> ce_ctxErr env w = None"
    and fewer: "healthy (Suc n) w \<Longrightarrow> healthy n w"
    and store_ok: "healthy n w \<Longrightarrow> store_wf (ce_store env w) \<and> store_fits (ce_store env w)"
    and clock: "healthy n w \<Longrightarrow> ce_now env w = (t, w') \<Longrightarrow>
      healthy n w' \<and> ce_store env w' = ce_store env w \<and> low \<le> t \<and> t < high"
    and submit: "healthy (Suc n) w \<Longrightarrow> command_fits c \<Longrightarrow> \<not> malformed_command c \<Longrightarrow>
      \<exists>i t w1 r s'. ce_Propose env (EncodeCommand c) w = (Inr i, w1) \<and>
        (\<forall>k l. lock_Get (st_locks (ce_store env w)) k = Some l \<longrightarrow> GrantIndex l < i) \<and>
        applyCommand (ce_store env w) c \<lparr>Index = i, Term = t, Data = EncodeCommand c\<rparr> = Some (r, s') \<and>
        (\<exists>w2. ce_WaitApplied env i w1 = (None, w2) \<and> healthy n w2 \<and> readable w2 \<and> ce_store env w2 = s') \<and>
        (CType c \<in> result_commands \<longrightarrow> (\<exists>w2. ce_WaitResult env i w1 = (Inr r, w2) \<and> healthy n w2 \<and> ce_store env w2 = s'))"
    and read: "healthy n w \<Longrightarrow> readable w \<Longrightarrow>
      \<exists>i w1 w2. ce_ReadIndex env w = (Inr i, w1) \<and> ce_WaitApplied env i w1 = (None, w2) \<and> healthy n w2 \<and>
        ce_store env w2 = ce_store env w"
begin

lemma fewer_add: "healthy (k + n) w \<Longrightarrow> healthy n w"
  by (induction k) (auto dest: fewer)

lemma healthy_le: "healthy m w \<Longrightarrow> n \<le> m \<Longrightarrow> healthy n w"
  using fewer_add [of "m - n" n w] by simp

lemma submit_waited:
  assumes "healthy (Suc n) w" "command_fits c" "\<not> malformed_command c"
  obtains i t w1 r w2 where "ce_Propose env (EncodeCommand c) w = (Inr i, w1)" "ce_WaitApplied env i w1 = (None, w2)"
    "applyCommand (ce_store env w) c \<lparr>Index = i, Term = t, Data = EncodeCommand c\<rparr> = Some (r, ce_store env w2)"
    "healthy n w2" "readable w2" "\<And>k l. lock_Get (st_locks (ce_store env w)) k = Some l \<Longrightarrow> GrantIndex l < i"
  using submit [OF assms] by blast

lemma submit_result:
  assumes "healthy (Suc n) w" "command_fits c" "\<not> malformed_command c" "CType c \<in> result_commands"
  obtains i t w1 r w2 where "ce_Propose env (EncodeCommand c) w = (Inr i, w1)" "ce_WaitResult env i w1 = (Inr r, w2)"
    "applyCommand (ce_store env w) c \<lparr>Index = i, Term = t, Data = EncodeCommand c\<rparr> = Some (r, ce_store env w2)"
    "healthy n w2"
proof -
  from submit [OF assms(1-3)] assms(4) obtain i t w1 r s' w2 where "ce_Propose env (EncodeCommand c) w = (Inr i, w1)"
    "applyCommand (ce_store env w) c \<lparr>Index = i, Term = t, Data = EncodeCommand c\<rparr> = Some (r, s')"
    "ce_WaitResult env i w1 = (Inr r, w2)" "healthy n w2" "ce_store env w2 = s'" by metis
  with that show ?thesis by simp
qed

section \<open>Keys and locks\<close>

lemma put_then_get:
  assumes "healthy (Suc n) w" "utf8_ok key"
  shows "\<exists>w1 w2. server_Put env key v w = (None, w1) \<and> healthy n w1 \<and> server_Get env key w1 = (Inr (Some v), w2) \<and>
    healthy n w2 \<and> ce_store env w2 = store_Put (ce_store env w) key v"
proof -
  let ?c = "zero_command\<lparr>CType := CommandPut, CKey := key, CValue := v\<rparr>"
  have "command_fits ?c" "\<not> malformed_command ?c"
    using assms(2) by (simp_all add: command_fits_def zero_command_def malformed_command_def ascii_utf8 del: utf8_ok.simps)
  from submit_waited [OF assms(1) this] obtain i t w1 r w2 where
    s: "ce_Propose env (EncodeCommand ?c) w = (Inr i, w1)" "ce_WaitApplied env i w1 = (None, w2)"
    "applyCommand (ce_store env w) ?c \<lparr>Index = i, Term = t, Data = EncodeCommand ?c\<rparr> = Some (r, ce_store env w2)"
    "healthy n w2" "readable w2" by metis
  from s(3) have st: "ce_store env w2 = store_Put (ce_store env w) key v" by (simp add: applyCommand_def applyKVCommand_def)
  from read [OF s(4,5)] obtain j w3 w4 where "ce_ReadIndex env w2 = (Inr j, w3)" "ce_WaitApplied env j w3 = (None, w4)"
    "healthy n w4" "ce_store env w4 = ce_store env w2" by blast
  with s st show ?thesis by (auto simp: server_Put_def server_Get_def store_Get_Put)
qed

lemma acquire_lock:
  assumes "healthy (Suc n) w" "utf8_ok key" "utf8_ok owner" "key \<noteq> []" "owner \<noteq> []" "0 < lease"
  shows "\<exists>w'. healthy n w' \<and>
    (case lock_Get (st_locks (ce_store env w)) key of
       Some _ \<Rightarrow> server_AcquireLock env key owner lease w = (Inl ErrLockBusy, w') \<and> ce_store env w' = ce_store env w
     | None \<Rightarrow> (\<exists>now g. fst (ce_now env w) = now \<and> server_AcquireLock env key owner lease w = (Inr g, w') \<and>
         lg_Key g = key \<and> lg_OwnerID g = owner \<and> lg_FencingToken g = inc64 (NextToken (st_locks (ce_store env w))) \<and>
         lg_ExpiresAt g = lease_end now lease \<and>
         (\<exists>l. lock_Get (st_locks (ce_store env w')) key = Some l \<and> FencingToken l = lg_FencingToken g \<and> OwnerID l = owner)))"
proof -
  obtain now w0 where now: "ce_now env w = (now, w0)" by force
  note w0 = clock [OF assms(1) now]
  let ?c = "zero_command\<lparr>CType := CommandLockAcquire, CKey := key, COwnerID := owner, CExpiresAt := lease_end now lease\<rparr>"
  have fits: "fits_int64 (lease_end now lease)" by (simp add: lease_end_def wrap64_def)
  have ok: "command_fits ?c" "\<not> malformed_command ?c"
    using assms(2-5) fits by (simp_all add: command_fits_def zero_command_def malformed_command_def ascii_utf8 del: utf8_ok.simps)
  from w0 have "healthy (Suc n) w0" by simp
  from submit_waited [OF this ok] obtain i t w1 r w2 where
    s: "ce_Propose env (EncodeCommand ?c) w0 = (Inr i, w1)" "ce_WaitApplied env i w1 = (None, w2)"
    "applyCommand (ce_store env w0) ?c \<lparr>Index = i, Term = t, Data = EncodeCommand ?c\<rparr> = Some (r, ce_store env w2)"
    "healthy n w2" "\<And>k l. lock_Get (st_locks (ce_store env w0)) k = Some l \<Longrightarrow> GrantIndex l < i" by metis
  from s(3) have st: "ce_store env w2 = snd (AcquireLock (ce_store env w) key owner (lease_end now lease) i)"
    using w0 by (auto simp: applyCommand_def applyLockCommand_def split: prod.splits sum.splits)
  show ?thesis
  proof (cases "lock_Get (st_locks (ce_store env w)) key")
    case None
    with st s now assms(4-6) show ?thesis
      by (auto simp: server_AcquireLock_def AcquireLock_def lock_Acquire_def lock_Get_def GetLock_def Let_def intro!: exI [of _ w2])
  next
    case (Some l)
    with s(5) [of key l] w0 have "GrantIndex l < i" by simp
    with Some st s now assms(4-6) show ?thesis
      by (auto simp: server_AcquireLock_def AcquireLock_def lock_Acquire_def lock_Get_def GetLock_def Let_def intro!: exI [of _ w2])
  qed
qed

end

end
