(* ===== verification/Job_Flow.thy ===== *)
theory Job_Flow
  imports Service_Contract
begin

text \<open>
  A job from its creation to its end, through the server, the scheduler and a worker, over any service that meets the
  contract \<open>command_service\<close>.  Other jobs may be expired, pending or assigned at the same time; the lemmas keep
  track of the jobs a step leaves alone and of the commands it uses.
\<close>

section \<open>Errors of the state machine are not those of a context\<close>

lemma context_error_simps [simp]:
  "\<not> context_error ErrInvalidJob" "\<not> context_error ErrJobNotFound" "\<not> context_error ErrJobNotClaimable"
  "\<not> context_error ErrJobAlreadyClaimed" "\<not> context_error ErrInvalidJobState" "\<not> context_error ErrJobOwnershipLost"
  "\<not> context_error (Message m)" "context_error (Wrapf m [err]) \<longleftrightarrow> context_error err"
  by (simp_all add: context_error_def)

lemma ClaimJob_not_context: "ClaimJob s i w x g = (Inl err, s') \<Longrightarrow> \<not> context_error (Wrapf m [err])"
  by (auto simp: ClaimJob_def validateClaimArguments_def handleExistingClaim_def handleFailedClaim_def Let_def
      split: option.splits prod.splits if_splits)

lemma TransitionJobState_not_context: "TransitionJobState s i w x t f n a = (Inl err, s') \<Longrightarrow> \<not> context_error err"
  by (auto simp: TransitionJobState_def validateTransitionArguments_def validateTransitionStates_def
      validateTransitionOwnership_def Let_def split: option.splits if_splits)

lemma ReclaimExpiredJob_not_context: "ReclaimExpiredJob s i t a = (Inl err, s') \<Longrightarrow> \<not> context_error err"
  by (auto simp: ReclaimExpiredJob_def Let_def split: option.splits if_splits)

lemma job_command_not_context:
  assumes "applyCommand s c e = Some (r, s')" "CType c \<in> job_commands" "ResErr r = Some err"
  shows "\<not> context_error err"
  using assms ClaimJob_not_context TransitionJobState_not_context ReclaimExpiredJob_not_context
  by (auto simp: job_commands_def applyCommand_def applyJobCreationCommand_def applyClaimJob_def applyJobReclaimCommand_def
      applyJobTransitionCommand_def jobTransitionStates_def job_apply_result_def split: prod.splits sum.splits)

definition no_context :: "go_error option \<Rightarrow> bool" where
  "no_context e \<longleftrightarrow> (case e of None \<Rightarrow> True | Some err \<Rightarrow> \<not> context_error err)"

lemma no_context_simps [simp]: "no_context None" "no_context (Some err) \<longleftrightarrow> \<not> context_error err"
  by (simp_all add: no_context_def)

section \<open>Scheduling\<close>

text \<open>The job \<open>j\<close> waits in the queue; later it is assigned to a worker until \<open>x\<close>.\<close>

definition waiting :: "store \<Rightarrow> job \<Rightarrow> bool" where
  "waiting s j \<longleftrightarrow> fmlookup (st_jobs s) (JobIDOf j) = Some j \<and> JState j = JobPending \<and> lock_Get (st_locks s) (JobIDOf j) = None"

definition assigned_until :: "store \<Rightarrow> job \<Rightarrow> string \<Rightarrow> int \<Rightarrow> bool" where
  "assigned_until s j workerID x \<longleftrightarrow>
     (\<exists>j' l. fmlookup (st_jobs s) (JobIDOf j) = Some j' \<and> Payload j' = Payload j \<and> JState j' = JobScheduled \<and>
        AssignedWorkerID j' = workerID \<and> JobExecutionID j' \<noteq> [] \<and> lock_Get (st_locks s) (JobIDOf j) = Some l \<and>
        OwnerID l = workerID \<and> FencingToken l = JobToken j' \<and> x \<le> ExpiresAt l)"

lemma kept_waiting: "kept A s s' \<Longrightarrow> JobIDOf j \<notin> A \<Longrightarrow> waiting s' j = waiting s j"
  by (simp add: waiting_def kept_lookup)

lemma kept_assigned: "kept A s s' \<Longrightarrow> JobIDOf j \<notin> A \<Longrightarrow> assigned_until s' j v x = assigned_until s j v x"
  by (simp add: assigned_until_def kept_lookup)

lemma claim_waiting:
  assumes "waiting s j" "JobIDOf j \<noteq> []" "v \<noteq> []" "0 < x"
    and "applyCommand s (claim_command j v x) e = Some (r, s')"
  shows "assigned_until s' j v x"
  using assms by (auto simp: waiting_def assigned_until_def claim_command_def zero_command_def applyCommand_def executionID_def
      applyJobCreationCommand_def applyClaimJob_def ClaimJob_def validateClaimArguments_def handleExistingClaim_def
      lock_Get_def lock_Acquire_def Let_def split: option.splits)

lemma job_lists:
  "length (ListExpiredJobs s now) \<le> fcard (fmdom (st_jobs s))" "length (ListPendingJobs s) \<le> fcard (fmdom (st_jobs s))"
  "length (ListAssignedJobs s v) \<le> fcard (fmdom (st_jobs s))"
proof -
  have "set (map fst (map_range (st_jobs s))) = fset (fmdom (st_jobs s))"
    by (auto simp: set_map_range image_iff fmlookup_dom_iff)
  then have "length (map_range (st_jobs s)) = fcard (fmdom (st_jobs s))"
    using distinct_card [OF distinct_keys_map_range [of "st_jobs s"]] by (simp add: fcard.rep_eq)
  moreover have "length (filter P (map snd (map_range m))) \<le> length (map_range m)" for P and m :: "(job_id, job) fmap"
    by (metis length_filter_le length_map)
  ultimately show "length (ListExpiredJobs s now) \<le> fcard (fmdom (st_jobs s))"
    "length (ListPendingJobs s) \<le> fcard (fmdom (st_jobs s))" "length (ListAssignedJobs s v) \<le> fcard (fmdom (st_jobs s))"
    by (auto simp: ListExpiredJobs_def ListPendingJobs_def ListAssignedJobs_def simp flip: \<open>length _ = _\<close>)
qed

lemma listed_jobs:
  assumes "store_wf s" "store_fits s"
  shows "distinct (map JobIDOf (ListPendingJobs s))" "distinct (map JobIDOf (ListAssignedJobs s v))"
    "\<And>j. j \<in> set (ListExpiredJobs s now) \<Longrightarrow> fmlookup (st_jobs s) (JobIDOf j) = Some j \<and> JState j \<noteq> JobPending \<and> job_fits j \<and> JobIDOf j \<noteq> []"
    "\<And>j. j \<in> set (ListPendingJobs s) \<longleftrightarrow> fmlookup (st_jobs s) (JobIDOf j) = Some j \<and> JState j = JobPending"
    "\<And>j. j \<in> set (ListAssignedJobs s v) \<longleftrightarrow> v \<noteq> [] \<and> fmlookup (st_jobs s) (JobIDOf j) = Some j \<and> JState j = JobScheduled \<and> AssignedWorkerID j = v"
proof -
  have key: "JobIDOf j = i \<and> job_fits j \<and> i \<noteq> []" if "fmlookup (st_jobs s) i = Some j" for i j
    using assms that store_wf_job [OF assms(1) that] store_fits_lookup(1) [OF assms(2) that] by (auto simp: job_ok_def)
  note spec = sort_key_filter_spec [OF listed_jobs_distinct [OF assms(1)], of job_order]
  from spec show "distinct (map JobIDOf (ListPendingJobs s))" "distinct (map JobIDOf (ListAssignedJobs s v))"
    by (auto simp: ListPendingJobs_def ListAssignedJobs_def)
  have jobs: "j \<in> set (map snd (map_range (st_jobs s))) \<longleftrightarrow> fmlookup (st_jobs s) (JobIDOf j) = Some j" for j
    using key by (auto simp: set_map_range image_iff)
  show "fmlookup (st_jobs s) (JobIDOf j) = Some j \<and> JState j \<noteq> JobPending \<and> job_fits j \<and> JobIDOf j \<noteq> []"
    if "j \<in> set (ListExpiredJobs s now)" for j
  proof -
    have "j \<in> set (map snd (map_range (st_jobs s)))" "JState j = JobScheduled \<or> JState j = JobRunning"
      using that by (auto simp: ListExpiredJobs_def lease_expired_def split: if_splits)
    with key [of "JobIDOf j" j] jobs [of j] show ?thesis by auto
  qed
  show "j \<in> set (ListPendingJobs s) \<longleftrightarrow> fmlookup (st_jobs s) (JobIDOf j) = Some j \<and> JState j = JobPending" for j
    using jobs [of j] by (auto simp: ListPendingJobs_def)
  show "j \<in> set (ListAssignedJobs s v) \<longleftrightarrow> v \<noteq> [] \<and> fmlookup (st_jobs s) (JobIDOf j) = Some j \<and> JState j = JobScheduled \<and> AssignedWorkerID j = v" for j
    using jobs [of j] by (auto simp: ListAssignedJobs_def)
qed

definition good_scheduler :: "int \<Rightarrow> scheduler \<Rightarrow> bool" where
  "good_scheduler high s \<longleftrightarrow> (\<forall>j. \<exists>v. sch_selector s j = Inr v \<and> utf8_ok v \<and> v \<noteq> []) \<and> 0 < sch_lease s \<and> high + sch_lease s < 2 ^ 63"

text \<open>A worker holds a job: the job and its lock name it, with the same token, until \<open>x\<close>.\<close>

definition holds :: "store \<Rightarrow> job \<Rightarrow> string \<Rightarrow> int \<Rightarrow> bool" where
  "holds s j v x \<longleftrightarrow> fmlookup (st_jobs s) (JobIDOf j) = Some j \<and> JobIDOf j \<noteq> [] \<and> v \<noteq> [] \<and> AssignedWorkerID j = v \<and>
     JobExecutionID j \<noteq> [] \<and> JobToken j \<noteq> 0 \<and>
     (\<exists>l. lock_Get (st_locks s) (JobIDOf j) = Some l \<and> OwnerID l = v \<and> FencingToken l = JobToken j \<and> x \<le> ExpiresAt l)"

lemma assigned_holds:
  assumes "store_wf s" "assigned_until s j v x"
  shows "\<exists>j'. JobIDOf j' = JobIDOf j \<and> Payload j' = Payload j \<and> JState j' = JobScheduled \<and> holds s j' v x"
proof -
  from assms(2) obtain j' where j': "fmlookup (st_jobs s) (JobIDOf j) = Some j'" "Payload j' = Payload j" "JState j' = JobScheduled"
    "AssignedWorkerID j' = v" "JobExecutionID j' \<noteq> []"
    "\<exists>l. lock_Get (st_locks s) (JobIDOf j) = Some l \<and> OwnerID l = v \<and> FencingToken l = JobToken j' \<and> x \<le> ExpiresAt l"
    by (auto simp: assigned_until_def)
  with store_wf_job [OF assms(1) j'(1)] show ?thesis by (auto simp: holds_def job_ok_def)
qed

definition move_of :: "string \<Rightarrow> job_state \<Rightarrow> job_state \<Rightarrow> bool" where
  "move_of commandType f t \<longleftrightarrow> jobTransitionStates commandType = Some (f, t)"

lemma move_of_command: "move_of ct f t \<Longrightarrow> ct \<in> job_commands \<and> utf8_ok ct \<and> utf8_ok f \<and> f \<noteq> t"
  by (auto simp: move_of_def jobTransitionStates_def job_commands_def ascii_utf8 simp del: utf8_ok.simps split: if_splits)

lemma move_of_commands [simp]:
  "move_of CommandJobStart JobScheduled JobRunning" "move_of CommandJobSucceeded JobRunning JobSucceeded"
  "move_of CommandJobFailed JobRunning JobFailed"
  by (simp_all add: move_of_def jobTransitionStates_def)

lemma transition_applied:
  assumes "move_of ct f t" "applyCommand s (transition_command k j ct f now) e = Some (r, s')"
  obtains q where "TransitionJobState s (JobIDOf j) (wk_id k) (JobExecutionID j) (JobToken j) f t now = (q, s')" "r = job_apply_result q"
  using assms by (auto simp: move_of_def jobTransitionStates_def transition_command_def zero_command_def applyCommand_def
      applyJobTransitionCommand_def split: if_splits prod.splits)

lemma transition_stored:
  assumes "TransitionJobState s i v x t f n a = (Inr j, s')"
  shows "fmlookup (st_jobs s') i = Some j \<and> JState j = n"
  using assms by (auto simp: TransitionJobState_def Let_def split: option.splits)

lemma transition_held:
  assumes "holds s j v x" "JState j = f" "move_of ct f t" "0 < now" "now < x"
  shows "TransitionJobState s (JobIDOf j) v (JobExecutionID j) (JobToken j) f t now =
      (Inr (j\<lparr>JState := t\<rparr>), s\<lparr>st_jobs := fmupd (JobIDOf j) (j\<lparr>JState := t\<rparr>) (st_jobs s)\<rparr>)"
proof -
  have "validateTransitionStates f t = None"
    using assms(3) by (auto simp: move_of_def jobTransitionStates_def validateTransitionStates_def split: if_splits)
  with assms show ?thesis
    by (auto simp: TransitionJobState_def validateTransitionArguments_def validateTransitionOwnership_def holds_def Let_def)
qed

lemma holds_moved: "holds s j v x \<Longrightarrow> holds (s\<lparr>st_jobs := fmupd (JobIDOf j) (j\<lparr>JState := t\<rparr>) (st_jobs s)\<rparr>) (j\<lparr>JState := t\<rparr>) v x"
  by (simp add: holds_def)

text \<open>The handler does not touch the cluster, and it decides how the job ends.\<close>

definition handler_keeps :: "(nat \<Rightarrow> 'w \<Rightarrow> bool) \<Rightarrow> ('w \<Rightarrow> store) \<Rightarrow> 'w worker \<Rightarrow> bool" where
  "handler_keeps healthy sto k \<longleftrightarrow>
     (\<forall>n w j e w'. healthy n w \<longrightarrow> wk_handler k j w = (e, w') \<longrightarrow> healthy n w' \<and> sto w' = sto w)"

definition outcome :: "'w worker \<Rightarrow> job \<Rightarrow> 'w \<Rightarrow> job_state" where
  "outcome k j w = (if fst (wk_handler k (j\<lparr>JState := JobRunning\<rparr>) w) = None then JobSucceeded else JobFailed)"

section \<open>Expiry\<close>

lemma expire_each_starts:
  assumes "l \<in> set ls" "distinct (map LockKey ls)" "0 < ExpiresAt l" "ExpiresAt l \<le> now"
    "fmlookup (pendingExpiration srv) (LockKey l) \<noteq> Some (FencingToken l)"
  shows "(LockKey l, FencingToken l) \<in> set (fst (expire_each now ls srv))"
  using assms(1,2,5)
proof (induction ls arbitrary: srv)
  case (Cons c ls)
  show ?case
  proof (cases "c = l")
    case True
    with assms(3,4) Cons.prems(3) show ?thesis by (simp add: markExpirationPending_def split: prod.split)
  next
    case False
    with Cons.prems(1,2) have l: "l \<in> set ls" "distinct (map LockKey ls)" "LockKey c \<notin> LockKey ` set ls" by simp_all
    then have ne: "LockKey l \<noteq> LockKey c" by (metis image_eqI)
    let ?srv = "snd (markExpirationPending (LockKey c) (FencingToken c) srv)"
    have "fmlookup (pendingExpiration ?srv) (LockKey l) \<noteq> Some (FencingToken l)"
      using Cons.prems(3) ne by (simp add: markExpirationPending_def)
    from Cons.IH [OF l(1,2) this] Cons.IH [OF l(1,2) Cons.prems(3)] show ?thesis
      by (cases "markExpirationPending (LockKey c) (FencingToken c) srv")
        (auto split: prod.split bool.split)
  qed
qed simp

lemma ListLocks_lock:
  assumes "lock_wf (st_locks s)" "lock_Get (st_locks s) k = Some l"
  shows "l \<in> set (ListLocks s)" "LockKey l = k" "distinct (map LockKey (ListLocks s))"
proof -
  have key: "LockKey l' = k'" if "fmlookup (Locks (st_locks s)) k' = Some l'" for k' l'
    using lock_wf_key [OF assms(1)] that by (simp add: lock_Get_def)
  from assms(2) key show "LockKey l = k" by (simp add: lock_Get_def)
  from assms(2) show "l \<in> set (ListLocks s)" by (force simp: ListLocks_def set_map_range lock_Get_def)
  have "map LockKey (ListLocks s) = map fst (map_range (Locks (st_locks s)))"
    using key by (auto simp: ListLocks_def set_map_range)
  then show "distinct (map LockKey (ListLocks s))" by (simp add: distinct_keys_map_range)
qed

context command_service
begin

lemma job_command_runs:
  assumes "healthy (Suc n) w" "command_fits c" "CType c \<in> job_commands"
  shows "\<exists>i t w1 r w2. ce_Propose env (EncodeCommand c) w = (Inr i, w1) \<and> ce_WaitResult env i w1 = (Inr r, w2) \<and>
    applyCommand (ce_store env w) c \<lparr>Index = i, Term = t, Data = EncodeCommand c\<rparr> = Some (r, ce_store env w2) \<and>
    healthy n w2 \<and> kept {CJobID c} (ce_store env w) (ce_store env w2) \<and> no_context (ResErr r)"
proof -
  have "CType c \<in> result_commands" using assms(3) by (simp add: result_commands_def)
  from submit_result [OF assms(1,2) job_command_ok [OF assms(3)] this] obtain i t w1 r w2 where
    s: "ce_Propose env (EncodeCommand c) w = (Inr i, w1)" "ce_WaitResult env i w1 = (Inr r, w2)"
    "applyCommand (ce_store env w) c \<lparr>Index = i, Term = t, Data = EncodeCommand c\<rparr> = Some (r, ce_store env w2)"
    "healthy n w2" by metis
  moreover have "no_context (ResErr r)" using job_command_not_context [OF s(3) assms(3)] by (cases "ResErr r") auto
  ultimately show ?thesis using job_command_kept [OF s(3) assms(3)] by blast
qed

lemma reclaimExpiredJob_runs:
  assumes "healthy (Suc n) w" "job_fits j" "low \<le> now" "now < high"
  shows "\<exists>e w'. reclaimExpiredJob env j now w = (e, w') \<and> no_context e \<and> healthy n w' \<and>
    kept {JobIDOf j} (ce_store env w) (ce_store env w')"
proof (cases "JobToken j = 0")
  case True
  with fewer [OF assms(1)] show ?thesis by (simp add: reclaimExpiredJob_def)
next
  case False
  have "command_fits (reclaim_command j now)" using assms(2-4) window [OF assms(1)]
    by (simp add: command_fits_def reclaim_command_def zero_command_def job_fits_def ascii_utf8 del: utf8_ok.simps)
  moreover have "CType (reclaim_command j now) \<in> job_commands" "CJobID (reclaim_command j now) = JobIDOf j"
    by (simp_all add: job_commands_def reclaim_command_def zero_command_def)
  ultimately show ?thesis using job_command_runs [OF assms(1), of "reclaim_command j now"] False
    by (auto simp: reclaimExpiredJob_def)
qed

lemma reclaim_each_runs:
  assumes "healthy (length js + n) w" "\<forall>j\<in>set js. job_fits j" "low \<le> now" "now < high"
  shows "\<exists>e w'. reclaim_each env now js w = (e, w') \<and> no_context e \<and> healthy n w' \<and>
    kept (JobIDOf ` set js) (ce_store env w) (ce_store env w')"
  using assms(1,2)
proof (induction js arbitrary: w)
  case (Cons j js)
  then have "healthy (Suc (length js + n)) w" "job_fits j" by simp_all
  from reclaimExpiredJob_runs [OF this assms(3,4)] obtain e w1 where
    one: "reclaimExpiredJob env j now w = (e, w1)" "no_context e" "healthy (length js + n) w1"
    "kept {JobIDOf j} (ce_store env w) (ce_store env w1)" by blast
  from Cons.IH [OF one(3)] Cons.prems(2) obtain e' w' where
    rest: "reclaim_each env now js w1 = (e', w')" "no_context e'" "healthy n w'"
    "kept (JobIDOf ` set js) (ce_store env w1) (ce_store env w')" by auto
  have k: "kept (JobIDOf ` set (j # js)) (ce_store env w) (ce_store env w1)"
    "kept (JobIDOf ` set (j # js)) (ce_store env w) (ce_store env w')"
    using kept_mono [OF one(4)] kept_trans [OF one(4) rest(4)] by simp_all
  from one rest k fewer_add [OF one(3)] show ?case by (cases e) auto
qed simp

lemma scheduleJob_runs:
  assumes "healthy (Suc n) w" "job_fits j" "JobIDOf j \<noteq> []" "sch_selector s j = Inr v" "utf8_ok v" "v \<noteq> []"
    "0 < sch_lease s" "high + sch_lease s < 2 ^ 63"
  shows "\<exists>e w'. scheduleJob env s j w = (e, w') \<and> no_context e \<and> healthy n w' \<and>
    kept {JobIDOf j} (ce_store env w) (ce_store env w') \<and>
    (waiting (ce_store env w) j \<longrightarrow> assigned_until (ce_store env w') j v (low + sch_lease s))"
proof -
  obtain now w0 where now: "ce_now env w = (now, w0)" by force
  note w0 = clock [OF assms(1) now]
  let ?x = "now + sch_lease s"
  have x: "wrap64 ?x = ?x" "0 < ?x" "fits_int64 ?x" using w0 window [OF assms(1)] assms(7,8) by (simp_all add: wrap64_id)
  have ok: "command_fits (claim_command j v ?x)" using assms(2,5) x
    by (simp add: command_fits_def claim_command_def zero_command_def job_fits_def ascii_utf8 del: utf8_ok.simps)
  have id: "CType (claim_command j v ?x) \<in> job_commands" "CJobID (claim_command j v ?x) = JobIDOf j"
    by (simp_all add: claim_command_def job_commands_def zero_command_def)
  from w0 have "healthy (Suc n) w0" by simp
  from job_command_runs [OF this ok id(1)] obtain i t w1 r w2 where
    s: "ce_Propose env (EncodeCommand (claim_command j v ?x)) w0 = (Inr i, w1)" "ce_WaitResult env i w1 = (Inr r, w2)"
    "applyCommand (ce_store env w0) (claim_command j v ?x) \<lparr>Index = i, Term = t, Data = EncodeCommand (claim_command j v ?x)\<rparr> =
       Some (r, ce_store env w2)"
    "healthy n w2" "kept {CJobID (claim_command j v ?x)} (ce_store env w0) (ce_store env w2)" "no_context (ResErr r)" by blast
  have "assigned_until (ce_store env w2) j v (low + sch_lease s)" if "waiting (ce_store env w) j"
    using claim_waiting [OF _ assms(3,6) x(2) s(3)] that w0 unfolding assigned_until_def by fastforce
  moreover have "scheduleJob env s j w = (e, w2) \<longrightarrow> no_context e" for e
    using s(6) by (auto simp: scheduleJob_def assms(4) now x(1) s(1,2) split: option.splits if_splits)
  moreover have "\<exists>e. scheduleJob env s j w = (e, w2)"
    by (auto simp: scheduleJob_def assms(4) now x(1) s(1,2) split: option.splits)
  ultimately show ?thesis using s w0 id(2) by auto
qed

lemma schedule_each_runs:
  assumes "healthy (length js + n) w" "\<forall>j\<in>set js. job_fits j \<and> JobIDOf j \<noteq> []" "good_scheduler high s"
    "distinct (map JobIDOf js)" "sorted (map ScheduledAt js)"
  shows "\<exists>w'. schedule_each env s now js w = (None, w') \<and> healthy n w' \<and> kept (JobIDOf ` set js) (ce_store env w) (ce_store env w') \<and>
    (\<forall>j v. j \<in> set js \<longrightarrow> ScheduledAt j \<le> now \<longrightarrow> sch_selector s j = Inr v \<longrightarrow> waiting (ce_store env w) j \<longrightarrow>
       assigned_until (ce_store env w') j v (low + sch_lease s))"
  using assms(1,2,4,5)
proof (induction js arbitrary: w)
  case (Cons j js)
  show ?case
  proof (cases "ScheduledAt j > now")
    case True
    with fewer_add [OF Cons.prems(1)] Cons.prems(4) show ?thesis by fastforce
  next
    case False
    from assms(3) obtain v where v: "sch_selector s j = Inr v" "utf8_ok v" "v \<noteq> []" by (auto simp: good_scheduler_def)
    from Cons.prems(1) have h: "healthy (Suc (length js + n)) w" by simp
    from Cons.prems(2) have j: "job_fits j" "JobIDOf j \<noteq> []" by simp_all
    from scheduleJob_runs [OF h j v] assms(3) obtain e w1 where
      one: "scheduleJob env s j w = (e, w1)" "no_context e" "healthy (length js + n) w1"
      "kept {JobIDOf j} (ce_store env w) (ce_store env w1)"
      "waiting (ce_store env w) j \<longrightarrow> assigned_until (ce_store env w1) j v (low + sch_lease s)"
      by (auto simp: good_scheduler_def)
    from Cons.IH [OF one(3)] Cons.prems obtain w' where
      rest: "schedule_each env s now js w1 = (None, w')" "healthy n w'" "kept (JobIDOf ` set js) (ce_store env w1) (ce_store env w')"
      "\<forall>j v. j \<in> set js \<longrightarrow> ScheduledAt j \<le> now \<longrightarrow> sch_selector s j = Inr v \<longrightarrow> waiting (ce_store env w1) j \<longrightarrow>
         assigned_until (ce_store env w') j v (low + sch_lease s)" by auto
    have run: "schedule_each env s now (j # js) w = (None, w')" using False one(1,2) rest(1) by (cases e) simp_all
    have k: "kept (JobIDOf ` set (j # js)) (ce_store env w) (ce_store env w')" using kept_trans [OF one(4) rest(3)] by simp
    have out: "JobIDOf j \<notin> JobIDOf ` set js" using Cons.prems(3) by simp
    have "assigned_until (ce_store env w') i u (low + sch_lease s)"
      if "i \<in> set (j # js)" "ScheduledAt i \<le> now" "sch_selector s i = Inr u" "waiting (ce_store env w) i" for i u
    proof (cases "i = j")
      case True
      with that v one(5) kept_assigned [OF rest(3) out] show ?thesis by simp
    next
      case False
      with that(1) have "i \<in> set js" by simp
      moreover from this out have "JobIDOf i \<notin> {JobIDOf j}" by (metis image_eqI singletonD)
      ultimately
      show ?thesis using that rest(4) kept_waiting [OF one(4)] by simp
    qed
    with run rest(2) k show ?thesis by blast
  qed
qed simp

lemma scheduleDueJobs_assigns:
  assumes "healthy (2 * fcard (fmdom (st_jobs (ce_store env w))) + n) w" "good_scheduler high s"
    "waiting (ce_store env w) j" "ScheduledAt j \<le> low"
    "sch_selector s j = Inr v"
  shows "\<exists>w'. scheduleDueJobs env s w = (None, w') \<and> healthy n w' \<and> fmdom (st_jobs (ce_store env w')) = fmdom (st_jobs (ce_store env w)) \<and>
    assigned_until (ce_store env w') j v (low + sch_lease s)"
proof -
  let ?m = "fcard (fmdom (st_jobs (ce_store env w)))"
  obtain now w0 where now: "ce_now env w = (now, w0)" by force
  note w0 = clock [OF assms(1) now]
  let ?es = "ListExpiredJobs (ce_store env w0) now"
  note ok0 = store_ok [OF conjunct1 [OF w0]]
  have "healthy (length ?es + (?m + n)) w0"
    by (rule healthy_le [OF conjunct1 [OF w0]]) (use job_lists(1) [of "ce_store env w0" now] w0 in simp)
  from reclaim_each_runs [OF this, of now] listed_jobs(3) [of "ce_store env w0" _ now] ok0 w0 obtain e w1 where
    r: "reclaim_each env now ?es w0 = (e, w1)" "no_context e" "healthy (?m + n) w1"
    "kept (JobIDOf ` set ?es) (ce_store env w0) (ce_store env w1)" by blast
  have "JobIDOf j \<notin> JobIDOf ` set ?es"
    using listed_jobs(3) [of "ce_store env w0" _ now] ok0 w0 assms(3) by (force simp: waiting_def)
  note kept = kept_lookup(1,2) [OF r(4) this] kept_lookup(3) [OF r(4)] kept_waiting [OF r(4) this]
  note ok1 = store_ok [OF r(3)]
  let ?ps = "ListPendingJobs (ce_store env w1)"
  have in_ps: "j \<in> set ?ps"
    using listed_jobs(4) [of "ce_store env w1"] ok1 kept w0 assms(3) by (auto simp: waiting_def)
  have "fcard (fmdom (st_jobs (ce_store env w1))) = ?m" using kept w0 by simp
  then have "healthy (length ?ps + n) w1"
    by (intro healthy_le [OF r(3)]) (use job_lists(2) [of "ce_store env w1"] in simp)
  moreover have "\<forall>j\<in>set ?ps. job_fits j \<and> JobIDOf j \<noteq> []"
    using listed_jobs(4) [of "ce_store env w1"] ok1 store_fits_lookup(1) store_wf_job by (fastforce simp: job_ok_def)
  moreover have "sorted (map ScheduledAt ?ps)"
  proof -
    have "sorted (map job_order ?ps)" by (simp add: ListPendingJobs_def)
    then show ?thesis by (auto simp: sorted_iff_nth_mono job_order_def less_eq_prod_def order_le_less)
  qed
  ultimately obtain w' where run: "schedule_each env s now ?ps w1 = (None, w')" "healthy n w'"
    "kept (JobIDOf ` set ?ps) (ce_store env w1) (ce_store env w')" "assigned_until (ce_store env w') j v (low + sch_lease s)"
    using schedule_each_runs [of ?ps n w1 s now] assms(2-5) listed_jobs(1) ok1 in_ps w0 kept by auto
  then show ?thesis
    using leader [OF assms(1)] now r(1,2) kept kept_lookup(3) [OF run(3)] w0
    by (auto simp: scheduleDueJobs_def reclaimExpiredJobs_def split: option.splits)
qed

section \<open>Execution\<close>

lemma transitionJob_runs:
  assumes "healthy (Suc n) w" "job_fits j" "utf8_ok (wk_id k)" "move_of ct f t"
  shows "\<exists>q w'. transitionJob env k j ct f t w = (q, w') \<and> healthy n w' \<and> kept {JobIDOf j} (ce_store env w) (ce_store env w') \<and>
    (case q of Inl err \<Rightarrow> \<not> context_error err | Inr j' \<Rightarrow> fmlookup (st_jobs (ce_store env w')) (JobIDOf j) = Some j') \<and>
    (holds (ce_store env w) j (wk_id k) high \<longrightarrow> JState j = f \<longrightarrow>
       q = Inr (j\<lparr>JState := t\<rparr>) \<and> holds (ce_store env w') (j\<lparr>JState := t\<rparr>) (wk_id k) high)"
proof -
  obtain now w0 where now: "ce_now env w = (now, w0)" by force
  note w0 = clock [OF assms(1) now]
  let ?c = "transition_command k j ct f now"
  note m = move_of_command [OF assms(4)]
  have ok: "command_fits ?c" "CType ?c \<in> job_commands" "CJobID ?c = JobIDOf j" using assms(2,3) m w0 window [OF assms(1)]
    by (simp_all add: command_fits_def transition_command_def zero_command_def job_fits_def ascii_utf8 del: utf8_ok.simps)
  from w0 have "healthy (Suc n) w0" by simp
  from job_command_runs [OF this ok(1,2)] obtain i te w1 r w2 where
    s: "ce_Propose env (EncodeCommand ?c) w0 = (Inr i, w1)" "ce_WaitResult env i w1 = (Inr r, w2)"
    "applyCommand (ce_store env w0) ?c \<lparr>Index = i, Term = te, Data = EncodeCommand ?c\<rparr> = Some (r, ce_store env w2)"
    "healthy n w2" "kept {CJobID ?c} (ce_store env w0) (ce_store env w2)" "no_context (ResErr r)" by blast
  from transition_applied [OF assms(4) s(3)] obtain q where
    q: "TransitionJobState (ce_store env w) (JobIDOf j) (wk_id k) (JobExecutionID j) (JobToken j) f t now = (q, ce_store env w2)"
    "r = job_apply_result q" using w0 by metis
  have run: "transitionJob env k j ct f t w = (q, w2)"
    using q transition_stored [of "ce_store env w"] by (auto simp: transitionJob_def now s(1,2) job_apply_result_def split: sum.splits)
  have "case q of Inl err \<Rightarrow> \<not> context_error err | Inr j' \<Rightarrow> fmlookup (st_jobs (ce_store env w2)) (JobIDOf j) = Some j'"
    using q s(6) transition_stored [of "ce_store env w"] by (auto simp: job_apply_result_def split: sum.splits)
  moreover have "q = Inr (j\<lparr>JState := t\<rparr>) \<and> holds (ce_store env w2) (j\<lparr>JState := t\<rparr>) (wk_id k) high"
    if "holds (ce_store env w) j (wk_id k) high" "JState j = f"
    using transition_held [OF that assms(4), of now] holds_moved [OF that(1), of t] q(1) w0 window [OF assms(1)] by simp
  ultimately show ?thesis using run s(4,5) ok(3) w0 by auto
qed

lemma worker_Execute_runs:
  assumes "healthy n w" "handler_keeps healthy (ce_store env) k" "JobIDOf j \<noteq> []"
  shows "\<exists>e w'. worker_Execute env k j w = (e, w') \<and> (e = None \<longleftrightarrow> fst (wk_handler k j w) = None) \<and> healthy n w' \<and>
    ce_store env w' = ce_store env w"
proof -
  obtain e w' where h: "wk_handler k j w = (e, w')" by force
  with assms(1,2) have "healthy n w' \<and> ce_store env w' = ce_store env w" unfolding handler_keeps_def by blast
  with h assms(3) running [OF assms(1)] show ?thesis by (cases e) (auto simp: worker_Execute_def)
qed

lemma execute_assigned_job_runs:
  assumes "healthy (Suc (Suc n)) w" "job_fits j" "utf8_ok (wk_id k)" "handler_keeps healthy (ce_store env) k"
  shows "\<exists>w'. execute_assigned_job env k j w = (None, w') \<and> healthy n w' \<and> kept {JobIDOf j} (ce_store env w) (ce_store env w') \<and>
    (holds (ce_store env w) j (wk_id k) high \<longrightarrow> JState j = JobScheduled \<longrightarrow>
       (\<exists>wh. fmlookup (st_jobs (ce_store env w')) (JobIDOf j) = Some (j\<lparr>JState := outcome k j wh\<rparr>)))"
proof -
  obtain now w0 where now: "ce_now env w = (now, w0)" by force
  note w0 = clock [OF assms(1) now]
  let ?valid = "ValidateJobOwnership (ce_store env w0) (JobIDOf j) (wk_id k) (JobToken j) now"
  have valid: "holds (ce_store env w) j (wk_id k) high \<Longrightarrow> JState j = JobScheduled \<Longrightarrow> ?valid"
    using w0 by (auto simp: holds_def ValidateJobOwnership_def)
  show ?thesis
  proof (cases ?valid)
    case False
    with valid now w0 healthy_le [of "Suc (Suc n)" w0 n] show ?thesis by (auto simp: execute_assigned_job_def)
  next
    case True
    from w0 have "healthy (Suc (Suc n)) w0" by simp
    from transitionJob_runs [OF this assms(2,3) move_of_commands(1)] obtain q w1 where
      start: "transitionJob env k j CommandJobStart JobScheduled JobRunning w0 = (q, w1)" "healthy (Suc n) w1"
      "kept {JobIDOf j} (ce_store env w0) (ce_store env w1)"
      "case q of Inl err \<Rightarrow> \<not> context_error err | Inr j' \<Rightarrow> fmlookup (st_jobs (ce_store env w1)) (JobIDOf j) = Some j'"
      "holds (ce_store env w0) j (wk_id k) high \<longrightarrow> JState j = JobScheduled \<longrightarrow>
         q = Inr (j\<lparr>JState := JobRunning\<rparr>) \<and> holds (ce_store env w1) (j\<lparr>JState := JobRunning\<rparr>) (wk_id k) high"
      by blast
    show ?thesis
    proof (cases q)
      case (Inl err)
      with start True now w0 fewer [OF start(2)] show ?thesis by (auto simp: execute_assigned_job_def)
    next
      case (Inr jr)
      with start(4) have jr: "fmlookup (st_jobs (ce_store env w1)) (JobIDOf j) = Some jr" by simp
      note ok1 = store_ok [OF start(2)]
      from jr ok1 store_fits_lookup(1) store_wf_job have fits: "job_fits jr" "JobIDOf jr = JobIDOf j" "JobIDOf jr \<noteq> []"
        by (fastforce simp: job_ok_def)+
      from worker_Execute_runs [OF start(2) assms(4) fits(3)] obtain e w2 where
        ex: "worker_Execute env k jr w1 = (e, w2)" "e = None \<longleftrightarrow> fst (wk_handler k jr w1) = None" "healthy (Suc n) w2"
        "ce_store env w2 = ce_store env w1" by metis
      define ct where "ct = (if e = None then CommandJobSucceeded else CommandJobFailed)"
      define t where "t = (if e = None then JobSucceeded else JobFailed)"
      have "move_of ct JobRunning t" by (simp add: ct_def t_def)
      from transitionJob_runs [OF ex(3) fits(1) assms(3) this] obtain q2 w3 where
        stop: "transitionJob env k jr ct JobRunning t w2 = (q2, w3)" "healthy n w3"
        "kept {JobIDOf jr} (ce_store env w2) (ce_store env w3)" "case q2 of Inl err \<Rightarrow> \<not> context_error err | Inr j' \<Rightarrow> fmlookup (st_jobs (ce_store env w3)) (JobIDOf jr) = Some j'"
        "holds (ce_store env w2) jr (wk_id k) high \<longrightarrow> JState jr = JobRunning \<longrightarrow>
           q2 = Inr (jr\<lparr>JState := t\<rparr>) \<and> holds (ce_store env w3) (jr\<lparr>JState := t\<rparr>) (wk_id k) high"
        by blast
      have run: "execute_assigned_job env k j w = (None, w3)"
        using stop(1,4) by (auto simp: execute_assigned_job_def finish_job_def now True start(1) Inr ex(1) ct_def t_def split: sum.splits if_splits)
      have "fmlookup (st_jobs (ce_store env w3)) (JobIDOf j) = Some (j\<lparr>JState := outcome k j w1\<rparr>)"
        if "holds (ce_store env w) j (wk_id k) high" "JState j = JobScheduled"
        using that start(5) stop(5) Inr w0 ex(2,4) by (auto simp: holds_def outcome_def t_def)
      with run stop(2) kept_trans [OF start(3), of "{JobIDOf j}"] stop(3) ex(4) fits(2) w0 show ?thesis by auto
    qed
  qed
qed

lemma execute_each_runs:
  assumes "healthy (2 * length js + n) w" "\<forall>j\<in>set js. job_fits j" "utf8_ok (wk_id k)" "handler_keeps healthy (ce_store env) k"
    "distinct (map JobIDOf js)"
  shows "\<exists>w'. execute_each env k js w = (None, w') \<and> healthy n w' \<and>
    (\<forall>j. j \<in> set js \<longrightarrow> JState j = JobScheduled \<longrightarrow> holds (ce_store env w) j (wk_id k) high \<longrightarrow>
       (\<exists>wh. fmlookup (st_jobs (ce_store env w')) (JobIDOf j) = Some (j\<lparr>JState := outcome k j wh\<rparr>))) \<and>
    kept (JobIDOf ` set js) (ce_store env w) (ce_store env w')"
  using assms(1,2,5)
proof (induction js arbitrary: w)
  case (Cons j js)
  from Cons.prems(1) have h: "healthy (Suc (Suc (2 * length js + n))) w" by simp
  from Cons.prems(2) have fits: "job_fits j" by simp
  from execute_assigned_job_runs [OF h fits assms(3,4)] obtain w1 where
    one: "execute_assigned_job env k j w = (None, w1)" "healthy (2 * length js + n) w1" "kept {JobIDOf j} (ce_store env w) (ce_store env w1)"
    "holds (ce_store env w) j (wk_id k) high \<longrightarrow> JState j = JobScheduled \<longrightarrow>
       (\<exists>wh. fmlookup (st_jobs (ce_store env w1)) (JobIDOf j) = Some (j\<lparr>JState := outcome k j wh\<rparr>))" by blast
  from Cons.prems(2,3) have p: "\<forall>j\<in>set js. job_fits j" "distinct (map JobIDOf js)" by simp_all
  from Cons.IH [OF one(2) p] obtain w' where
    rest: "execute_each env k js w1 = (None, w')" "healthy n w'" "kept (JobIDOf ` set js) (ce_store env w1) (ce_store env w')"
    "\<forall>j. j \<in> set js \<longrightarrow> JState j = JobScheduled \<longrightarrow> holds (ce_store env w1) j (wk_id k) high \<longrightarrow>
       (\<exists>wh. fmlookup (st_jobs (ce_store env w')) (JobIDOf j) = Some (j\<lparr>JState := outcome k j wh\<rparr>))" by blast
  have out: "JobIDOf j \<notin> JobIDOf ` set js" using Cons.prems(3) by simp
  have "\<exists>wh. fmlookup (st_jobs (ce_store env w')) (JobIDOf i) = Some (i\<lparr>JState := outcome k i wh\<rparr>)"
    if "i \<in> set (j # js)" "JState i = JobScheduled" "holds (ce_store env w) i (wk_id k) high" for i
  proof (cases "i = j")
    case True
    with that one(4) kept_lookup(1) [OF rest(3) out] show ?thesis by auto
  next
    case False
    with that(1) have "i \<in> set js" by simp
    moreover from this out have "JobIDOf i \<notin> {JobIDOf j}" by (metis image_eqI singletonD)
    then have "holds (ce_store env w1) i (wk_id k) high" using that(3) by (simp add: holds_def kept_lookup [OF one(3)])
    ultimately show ?thesis using that(2) rest(4) by blast
  qed
  moreover have "kept (JobIDOf ` set (j # js)) (ce_store env w) (ce_store env w')" using kept_trans [OF one(3) rest(3)] by simp
  ultimately show ?case using one(1) rest(1,2) by simp
qed simp

lemma executeAssignedJobs_finishes:
  assumes "healthy (2 * fcard (fmdom (st_jobs (ce_store env w))) + n) w" "utf8_ok (wk_id k)"
    "handler_keeps healthy (ce_store env) k" "holds (ce_store env w) j (wk_id k) high" "JState j = JobScheduled"
  shows "\<exists>w' wh. executeAssignedJobs env k w = (None, w') \<and> healthy n w' \<and>
    fmlookup (st_jobs (ce_store env w')) (JobIDOf j) = Some (j\<lparr>JState := outcome k j wh\<rparr>)"
proof -
  let ?js = "ListAssignedJobs (ce_store env w) (wk_id k)"
  note ok = store_ok [OF assms(1)]
  have "healthy (2 * length ?js + n) w"
    by (rule healthy_le [OF assms(1)]) (use job_lists(3) [of "ce_store env w" "wk_id k"] in simp)
  moreover have "\<forall>j\<in>set ?js. job_fits j" "j \<in> set ?js" "distinct (map JobIDOf ?js)"
    using listed_jobs(2) [of "ce_store env w" "wk_id k"] listed_jobs(5) [of "ce_store env w" _ "wk_id k"] ok store_fits_lookup(1) assms(4,5)
    by (auto simp: holds_def)
  ultimately show ?thesis using execute_each_runs [of ?js n w k] assms(2-5) unfolding executeAssignedJobs_def by blast
qed

section \<open>From creation to the end\<close>

lemma CreateJob_waits:
  assumes "healthy (Suc n) w" "utf8_ok jid" "jid \<noteq> []" "fits_int64 at" "fmlookup (st_jobs (ce_store env w)) jid = None"
    "lock_Get (st_locks (ce_store env w)) jid = None"
  shows "\<exists>j i w'. server_CreateJob env jid p at w = ((Inr j, i), w') \<and> healthy n w' \<and> JobIDOf j = jid \<and> Payload j = p \<and>
    ScheduledAt j = at \<and> waiting (ce_store env w') j \<and> fmdom (st_jobs (ce_store env w')) = finsert jid (fmdom (st_jobs (ce_store env w)))"
proof -
  let ?c = "zero_command\<lparr>CType := CommandCreateJob, CJobID := jid, CPayload := p, CScheduledAt := at\<rparr>"
  have ok: "command_fits ?c" "\<not> malformed_command ?c" "CType ?c \<in> result_commands"
    using assms(2,4) by (simp_all add: command_fits_def zero_command_def malformed_command_def result_commands_def ascii_utf8 del: utf8_ok.simps)
  from submit_result [OF assms(1) ok] obtain i t w1 r w2 where
    s: "ce_Propose env (EncodeCommand ?c) w = (Inr i, w1)" "ce_WaitResult env i w1 = (Inr r, w2)"
    "applyCommand (ce_store env w) ?c \<lparr>Index = i, Term = t, Data = EncodeCommand ?c\<rparr> = Some (r, ce_store env w2)"
    "healthy n w2" by metis
  let ?j = "zero_job\<lparr>JobIDOf := jid, Payload := p, JState := JobPending, ScheduledAt := at, CreatedIndex := i\<rparr>"
  from s(3) assms(3,5) have r: "r = \<lparr>ResJob = Some ?j, ResErr = None\<rparr>"
    "ce_store env w2 = (ce_store env w)\<lparr>st_jobs := fmupd jid ?j (st_jobs (ce_store env w))\<rparr>"
    by (auto simp: applyCommand_def applyJobCreationCommand_def CreateJob_def zero_command_def Let_def)
  have "server_CreateJob env jid p at w = ((Inr ?j, i), w2)" using assms(3) s(1,2) r(1) by (simp add: server_CreateJob_def)
  moreover have "waiting (ce_store env w2) ?j" using r(2) assms(6) by (simp add: waiting_def)
  ultimately show ?thesis using s(4) r(2) by force
qed

lemma job_runs_to_completion:
  assumes "healthy (1 + 4 * Suc (fcard (fmdom (st_jobs (ce_store env w)))) + n) w"
    and "utf8_ok jid" "jid \<noteq> []" "fits_int64 at" "at \<le> low"
    and "fmlookup (st_jobs (ce_store env w)) jid = None" "lock_Get (st_locks (ce_store env w)) jid = None"
    and "good_scheduler high s" "high \<le> low + sch_lease s" "\<And>j. JobIDOf j = jid \<Longrightarrow> sch_selector s j = Inr (wk_id k)"
    and "handler_keeps healthy (ce_store env) k"
  shows "\<exists>j i w1 w2 w3 j2 wh. server_CreateJob env jid p at w = ((Inr j, i), w1) \<and> scheduleDueJobs env s w1 = (None, w2) \<and>
    executeAssignedJobs env k w2 = (None, w3) \<and> healthy n w3 \<and> JobIDOf j2 = jid \<and> Payload j2 = p \<and>
    fmlookup (st_jobs (ce_store env w3)) jid = Some (j2\<lparr>JState := outcome k j2 wh\<rparr>)"
proof -
  let ?m = "Suc (fcard (fmdom (st_jobs (ce_store env w))))"
  have "healthy (Suc (2 * ?m + (2 * ?m + n))) w" by (rule healthy_le [OF assms(1)]) simp
  from CreateJob_waits [OF this assms(2-4,6,7)] obtain j i w1 where
    c: "server_CreateJob env jid p at w = ((Inr j, i), w1)" "healthy (2 * ?m + (2 * ?m + n)) w1" "JobIDOf j = jid" "Payload j = p"
    "ScheduledAt j = at" "waiting (ce_store env w1) j"
    "fmdom (st_jobs (ce_store env w1)) = finsert jid (fmdom (st_jobs (ce_store env w)))" by blast
  have m: "fcard (fmdom (st_jobs (ce_store env w1))) \<le> ?m" unfolding c(7) by (simp add: fcard_finsert_if)
  have "healthy (2 * fcard (fmdom (st_jobs (ce_store env w1))) + (2 * ?m + n)) w1" by (rule healthy_le [OF c(2)]) (use m in simp)
  from scheduleDueJobs_assigns [OF this assms(8) c(6) _ assms(10) [OF c(3)]] c(5) assms(5) obtain w2 where
    d: "scheduleDueJobs env s w1 = (None, w2)" "healthy (2 * ?m + n) w2"
    "fmdom (st_jobs (ce_store env w2)) = fmdom (st_jobs (ce_store env w1))" "assigned_until (ce_store env w2) j (wk_id k) (low + sch_lease s)"
    by auto
  from assigned_holds [OF conjunct1 [OF store_ok [OF d(2)]] d(4)] c(3,4) obtain j2 where
    j2: "JobIDOf j2 = jid" "Payload j2 = p" "JState j2 = JobScheduled" "holds (ce_store env w2) j2 (wk_id k) high"
    using assms(9) by (fastforce simp: holds_def)
  have id: "utf8_ok (wk_id k)" using assms(8) assms(10) [OF c(3)] unfolding good_scheduler_def by (metis sum.inject(2))
  have "healthy (2 * fcard (fmdom (st_jobs (ce_store env w2))) + n) w2" by (rule healthy_le [OF d(2)]) (use m d(3) in simp)
  from executeAssignedJobs_finishes [OF this id assms(11) j2(4,3)] c(1) d(1) j2(1,2) show ?thesis by blast
qed

section \<open>The server's expiry of a job's lock\<close>

lemma expired_job_orphaned:
  assumes "healthy (Suc n) w" "fmlookup (st_jobs (ce_store env w)) jid = Some j" "JState j \<in> {JobScheduled, JobRunning}"
    and "lock_Get (st_locks (ce_store env w)) jid = Some l" "FencingToken l = JobToken j" "0 < ExpiresAt l" "ExpiresAt l \<le> low"
    and "fmlookup (pendingExpiration srv) jid \<noteq> Some (JobToken j)"
  shows "\<exists>started srv1 w1 srv2 w2. expireLocks env srv w = (started, srv1, w1) \<and> (jid, JobToken j) \<in> set started \<and>
    proposeLockExpiration env jid (JobToken j) srv1 w1 = (srv2, w2) \<and> healthy n w2 \<and> orphaned (ce_store env w2) jid j \<and>
    (\<forall>now. j \<notin> set (ListExpiredJobs (ce_store env w2) now))"
proof -
  obtain now w1 where now: "ce_now env w = (now, w1)" by force
  note w1 = clock [OF assms(1) now] and ok = store_ok [OF assms(1)]
  let ?s = "ce_store env w"
  note locks = ListLocks_lock [OF store_wf_locks [OF conjunct1 [OF ok]] assms(4)]
  obtain started srv1 where e: "expire_each now (ListLocks ?s) srv = (started, srv1)" by force
  have start: "(jid, JobToken j) \<in> set started"
    using expire_each_starts [OF locks(1,3) assms(6), of now srv] assms(5,7,8) w1 locks(2) e by simp
  have exp: "expireLocks env srv w = (started, srv1, w1)" using leader [OF assms(1)] now e w1 by (simp add: expireLocks_def)
  have look: "fmlookup (Locks (st_locks ?s)) jid = Some l" using assms(4) by (simp add: lock_Get_def)
  have fits: "jid \<noteq> []" "JobToken j \<noteq> 0" "utf8_ok jid" "JobToken j < 2 ^ 64"
    using store_wf_job [OF conjunct1 [OF ok] assms(2)] store_fits_lookup(1) [OF conjunct2 [OF ok] assms(2)] assms(3)
    by (auto simp: job_ok_def job_fits_def)
  have c: "command_fits (expire_command jid (JobToken j))" "\<not> malformed_command (expire_command jid (JobToken j))"
    using fits by (simp_all add: command_fits_def malformed_command_def expire_command_def zero_command_def ascii_utf8 del: utf8_ok.simps)
  from w1 have "healthy (Suc n) w1" by simp
  from submit_waited [OF this c] obtain i t w2 r w3 where
    s: "ce_Propose env (EncodeCommand (expire_command jid (JobToken j))) w1 = (Inr i, w2)" "ce_WaitApplied env i w2 = (None, w3)"
    "applyCommand (ce_store env w1) (expire_command jid (JobToken j))
       \<lparr>Index = i, Term = t, Data = EncodeCommand (expire_command jid (JobToken j))\<rparr> = Some (r, ce_store env w3)" "healthy n w3"
    by metis
  from s(3) have "ce_store env w3 = snd (ExpireLock ?s jid (JobToken j))"
    using w1 by (auto simp: applyCommand_def applyLockCommand_def expire_command_def zero_command_def split: prod.splits sum.splits)
  with ExpireLock_removes [OF conjunct1 [OF ok] look] assms(5)
  have st: "st_locks (ce_store env w3) = lock_remove (st_locks ?s) jid" "st_jobs (ce_store env w3) = st_jobs ?s" by simp_all
  have orph: "orphaned (ce_store env w3) jid j"
    using removed_token_stale [OF conjunct1 [OF ok] look] assms(2,3,5) st by (simp add: orphaned_def)
  moreover have "j \<notin> set (ListExpiredJobs (ce_store env w3) t')" for t'
    using orph by (auto simp: ListExpiredJobs_def lease_expired_def orphaned_def lock_Get_def lt.stale_def split: option.splits if_splits)
  ultimately show ?thesis using exp start s(1,2,4) by (auto simp: proposeLockExpiration_def)
qed

end

end
