(* ===== verification/Local_Cluster.thy ===== *)
theory Local_Cluster
  imports Job_Flow
begin

text \<open>
  A whole program of one node: the Raft node on the in-memory storage, the applier on the node's apply channel, and the clients
  that share them.  A proposal of a single voter commits at once; \<^verbatim>\<open>Propose\<close> then runs \<^verbatim>\<open>applyCommitted\<close>, whose
  entries the applier receives.  Here a proposal runs until the applier has caught up.  The
  interpretation at the end shows that this program meets the contract \<open>command_service\<close>.
\<close>

section \<open>The program\<close>

record 's local_world =
  lw_node :: "'s raft_node"
  lw_applier :: applier
  lw_running :: bool
  lw_clock :: "nat \<Rightarrow> int"
  lw_reads :: nat

definition deliver :: "log_entry list \<Rightarrow> 's local_world \<Rightarrow> 's local_world" where
  "deliver sent w =
     (if lw_running w
      then (case applier_Run (map Received sent) (lw_applier w) of
              (out, a) \<Rightarrow> w\<lparr>lw_applier := a, lw_running := (out = Running)\<rparr>)
      else w)"

definition local_Propose :: "'s storage_ops \<Rightarrow> bytes \<Rightarrow> 's local_world \<Rightarrow> log_index result \<times> 's local_world" where
  "local_Propose ops data w =
     (case Propose ops data (lw_node w) of
        (r, advanced, n) \<Rightarrow>
          if advanced
          then (case applyCommitted ops n of (sent, n') \<Rightarrow> (r, deliver sent (w\<lparr>lw_node := n'\<rparr>)))
          else (r, w\<lparr>lw_node := n\<rparr>))"

text \<open>Without other nodes, an operation that cannot finish waits until its deadline.\<close>

definition local_ReadIndex :: "'s local_world \<Rightarrow> log_index result \<times> 's local_world" where
  "local_ReadIndex w =
     (case ReadIndex_begin (lw_node w) of
        Inl err \<Rightarrow> (Inl err, w)
      | Inr (op, Some index) \<Rightarrow> (Inr index, w)
      | Inr (op, None) \<Rightarrow> (Inl DeadlineExceeded, w))"

definition local_WaitResult :: "log_index \<Rightarrow> 's local_world \<Rightarrow> apply_result result \<times> 's local_world" where
  "local_WaitResult index w =
     (case wait_result_poll index (lw_applier w) of
        (Some r, a) \<Rightarrow> (r, w\<lparr>lw_applier := a\<rparr>)
      | (None, a) \<Rightarrow> (Inl DeadlineExceeded, w\<lparr>lw_applier := a\<rparr>))"

definition local_env :: "'s storage_ops \<Rightarrow> 's local_world cluster_env" where
  "local_env ops = \<lparr>ce_Role = (\<lambda>w. node_role (lw_node w)), ce_Propose = local_Propose ops, ce_ReadIndex = local_ReadIndex,
     ce_WaitApplied = (\<lambda>index w. (WaitApplied index [lw_applier w] DeadlineExceeded, w)),
     ce_WaitResult = local_WaitResult, ce_store = (\<lambda>w. a_store (lw_applier w)),
     ce_now = (\<lambda>w. (lw_clock w (lw_reads w), w\<lparr>lw_reads := Suc (lw_reads w)\<rparr>)), ce_ctxErr = (\<lambda>_. None)\<rparr>"

section \<open>A single voter commits its own entries\<close>

definition solo_node :: "memory_storage raft_node \<Rightarrow> bool" where
  "solo_node n \<longleftrightarrow> node_role n = Leader \<and> n_transport n \<and> membershipHasQuorum (node_membership n) {n_id n} \<and> n_peerIDs n = [] \<and>
     log_wf (n_log n) \<and> node_commit n = LastIndex (n_log n) \<and> node_applied n = LastIndex (n_log n) \<and>
     (ms_entries (n_storage n) = [] \<or> Index (last (ms_entries (n_storage n))) = LastIndex (n_log n))"

lemma replicated_alone: "n_peerIDs n = [] \<Longrightarrow> replicated_on n i = {n_id n}"
  by (simp add: replicated_on_def)

lemma commands_are_data: "\<not> IsConfigurationEntry (EncodeCommand c)"
proof -
  obtain rest where e: "EncodeCommand c = CHR ''{'' # rest" by (simp add: EncodeCommand_def command_json_def)
  show ?thesis
  proof (cases "length (EncodeCommand c) < 4")
    case False
    then have len: "length (take 3 rest) = 3" by (simp add: e)
    have "be_value (take 4 (EncodeCommand c)) = byte (CHR ''{'') * 256 ^ 3 + be_value (take 3 rest)"
      using be_value_Cons [of "CHR ''{''" "take 3 rest"] len by (simp add: e)
    moreover have "byte (CHR ''{'') * 256 ^ 3 > configurationEntryMagic" by (simp add: configurationEntryMagic_def)
    ultimately show ?thesis using False by (simp add: IsConfigurationEntry_def)
  qed (simp add: IsConfigurationEntry_def)
qed

lemma applyCommitted_one:
  assumes "node_commit n = Suc (node_applied n)" "log_Get (n_log n) (node_commit n) = Some e" "\<not> IsConfigurationEntry (Data e)"
  shows "applyCommitted ops n = ([e], set_applied (node_commit n) n)"
proof -
  let ?n = "set_applied (node_commit n) n"
  have "applyNext ops n = (ApplySend e, n)" using assms by (simp add: applyNext_def Let_def)
  moreover have "markApplied (node_applied n + 1) n = ?n" using assms(1) by (simp add: markApplied_def)
  moreover have "applyNext ops ?n = (ApplyStop, ?n)" by (simp add: applyNext_def)
  ultimately show ?thesis by (simp add: applyCommitted.simps [of ops n] applyCommitted.simps [of ops ?n])
qed

lemma solo_Propose:
  assumes "solo_node n" "Suc (LastIndex (n_log n)) < 2 ^ 64" "\<not> IsConfigurationEntry data"
  defines "e \<equiv> \<lparr>Index = Suc (LastIndex (n_log n)), Term = node_term n, Data = data\<rparr>"
  obtains n1 n2 where "Propose memory_ops data n = (Inr (Index e), True, n1)" "applyCommitted memory_ops n1 = ([e], n2)"
    "solo_node n2" "LastIndex (n_log n2) = Index e" "log_Get (n_log n2) (Index e) = Some e" "node_term n2 = node_term n"
proof -
  note solo = assms(1) [unfolded solo_node_def]
  have idx: "Index e = Suc (LastIndex (n_log n))" by (simp add: e_def)
  have "log_wf (n_log n)" using solo by simp
  from log_Append_next [OF this assms(2) idx] obtain l where
    l: "log_Append (n_log n) e = Inr l" "log_wf l" "LastIndex l = Suc (LastIndex (n_log n))" "log_at l = (log_at (n_log n))(Suc (LastIndex (n_log n)) \<mapsto> e)"
    "lastIncludedIndex l = lastIncludedIndex (n_log n)" by metis
  define s where "s = (n_storage n)\<lparr>ms_entries := ms_entries (n_storage n) @ [e]\<rparr>"
  define m where "m = n\<lparr>n_storage := s, n_log := l\<rparr>"
  have st: "op_AppendEntries memory_ops [e] (n_storage n) = (None, s)" "op_Sync memory_ops s = (None, s)"
    using solo idx assms(2) by (auto simp: memory_defs validateEntries_def validateAppend_def inc64_Suc s_def)
  have get: "log_Get l (Suc (LastIndex (n_log n))) = Some e"
    using l(2,4,5) log_wf_LastIndex [of "n_log n"] solo by (simp add: log_Get_at)
  have "fold commit_step [node_commit m + 1 ..< LastIndex (n_log m) + 1] m = set_commit (Suc (LastIndex (n_log n))) m"
    using solo get l(3) by (simp add: m_def commit_step_def logTerm_def replicated_alone e_def)
  then have adv: "advanceCommitIndexLocked m = (True, set_commit (Suc (LastIndex (n_log n))) m)"
    using solo by (simp add: advanceCommitIndexLocked_def m_def set_commit_def)
  define n1 where "n1 = set_commit (Suc (LastIndex (n_log n))) m"
  have "Propose memory_ops data n = (Inr (Index e), True, n1)"
    using solo st l(1) adv assms(2) by (simp add: Propose_def inc64_Suc idx Let_def m_def [symmetric] n1_def flip: e_def)
  moreover have "applyCommitted memory_ops n1 = ([e], set_applied (node_commit n1) n1)"
    using solo get assms(3) by (intro applyCommitted_one) (simp_all add: n1_def m_def set_commit_def e_def)
  moreover have "solo_node (set_applied (node_commit n1) n1)"
    using solo l(2,3) idx by (simp add: solo_node_def n1_def m_def set_commit_def s_def set_applied_def)
  ultimately show thesis
    using that [of n1 "set_applied (node_commit n1) n1"] l(3) get by (simp add: n1_def m_def set_commit_def idx set_applied_def)
qed

section \<open>What the applier keeps\<close>

lemma apply_entry_result:
  assumes "apply_entry e a = Some (r, a')" "commandNeedsResult e" "ApplyWithMetrics (a_store a) e = Some (res, s')"
  shows "fmlookup (a_results a') (Index e) = Some res"
  using assms by (auto simp: apply_entry_def Let_def split: option.splits if_splits)

definition granted_before :: "log_index \<Rightarrow> store \<Rightarrow> bool" where
  "granted_before i s \<longleftrightarrow> (\<forall>k l. lock_Get (st_locks s) k = Some l \<longrightarrow> GrantIndex l < i)"

lemma granted_before_same: "granted_before i s \<Longrightarrow> st_locks s' = st_locks s \<Longrightarrow> granted_before i s'"
  by (simp add: granted_before_def)

lemma granted_before_mono: "granted_before i s \<Longrightarrow> i \<le> j \<Longrightarrow> granted_before j s"
  unfolding granted_before_def by (meson order_less_le_trans)

lemma lock_Acquire_granted:
  "granted_before i s \<Longrightarrow> granted_before (Suc i) (s\<lparr>st_locks := snd (snd (lock_Acquire (st_locks s) k v x i))\<rparr>)"
  by (auto simp: granted_before_def lock_Get_def lock_Acquire_def Let_def less_Suc_eq split: option.split)

lemma ClaimJob_locks:
  "st_locks (snd (ClaimJob s i v x g)) \<in> {st_locks s, snd (snd (lock_Acquire (st_locks s) i v x g))}"
  by (auto simp: ClaimJob_def handleFailedClaim_def Let_def split: option.split prod.split)

lemma applyCommand_granted:
  assumes "applyCommand s c e = Some (r, s')" "granted_before (Index e) s"
  shows "granted_before (Suc (Index e)) s'"
proof -
  have old: "granted_before (Suc (Index e)) s" using assms(2) by (rule granted_before_mono) simp
  have new: "granted_before (Suc (Index e)) (s'\<lparr>st_locks := snd (snd (lock_Acquire (st_locks s) k v x (Index e)))\<rparr>)" for k v x
    using lock_Acquire_granted [OF assms(2)] by (simp add: granted_before_def)
  have drop: "granted_before (Suc (Index e)) (s'\<lparr>st_locks := lock_remove (st_locks s) k\<rparr>)" for k
    using old by (auto simp: granted_before_def lock_Get_def lock_remove_def)
  from assms(1) have "st_locks s' = st_locks s \<or> (\<exists>k. st_locks s' = lock_remove (st_locks s) k) \<or>
      (\<exists>k v x. st_locks s' = snd (snd (lock_Acquire (st_locks s) k v x (Index e))))"
  proof (cases rule: applyCommand_cases)
    case Acquire
    then have "st_locks s' \<in> {st_locks s, snd (snd (lock_Acquire (st_locks s) (CKey c) (COwnerID c) (CExpiresAt c) (Index e)))}"
      by (simp add: AcquireLock_def split: prod.split)
    then show ?thesis by blast
  next
    case Expire
    then show ?thesis by (auto simp: ExpireLock_def lock_Expire_def lock_remove_def split: option.splits)
  next
    case Claim
    with ClaimJob_locks [of s "CJobID c" "COwnerID c" "CExpiresAt c" "Index e"] show ?thesis by auto
  next
    case Reclaim
    then show ?thesis by (auto simp: ReclaimExpiredJob_def Let_def split: option.splits if_splits)
  qed (auto simp: store_Put_def store_Delete_def FencedPut_def CreateJob_def TransitionJobState_def Let_def
      split: option.splits if_splits)
  then show ?thesis
  proof (elim disjE exE)
    assume "st_locks s' = st_locks s" with old show ?thesis by (rule granted_before_same)
  next
    fix k assume "st_locks s' = lock_remove (st_locks s) k" with drop [of k] show ?thesis by (auto intro: granted_before_same)
  next
    fix k v x assume "st_locks s' = snd (snd (lock_Acquire (st_locks s) k v x (Index e)))"
    with new [of k v x] show ?thesis by (auto intro: granted_before_same)
  qed
qed

section \<open>The contract\<close>

definition local_ok :: "int \<Rightarrow> int \<Rightarrow> nat \<Rightarrow> memory_storage local_world \<Rightarrow> bool" where
  "local_ok low high k w \<longleftrightarrow>
     (let n = lw_node w; a = lw_applier w; last = LastIndex (n_log n)
      in solo_node n \<and> last + k < 2 ^ 64 \<and> lw_running w \<and> a_applyErr a = None \<and> a_lastApplied a = last \<and>
         store_wf (a_store a) \<and> store_fits (a_store a) \<and> NextToken (st_locks (a_store a)) \<le> last \<and>
         granted_before (Suc last) (a_store a) \<and> 0 < low \<and> high < 2 ^ 63 \<and> (\<forall>i. low \<le> lw_clock w i \<and> lw_clock w i < high))"

definition local_readable :: "memory_storage local_world \<Rightarrow> bool" where
  "local_readable w \<longleftrightarrow>
     (\<exists>e. log_Get (n_log (lw_node w)) (node_commit (lw_node w)) = Some e \<and> Term e = node_term (lw_node w)) \<and> 0 < node_commit (lw_node w)"

lemma local_submit:
  assumes "local_ok low high (Suc k) w" "command_fits c" "\<not> malformed_command c"
  defines "env \<equiv> local_env memory_ops"
  shows "\<exists>i t w1 r s'. ce_Propose env (EncodeCommand c) w = (Inr i, w1) \<and>
      granted_before i (ce_store env w) \<and>
      applyCommand (ce_store env w) c \<lparr>Index = i, Term = t, Data = EncodeCommand c\<rparr> = Some (r, s') \<and>
      ce_WaitApplied env i w1 = (None, w1) \<and> local_ok low high k w1 \<and> local_readable w1 \<and> ce_store env w1 = s' \<and>
      (CType c \<in> result_commands \<longrightarrow> (\<exists>w2. ce_WaitResult env i w1 = (Inr r, w2) \<and> local_ok low high k w2 \<and> ce_store env w2 = s'))"
proof -
  note ok = assms(1) [unfolded local_ok_def Let_def]
  let ?a = "lw_applier w" and ?last = "LastIndex (n_log (lw_node w))"
  define e where "e = \<lparr>Index = Suc ?last, Term = node_term (lw_node w), Data = EncodeCommand c\<rparr>"
  from ok have "solo_node (lw_node w)" "Suc ?last < 2 ^ 64" by simp_all
  from solo_Propose [OF this commands_are_data [of c], folded e_def] obtain n1 n2 where
    n': "Propose memory_ops (EncodeCommand c) (lw_node w) = (Inr (Index e), True, n1)" "applyCommitted memory_ops n1 = ([e], n2)"
    "solo_node n2" "LastIndex (n_log n2) = Index e" "log_Get (n_log n2) (Index e) = Some e" "node_term n2 = node_term (lw_node w)"
    by blast
  have "Index e = Suc ?last" by (simp add: e_def)
  note n = n' [unfolded this]
  obtain res a' where run: "apply_entry e ?a = Some (res, a')" using apply_entry_total by blast
  have dec: "DecodeCommand (Data e) = Inr c" by (simp add: e_def DecodeCommand_EncodeCommand [OF assms(2)])
  have "\<not> poison_entry e" using assms(3) dec by (simp add: poison_entry_def)
  with apply_entry_stops [OF run] have res: "res = None" by simp
  obtain r s' where app: "applyCommand (a_store ?a) c e = Some (r, s')" using applyCommand_total by blast
  then have met: "ApplyWithMetrics (a_store ?a) e = Some (r, s')" by (simp add: ApplyWithMetrics_def dec)
  note a' = apply_entry_state [OF run, unfolded res]
  have st: "a_store a' = s'" using a'(1) by (simp add: entry_effect_def met)
  define w1 where "w1 = w\<lparr>lw_node := n2, lw_applier := a'\<rparr>"
  have pr: "ce_Propose env (EncodeCommand c) w = (Inr (Suc ?last), w1)"
    using n(1,2) run res ok by (simp add: env_def local_env_def local_Propose_def deliver_def w1_def)
  have room: "Suc (NextToken (st_locks (a_store ?a))) < 2 ^ 64" using ok by simp
  have "lock_wf (st_locks (a_store ?a))" using ok store_wf_locks by blast
  note tok = applyCommand_tokens(2) [OF app this room]
  have wf: "store_wf s'" using applyCommand_wf [OF app _ room] ok by simp
  have fits: "store_fits s'" using applyCommand_fits [OF app _ room assms(2)] ok by (simp add: e_def)
  have gr: "granted_before (Suc (Suc ?last)) s'" using applyCommand_granted [OF app] ok by (simp add: e_def)
  have ok1: "local_ok low high k w1"
    using ok n(3,4) a' st tok wf fits gr by (simp add: local_ok_def Let_def w1_def e_def)
  have needs: "commandNeedsResult e \<longleftrightarrow> CType c \<in> result_commands"
    by (auto simp: commandNeedsResult_def dec result_commands_def job_commands_def)
  have "\<exists>w2. ce_WaitResult env (Suc ?last) w1 = (Inr r, w2) \<and> local_ok low high k w2 \<and> ce_store env w2 = s'"
    if "CType c \<in> result_commands"
    using apply_entry_result [OF run _ met] that needs ok1 st
    by (auto simp: env_def local_env_def local_WaitResult_def wait_result_poll_def w1_def e_def local_ok_def Let_def)
  moreover have "ce_WaitApplied env (Suc ?last) w1 = (None, w1)"
    using a' ok by (simp add: env_def local_env_def w1_def e_def)
  moreover have "local_readable w1" using n(3-6) by (simp add: local_readable_def w1_def solo_node_def e_def)
  ultimately show ?thesis using pr ok ok1 app st
    by (intro exI [of _ "Suc ?last"] exI [of _ "node_term (lw_node w)"] exI [of _ w1] exI [of _ r] exI [of _ s'])
      (simp add: env_def local_env_def e_def w1_def)
qed

interpretation lc: command_service "local_env memory_ops" "local_ok low high" local_readable low high
  for low high
proof
  fix n w assume ok: "local_ok low high n w"
  then show "0 < low \<and> high < 2 ^ 63" "ce_Role (local_env memory_ops) w = Leader" "ce_ctxErr (local_env memory_ops) w = None"
    "store_wf (ce_store (local_env memory_ops) w) \<and> store_fits (ce_store (local_env memory_ops) w)"
    by (simp_all add: local_ok_def Let_def solo_node_def local_env_def)
  fix t w' assume "ce_now (local_env memory_ops) w = (t, w')"
  with ok show "local_ok low high n w' \<and> ce_store (local_env memory_ops) w' = ce_store (local_env memory_ops) w \<and> low \<le> t \<and> t < high"
    by (auto simp: local_ok_def Let_def local_env_def)
next
  fix n w assume "local_ok low high (Suc n) w"
  then show "local_ok low high n w" by (simp add: local_ok_def Let_def)
next
  fix n w c assume "local_ok low high (Suc n) w" "command_fits c" "\<not> malformed_command c"
  from local_submit [OF this] show "\<exists>i t w1 r s'. ce_Propose (local_env memory_ops) (EncodeCommand c) w = (Inr i, w1) \<and>
      (\<forall>k l. lock_Get (st_locks (ce_store (local_env memory_ops) w)) k = Some l \<longrightarrow> GrantIndex l < i) \<and>
      applyCommand (ce_store (local_env memory_ops) w) c \<lparr>Index = i, Term = t, Data = EncodeCommand c\<rparr> = Some (r, s') \<and>
      (\<exists>w2. ce_WaitApplied (local_env memory_ops) i w1 = (None, w2) \<and> local_ok low high n w2 \<and> local_readable w2 \<and>
         ce_store (local_env memory_ops) w2 = s') \<and>
      (CType c \<in> result_commands \<longrightarrow> (\<exists>w2. ce_WaitResult (local_env memory_ops) i w1 = (Inr r, w2) \<and> local_ok low high n w2 \<and>
         ce_store (local_env memory_ops) w2 = s'))"
    unfolding granted_before_def by blast
next
  fix n w assume "local_ok low high n w" "local_readable w"
  then show "\<exists>i w1 w2. ce_ReadIndex (local_env memory_ops) w = (Inr i, w1) \<and> ce_WaitApplied (local_env memory_ops) i w1 = (None, w2) \<and>
      local_ok low high n w2 \<and> ce_store (local_env memory_ops) w2 = ce_store (local_env memory_ops) w"
    by (auto simp: local_ok_def Let_def solo_node_def local_env_def local_ReadIndex_def ReadIndex_begin_def local_readable_def)
qed

end
