(* ===== verification/Service_Properties.thy ===== *)
theory Service_Properties
  imports Local_Cluster
begin

text \<open>
  Properties of the whole program: a job from its creation to its end, reads after writes, locks and their leases, and what the
  server's expiry loop does to running jobs.
\<close>

section \<open>A node that leads itself\<close>

definition solo_leader :: "memory_storage raft_node" where
  "solo_leader = (case NewRaftNodeWithStorage memory_ops ''a'' NewMemoryStorage of
     Inr n \<Rightarrow> snd (tryBecomeLeader (snd (startElection memory_ops (snd (BootstrapMembership memory_ops n))))))"

definition solo_world :: "memory_storage local_world" where
  "solo_world = \<lparr>lw_node = solo_leader, lw_applier = NewApplier NewStore, lw_running = True, lw_clock = (\<lambda>_. 1000), lw_reads = 0\<rparr>"

lemmas solo_defs = solo_leader_def NewRaftNodeWithStorage_def memory_defs NewMemoryStorage_def zero_snapshot_def
  BootstrapMembership_def bootstrap_voters_def zero_persistent_state_def persistStateLocked_def startElection_def persist_def
  membershipIsVoter_def configurationContainsVoter_def tryBecomeLeader_def membershipHasQuorum_def configurationHasQuorum_def
  configurationMajority_def becomeLeaderLocked_def Let_def

lemma solo_leader_ok: "solo_node solo_leader" "LastIndex (n_log solo_leader) = 0" "node_term solo_leader = 1"
  by (simp_all add: solo_node_def solo_defs inc64_def) (simp_all add: NewLog_def LastIndex_def)

lemma solo_world_ok: "k < 2 ^ 64 \<Longrightarrow> local_ok 1000 1001 k solo_world"
  by (simp add: local_ok_def solo_world_def NewApplier_def solo_leader_ok store_wf_NewStore store_fits_NewStore Let_def)
    (simp add: NewStore_def NewState_def granted_before_def lock_Get_def)

lemma local_env_store [simp]: "ce_store (local_env ops) w = a_store (lw_applier w)"
  by (simp add: local_env_def)

section \<open>Jobs\<close>

lemma SelectWorker_id: "JobIDOf i = JobIDOf j \<Longrightarrow> SelectWorker ws i = SelectWorker ws j"
  by (simp add: SelectWorker_def)

lemma NewScheduler_Inr:
  "NewScheduler a b c (Some sel) interval lease = Inr s \<Longrightarrow> sch_selector s = sel \<and> sch_lease s = lease \<and> 0 < lease"
  by (auto simp: NewScheduler_def split: if_splits)

lemma hash_scheduler_good:
  assumes "NewHashWorkerSelector ws = Inr ws'" "list_all utf8_ok ws"
    and "NewScheduler a b c (Some (SelectWorker ws')) interval lease = Inr s" "high + lease < 2 ^ 63"
  shows "good_scheduler high s"
proof -
  note sel = NewHashWorkerSelector_Inr [OF assms(1)] and s = NewScheduler_Inr [OF assms(3)]
  have "\<exists>v. sch_selector s j = Inr v \<and> utf8_ok v \<and> v \<noteq> []" for j
  proof -
    let ?v = "ws' ! (unat (fnv32a (JobIDOf j)) mod length ws')"
    have "?v \<in> set ws'" using sel(2) by (intro nth_mem) simp
    with sel assms(2) s show ?thesis by (auto simp: SelectWorker_def list_all_iff)
  qed
  with s assms(4) show ?thesis by (simp add: good_scheduler_def)
qed

text \<open>C5.  A job runs to its end: on a single-node cluster, a job created under a new name, due now, is claimed by the next
  pass of the scheduler for the worker its hash selects and finished by that worker's next pass, as
  succeeded or failed as the handler decides, whatever other jobs are expired, pending or assigned, provided the
  three passes take less time than a lease.\<close>

theorem job_completes:
  assumes "local_ok low high (1 + 4 * Suc (fcard (fmdom (st_jobs (a_store (lw_applier w))))) + n) w"
    and "utf8_ok jid" "jid \<noteq> []" "fits_int64 at" "at \<le> low"
    and "fmlookup (st_jobs (a_store (lw_applier w))) jid = None" "lock_Get (st_locks (a_store (lw_applier w))) jid = None"
    and "NewHashWorkerSelector ws = Inr ws'" "list_all utf8_ok ws"
    and "NewScheduler (Some ()) (Some ()) (Some ()) (Some (SelectWorker ws')) interval lease = Inr s"
    and "high \<le> low + lease" "high + lease < 2 ^ 63"
    and "SelectWorker ws' (zero_job\<lparr>JobIDOf := jid\<rparr>) = Inr (wk_id k)"
    and "handler_keeps (local_ok low high) (\<lambda>w. a_store (lw_applier w)) k"
  shows "\<exists>j i w1 w2 w3 j2 wh. server_CreateJob (local_env memory_ops) jid p at w = ((Inr j, i), w1) \<and>
    scheduleDueJobs (local_env memory_ops) s w1 = (None, w2) \<and> executeAssignedJobs (local_env memory_ops) k w2 = (None, w3) \<and>
    local_ok low high n w3 \<and> JobIDOf j2 = jid \<and> Payload j2 = p \<and>
    fmlookup (st_jobs (a_store (lw_applier w3))) jid = Some (j2\<lparr>JState := outcome k j2 wh\<rparr>)"
proof -
  have "sch_selector s j = Inr (wk_id k)" if "JobIDOf j = jid" for j
    using NewScheduler_Inr [OF assms(10)] assms(13) SelectWorker_id [of j "zero_job\<lparr>JobIDOf := jid\<rparr>" ws'] that by simp
  moreover have "ce_store (local_env memory_ops) = (\<lambda>w. a_store (lw_applier w))" by (simp add: fun_eq_iff)
  ultimately show ?thesis
    using lc.job_runs_to_completion [of low high w n jid at s k p] hash_scheduler_good [OF assms(8-10,12)] NewScheduler_Inr [OF assms(10)]
      assms(1-7,11,14) by simp
qed

theorem job_completes_witness:
  "\<exists>s k w1 w2 w3 j i j2. sch_lease s = 60 \<and>
     server_CreateJob (local_env memory_ops) ''j'' ''x'' 5 solo_world = ((Inr j, i), w1) \<and>
     scheduleDueJobs (local_env memory_ops) s w1 = (None, w2) \<and> executeAssignedJobs (local_env memory_ops) k w2 = (None, w3) \<and>
     fmlookup (st_jobs (a_store (lw_applier w3))) ''j'' = Some j2 \<and> JState j2 = JobSucceeded"
proof -
  define s where "s = \<lparr>sch_selector = SelectWorker [''w''], sch_interval = 1, sch_lease = 60\<rparr>"
  define k :: "memory_storage local_world worker" where
    "k = \<lparr>wk_id = ''w'', wk_handler = (\<lambda>j w. (None, w)), wk_source = True, wk_interval = 1\<rparr>"
  have empty: "st_jobs (a_store (lw_applier solo_world)) = fmempty" "st_locks (a_store (lw_applier solo_world)) = NewState"
    by (simp_all add: solo_world_def NewApplier_def NewStore_def)
  have ok: "local_ok 1000 1001 (1 + 4 * Suc (fcard (fmdom (st_jobs (a_store (lw_applier solo_world))))) + 0) solo_world"
    by (rule solo_world_ok) (simp add: empty fcard.rep_eq)
  have sel: "NewHashWorkerSelector [''w''] = Inr [''w'']" "SelectWorker [''w''] j = Inr ''w''" for j
    by (simp_all add: NewHashWorkerSelector_def SelectWorker_def)
  have "\<exists>j i w1 w2 w3 j2 wh. server_CreateJob (local_env memory_ops) ''j'' ''x'' 5 solo_world = ((Inr j, i), w1) \<and>
    scheduleDueJobs (local_env memory_ops) s w1 = (None, w2) \<and> executeAssignedJobs (local_env memory_ops) k w2 = (None, w3) \<and>
    local_ok 1000 1001 0 w3 \<and> JobIDOf j2 = ''j'' \<and> Payload j2 = ''x'' \<and>
    fmlookup (st_jobs (a_store (lw_applier w3))) ''j'' = Some (j2\<lparr>JState := outcome k j2 wh\<rparr>)"
    (is "\<exists>j i w1 w2 w3 j2 wh. ?run j i w1 w2 w3 j2 wh")
    by (rule job_completes [OF ok, where ws = "[''w'']" and ws' = "[''w'']" and interval = 1 and lease = 60])
      (simp_all add: empty lock_Get_def NewState_def sel NewScheduler_def s_def k_def handler_keeps_def ascii_utf8 del: utf8_ok.simps)
  then obtain j i w1 w2 w3 j2 wh where run: "?run j i w1 w2 w3 j2 wh" by (elim exE)
  have "outcome k j2 wh = JobSucceeded" "sch_lease s = 60" by (simp_all add: outcome_def k_def s_def)
  with run show ?thesis
    by (intro exI [of _ s] exI [of _ k] exI [of _ w1] exI [of _ w2] exI [of _ w3] exI [of _ j] exI [of _ i]
        exI [of _ "j2\<lparr>JState := JobSucceeded\<rparr>"]) simp
qed


definition claimed_world :: "memory_storage local_world" where
  "claimed_world = solo_world\<lparr>lw_node := solo_leader\<lparr>n_log := \<lparr>log_entries = [], lastIncludedIndex = 2, lastIncludedTerm = 1\<rparr>,
       n_state := (n_state solo_leader)\<lparr>Volatile := \<lparr>CommitIndex = 2, LastApplied = 2\<rparr>\<rparr>\<rparr>,
     lw_applier := (NewApplier store_claimed)\<lparr>a_lastApplied := 2\<rparr>\<rparr>"

lemma claimed_world_ok: "k < 2 ^ 63 \<Longrightarrow> local_ok 1000 1001 k claimed_world"
proof -
  assume k: "k < 2 ^ 63"
  have fits: "store_fits store_claimed"
    using apply_all_restorable [OF history_claimed' histories_fit(1) _ store_wf_NewStore jobs_owned_NewStore store_fits_NewStore]
    by (simp add: NewStore_def NewState_def)
  have locks: "granted_before 3 store_claimed" "NextToken (st_locks store_claimed) \<le> 2"
    by (auto simp: granted_before_def store_claimed_def lock_Get_def job_lock_def split: if_splits)
  have "solo_node (lw_node claimed_world)" "LastIndex (n_log (lw_node claimed_world)) = 2"
    using solo_leader_ok(1) by (auto simp: solo_node_def claimed_world_def log_wf_def LastIndex_def solo_defs)
  with k fits locks store_claimed_wf show ?thesis
    by (simp add: local_ok_def claimed_world_def solo_world_def NewApplier_def Let_def)
qed


section \<open>Keys and locks\<close>





lemma lease_end_wrap: "lease_end now leaseMillis = wrap64 (now + leaseMillis * 1000000)"
  by (simp add: lease_end_def wrap64_def mod_simps algebra_simps)



section \<open>A write that is lost\<close>

text \<open>While the server waits, another leader's entries arrive at the node.\<close>

definition overtaken_env :: "append_entries_args \<Rightarrow> memory_storage local_world cluster_env" where
  "overtaken_env args = (local_env memory_ops)\<lparr>ce_WaitApplied := (\<lambda>index w.
     case AppendEntries memory_ops args (lw_node w) of
       ((reply, advanced), n) \<Rightarrow>
         let w1 = (if advanced
                   then (case applyCommitted memory_ops n of (sent, n') \<Rightarrow> deliver sent (w\<lparr>lw_node := n'\<rparr>))
                   else w\<lparr>lw_node := n\<rparr>)
         in (WaitApplied index [lw_applier w1] DeadlineExceeded, w1))\<rparr>"

definition trio_leader :: "memory_storage raft_node" where
  "trio_leader = (case NewRaftNodeWithStorage memory_ops ''a'' NewMemoryStorage of
     Inr n \<Rightarrow> let n1 = snd (BootstrapMembership memory_ops (SetTransport n [''b'', ''c'']));
                n2 = snd (startElection memory_ops n1);
                n3 = snd (recordVote ''b'' 1 True n2)
            in snd (tryBecomeLeader n3))"

lemma trio_leader_state:
  "node_role trio_leader = Leader" "node_term trio_leader = 1" "n_id trio_leader = ''a''" "n_log trio_leader = NewLog"
  "node_commit trio_leader = 0" "node_applied trio_leader = 0" "n_peerIDs trio_leader = [''b'', ''c'']"
  "node_membership trio_leader = \<lparr>Current = \<lparr>Voters = [''a'', ''b'', ''c'']\<rparr>, Joint = None\<rparr>"
  "n_storage trio_leader = \<lparr>ms_state = node_persistent trio_leader, ms_entries = [], ms_snapshot = None\<rparr>"
  "MatchIndex (LeaderProgress (n_state trio_leader)) = fmupd ''c'' 0 (fmupd ''b'' 0 fmempty)"
  by (simp_all add: trio_leader_def solo_defs recordVote_def inc64_def initializeReplicationStateLocked_def set_progress_def SetTransport_def)

definition barrier_entry :: log_entry where
  "barrier_entry = \<lparr>Index = 1, Term = 2, Data = EncodeCommand (zero_command\<lparr>CType := CommandReadBarrier\<rparr>)\<rparr>"

definition overtaking_args :: append_entries_args where
  "overtaking_args = \<lparr>ae_Term = 2, ae_LeaderID = ''b'', ae_PrevLogIndex = 0, ae_PrevLogTerm = 0, ae_Entries = [barrier_entry],
     ae_LeaderCommit = 1\<rparr>"

definition trio_log :: "bytes \<Rightarrow> memory_storage raft_node" where
  "trio_log data = (let e = \<lparr>Index = 1, Term = 1, Data = data\<rparr> in
     trio_leader\<lparr>n_storage := (n_storage trio_leader)\<lparr>ms_entries := [e]\<rparr>, n_log := \<lparr>log_entries = [e], lastIncludedIndex = 0, lastIncludedTerm = 0\<rparr>\<rparr>)"

lemma trio_proposes: "Propose memory_ops data trio_leader = (Inr 1, False, trio_log data)"
proof -
  have "commit_step (Suc 0) (trio_log data) = trio_log data"
    by (simp add: commit_step_def trio_log_def trio_leader_state replicated_on_def membershipHasQuorum_def configurationHasQuorum_def
        configurationMajority_def map_index_def Let_def)
  then have "advanceCommitIndexLocked (trio_log data) = (False, trio_log data)"
    by (simp add: advanceCommitIndexLocked_def trio_log_def trio_leader_state LastIndex_def Let_def)
  then show ?thesis
    by (simp add: Propose_def trio_leader_state memory_defs validateEntries_def validateAppend_def log_Append_def LastIndex_def NewLog_def
        inc64_def Let_def) (simp add: trio_log_def trio_leader_state Let_def)
qed

lemma trio_overtaken:
  "\<exists>reply n n'. AppendEntries memory_ops overtaking_args (trio_log data) = ((reply, True), n) \<and>
     applyCommitted memory_ops n = ([barrier_entry], n')"
proof -
  obtain reply n where run: "AppendEntries memory_ops overtaking_args (trio_log data) = ((reply, True), n)"
    and n: "node_commit n = Suc (node_applied n)" "log_Get (n_log n) (node_commit n) = Some barrier_entry"
    by (simp add: AppendEntries_def overtaking_args_def barrier_entry_def trio_log_def trio_leader_state adopt_term_def persist_def memory_defs
        append_in_term_def reconcileReplicatedEntriesLocked_def log_Get_def validateReplaceSuffix_def validateEntries_def
        TruncateFrom_def log_Append_def advance_follower_commit_def LastIndex_def set_commit_def inc64_def Let_def)
  have "\<not> IsConfigurationEntry (Data barrier_entry)" by (simp add: barrier_entry_def commands_are_data)
  from applyCommitted_one [OF n this, of memory_ops] run show ?thesis by blast
qed


section \<open>The choice of a worker\<close>

text \<open>C33.  Every leader makes the same assignment: the selector does not depend on the order in which the workers are configured, and it
  always names one of them, so its index is never out of range.\<close>

theorem selector_agrees:
  assumes "mset ws = mset vs" "NewHashWorkerSelector ws = Inr ws'"
  shows "NewHashWorkerSelector vs = Inr ws' \<and> unat (fnv32a (JobIDOf j)) mod length ws' < length ws' \<and>
    (\<exists>v. SelectWorker ws' j = Inr v \<and> v \<in> set ws)"
proof -
  note sel = NewHashWorkerSelector_Inr [OF assms(2)]
  have idx: "unat (fnv32a (JobIDOf j)) mod length ws' < length ws'" using sel(2) by simp
  from nth_mem [OF this] show ?thesis using idx NewHashWorkerSelector_mset [OF assms(1)] assms(2) sel(1,2) by (auto simp: SelectWorker_def)
qed

theorem selector_agrees_witness:
  "NewHashWorkerSelector [''b'', ''a''] = Inr [''a'', ''b''] \<and> NewHashWorkerSelector [''a'', ''b''] = Inr [''a'', ''b'']"
proof -
  have "NewHashWorkerSelector [''b'', ''a''] = Inr [''a'', ''b'']" by code_simp
  with selector_agrees [of "[''b'', ''a'']" "[''a'', ''b'']"] show ?thesis by simp
qed

end
