(* ===== verification/Raft_Log_Properties.thy ===== *)
theory Raft_Log_Properties
  imports Raft_Snapshot Raft_Apply Storage_Memory
begin

text \<open>
  Properties of a single node and its log: the commit rule of a leader, the order in which committed entries are applied, and
  which storages a node can start from.
\<close>

section \<open>The commit rule\<close>

definition committable :: "'s raft_node \<Rightarrow> log_index \<Rightarrow> bool" where
  "committable n i \<longleftrightarrow> logTerm n i = node_term n \<and> membershipHasQuorum (node_membership n) (replicated_on n i)"

lemma set_commit_committable [simp]: "committable (set_commit k n) = committable n"
  by (simp add: committable_def fun_eq_iff logTerm_def replicated_on_def set_commit_def)

lemma node_commit_set_commit [simp]: "node_commit (set_commit k n) = k"
  by (simp add: set_commit_def)

lemma commit_step_committable: "commit_step i n = (if committable n i then set_commit i n else n)"
  by (simp add: commit_step_def committable_def)

lemma fold_commit_step:
  "node_commit (fold commit_step is n) = (if filter (committable n) is = [] then node_commit n else last (filter (committable n) is))"
proof (induction "is" arbitrary: n)
  case (Cons i js)
  show ?case
  proof (cases "committable n i")
    case True
    then have "commit_step i n = set_commit i n" by (simp add: commit_step_committable)
    with Cons.IH [of "set_commit i n"] True show ?thesis by simp
  next
    case False
    then have "commit_step i n = n" by (simp add: commit_step_committable)
    with Cons.IH [of n] False show ?thesis by simp
  qed
qed simp

text \<open>C16.  The commit rule: a leader moves its commit index to the highest index beyond it that holds an entry of its own term and is
  stored on a quorum of its membership, and leaves it where it is if there is none; no other node moves it.\<close>

theorem commit_rule:
  assumes "advanceCommitIndexLocked n = (advanced, n')"
  defines "can \<equiv> {i. node_role n = Leader \<and> node_commit n < i \<and> i \<le> LastIndex (n_log n) \<and> committable n i}"
  shows "node_commit n' = (if can = {} then node_commit n else Max can) \<and> (advanced \<longleftrightarrow> can \<noteq> {})"
proof (cases "node_role n = Leader")
  case False
  with assms show ?thesis by (simp add: advanceCommitIndexLocked_def)
next
  case True
  define xs where "xs = [node_commit n + 1 ..< LastIndex (n_log n) + 1]"
  define cs where "cs = filter (committable n) xs"
  have set: "set cs = can" by (auto simp: can_def True cs_def xs_def)
  have commit: "node_commit n' = (if cs = [] then node_commit n else last cs)"
    using assms(1) True fold_commit_step [of xs n] by (auto simp: advanceCommitIndexLocked_def Let_def cs_def xs_def)
  have adv: "advanced \<longleftrightarrow> node_commit n < node_commit n'" using assms(1) True by (auto simp: advanceCommitIndexLocked_def Let_def)
  show ?thesis
  proof (cases "cs = []")
    case True
    with set commit adv show ?thesis by auto
  next
    case False
    have "sorted xs" unfolding xs_def by (rule sorted_upt)
    then have "sorted cs" using sorted_filter [of id xs] by (simp add: cs_def)
    then have "\<forall>x\<in>set cs. x \<le> last cs" by (cases cs rule: rev_cases) (auto simp: sorted_append)
    then have "last cs = Max (set cs)" using False last_in_set [of cs] by (intro Max_eqI [symmetric]) auto
    moreover have "last cs \<in> can" using False set last_in_set by blast
    then have "can \<noteq> {}" "node_commit n < last cs" by (auto simp: can_def)
    ultimately show ?thesis using False commit adv unfolding set by simp
  qed
qed

definition voter :: "log_index \<Rightarrow> unit raft_node" where
  "voter match = \<lparr>n_id = ''a'',
     n_state = \<lparr>Persistent = zero_persistent_state\<lparr>CurrentTerm := 2, Membership := \<lparr>Current = \<lparr>Voters = [''a'', ''b'', ''c'']\<rparr>, Joint = None\<rparr>\<rparr>,
       Volatile = \<lparr>CommitIndex = 0, LastApplied = 0\<rparr>,
       LeaderProgress = \<lparr>NextIndex = fmempty, MatchIndex = fmupd ''b'' match fmempty\<rparr>,
       Election = \<lparr>VotesReceived = {}\<rparr>, Role = Leader, LeaderID = ''a''\<rparr>,
     n_log = \<lparr>log_entries = [\<lparr>Index = 1, Term = 1, Data = []\<rparr>, \<lparr>Index = 2, Term = 2, Data = []\<rparr>], lastIncludedIndex = 0, lastIncludedTerm = 0\<rparr>,
     n_transport = True, n_peerIDs = [''b'', ''c''], n_storage = (), n_snapshotRestore = False, n_electionElapsed = 0, n_electionTimeout = 10,
     n_storageWriteBlocked = False, n_heartbeatElapsed = 0, n_heartbeatTimeout = 1\<rparr>"

lemma voter_committable:
  "committable (voter m) i \<longleftrightarrow> i = 2 \<and> 2 \<le> m" if "0 < i" "i \<le> 2"
proof -
  from that consider "i = 1" | "i = 2" by linarith
  then show ?thesis
    by cases (auto simp: committable_def voter_def logTerm_def log_Get_def replicated_on_def map_index_def membershipHasQuorum_def
        configurationHasQuorum_def configurationMajority_def zero_persistent_state_def)
qed

theorem commit_rule_witness:
  "node_commit (snd (advanceCommitIndexLocked (voter 1))) = 0 \<and> node_commit (snd (advanceCommitIndexLocked (voter 2))) = 2"
proof -
  have can: "{i. node_role (voter m) = Leader \<and> node_commit (voter m) < i \<and> i \<le> LastIndex (n_log (voter m)) \<and> committable (voter m) i} =
      (if 2 \<le> m then {2} else {})" for m
  proof -
    have "node_role (voter m) = Leader" "node_commit (voter m) = 0" "LastIndex (n_log (voter m)) = 2" by (simp_all add: voter_def LastIndex_def)
    then show ?thesis using voter_committable [of _ m] by auto
  qed
  have "node_commit (voter m) = 0" for m by (simp add: voter_def)
  with commit_rule [OF prod.collapse [symmetric], of "voter 1", unfolded can] commit_rule [OF prod.collapse [symmetric], of "voter 2", unfolded can]
  show ?thesis by simp
qed

section \<open>Application\<close>

lemma applyCommitted_range:
  assumes "log_wf (n_log n)" "lastIncludedIndex (n_log n) \<le> node_applied n" "node_applied n \<le> node_commit n" "node_commit n \<le> LastIndex (n_log n)"
    and "\<And>i e. node_applied n < i \<Longrightarrow> i \<le> node_commit n \<Longrightarrow> log_at (n_log n) i = Some e \<Longrightarrow> \<not> IsConfigurationEntry (Data e)"
  shows "applyCommitted ops n =
    (map (\<lambda>i. the (log_at (n_log n) i)) [node_applied n + 1 ..< node_commit n + 1], set_applied (node_commit n) n)"
  using assms
proof (induction "node_commit n - node_applied n" arbitrary: n)
  case 0
  then have "node_applied n = node_commit n" by simp
  then have "applyNext ops n = (ApplyStop, n)" "set_applied (node_commit n) n = n" by (simp_all add: applyNext_def set_applied_def)
  with 0 show ?case by (simp add: applyCommitted.simps [of ops n])
next
  case (Suc k)
  let ?i = "node_applied n + 1" and ?n = "set_applied (node_applied n + 1) n"
  from Suc.hyps(2) have less: "node_applied n < node_commit n" by simp
  from log_at_dom [OF Suc.prems(1), of ?i] Suc.prems(2,4) less obtain e where e: "log_at (n_log n) ?i = Some e" by auto
  have "log_Get (n_log n) ?i = Some e" using log_Get_at [OF Suc.prems(1), of ?i] e Suc.prems(2) by simp
  with Suc.prems(5) [OF _ _ e] less have next1: "applyNext ops n = (ApplySend e, n)" by (simp add: applyNext_def Let_def)
  have mark: "markApplied ?i n = ?n" by (simp add: markApplied_def)
  have cfg: "\<not> IsConfigurationEntry (Data e')" if "Suc (node_applied n) < i" "i \<le> node_commit n" "log_at (n_log n) i = Some e'" for i e'
    using Suc.prems(5) [of i e'] that by simp
  have "applyCommitted ops ?n = (map (\<lambda>i. the (log_at (n_log ?n) i)) [node_applied ?n + 1 ..< node_commit ?n + 1], set_applied (node_commit ?n) ?n)"
    by (rule Suc.hyps(1)) (use Suc.hyps(2) Suc.prems(1-4) cfg less in auto)
  moreover have "set_applied (node_commit n) ?n = set_applied (node_commit n) n" by (simp add: set_applied_def)
  ultimately show ?case
    using next1 mark e less by (simp add: applyCommitted.simps [of ops n] upt_conv_Cons del: upt_Suc)
qed



section \<open>Restart\<close>

text \<open>C14.  Restart: a node whose storage holds a snapshot and the log after it starts if and only if there is no snapshot or no entry after
  it.  When it starts, it has the stored term, vote, membership and log, and the snapshot's index as its commit and last
  applied index.  With a snapshot and later entries, which is what a compaction leaves, it does not start.\<close>

theorem restart_iff:
  assumes "op_LoadState ops s = Inr p" "op_LoadEntries ops s = Inr es" "op_LoadSnapshot ops s = Inr snap"
    and "contiguous (LastIncludedIndex snap) es" "LastIncludedIndex snap + length es < 2 ^ 64"
  shows "case NewRaftNodeWithStorage ops nid s of
      Inl err \<Rightarrow> 0 < LastIncludedIndex snap \<and> es \<noteq> []
    | Inr n \<Rightarrow> (LastIncludedIndex snap = 0 \<or> es = []) \<and> node_persistent n = p \<and> log_entries (n_log n) = es \<and>
        lastIncludedIndex (n_log n) = LastIncludedIndex snap \<and> node_commit n = LastIncludedIndex snap \<and> node_applied n = LastIncludedIndex snap"
proof (cases "0 < LastIncludedIndex snap \<and> es \<noteq> []")
  case True
  then obtain e es' where "es = e # es'" by (cases es) auto
  with True assms(4) have "\<exists>err l. log_append_all NewLog es = (Some err, l)"
    by (simp add: log_Append_def NewLog_def LastIndex_def inc64_def)
  with True assms(1-3) show ?thesis by (auto simp: NewRaftNodeWithStorage_def)
next
  case False
  have zero: "LastIndex NewLog = 0" by (simp add: NewLog_def LastIndex_def)
  have all: "log_append_all NewLog es = (None, NewLog\<lparr>log_entries := es\<rparr>)"
    using log_append_all_contiguous [of NewLog es] False assms(4,5) zero by (cases "es = []") (auto simp: NewLog_def)
  show ?thesis
  proof (cases "LastIncludedIndex snap = 0")
    case True
    with all assms(1-3) show ?thesis by (simp add: NewRaftNodeWithStorage_def Let_def NewLog_def)
  next
    case snap: False
    with False have "es = []" by simp
    with snap all assms(1-3) show ?thesis by (simp add: NewRaftNodeWithStorage_def Let_def NewLog_def log_RestoreSnapshot_def log_Get_def)
  qed
qed

definition two_entries :: memory_storage where
  "two_entries = NewMemoryStorage\<lparr>ms_entries := [\<lparr>Index = 1, Term = 1, Data = []\<rparr>, \<lparr>Index = 2, Term = 1, Data = []\<rparr>]\<rparr>"

definition first_snapshot :: snapshot where "first_snapshot = \<lparr>LastIncludedIndex = 1, LastIncludedTerm = 1, SnapData = []\<rparr>"

theorem restart_iff_witness:
  "(\<exists>n. NewRaftNodeWithStorage memory_ops ''a'' two_entries = Inr n \<and> length (log_entries (n_log n)) = 2) \<and>
   (\<exists>s err. op_Compact memory_ops first_snapshot (snd (op_SaveSnapshot memory_ops first_snapshot two_entries)) = (None, s) \<and>
      NewRaftNodeWithStorage memory_ops ''a'' s = Inl err)"
proof
  show "\<exists>n. NewRaftNodeWithStorage memory_ops ''a'' two_entries = Inr n \<and> length (log_entries (n_log n)) = 2"
  proof -
    have "op_LoadState memory_ops two_entries = Inr zero_persistent_state" "op_LoadEntries memory_ops two_entries = Inr (ms_entries two_entries)"
      "op_LoadSnapshot memory_ops two_entries = Inr zero_snapshot" "contiguous (LastIncludedIndex zero_snapshot) (ms_entries two_entries)"
      "LastIncludedIndex zero_snapshot + length (ms_entries two_entries) < 2 ^ 64" "length (ms_entries two_entries) = 2"
      by (simp_all add: memory_defs two_entries_def NewMemoryStorage_def zero_snapshot_def)
    with restart_iff [OF this(1-5), of "''a''"] show ?thesis by (auto simp: zero_snapshot_def split: sum.splits)
  qed
  define s where "s = two_entries\<lparr>ms_snapshot := Some first_snapshot, ms_entries := [\<lparr>Index = 2, Term = 1, Data = []\<rparr>]\<rparr>"
  have "op_Compact memory_ops first_snapshot (snd (op_SaveSnapshot memory_ops first_snapshot two_entries)) = (None, s)"
    by (simp add: memory_defs first_snapshot_def two_entries_def s_def)
  moreover have "\<exists>err. NewRaftNodeWithStorage memory_ops ''a'' s = Inl err"
  proof -
    have "op_LoadState memory_ops s = Inr (ms_state s)" "op_LoadEntries memory_ops s = Inr (ms_entries s)"
      "op_LoadSnapshot memory_ops s = Inr first_snapshot" "contiguous (LastIncludedIndex first_snapshot) (ms_entries s)"
      "LastIncludedIndex first_snapshot + length (ms_entries s) < 2 ^ 64" "ms_entries s \<noteq> []" "0 < LastIncludedIndex first_snapshot"
      by (simp_all add: memory_defs s_def first_snapshot_def)
    with restart_iff [OF this(1-5), of "''a''"] show ?thesis by (auto split: sum.splits)
  qed
  ultimately show "\<exists>s err. op_Compact memory_ops first_snapshot (snd (op_SaveSnapshot memory_ops first_snapshot two_entries)) = (None, s) \<and>
      NewRaftNodeWithStorage memory_ops ''a'' s = Inl err" by blast
qed

end
