(* ===== verification/Raft_Schedule.thy ===== *)
theory Raft_Schedule
  imports Service_Properties Raft_Log_Properties
begin

text \<open>
  Runs of three nodes in memory, written as schedules: an event is a step of an election, a proposal, a round of replication to one
  peer, or the sending or the delivery of a heartbeat of \<^verbatim>\<open>ReadIndex\<close>, each made of the sections of the node in the order in
  which the goroutines of the source run them.  The heartbeats of \<^verbatim>\<open>ReadIndex\<close> break two guarantees that the rest of the protocol
  keeps.
\<close>

section \<open>Schedules\<close>

text \<open>A member is its node and the entries it has sent to its state machine.\<close>

type_synonym 's member = "'s raft_node \<times> log_entry list"
type_synonym 's members = "node_id \<Rightarrow> 's member"

text \<open>A read in flight: the reader, the peer, the operation and the request.\<close>

type_synonym flight = "node_id \<times> node_id \<times> read_index_op \<times> append_entries_args"

datatype event =
    Stand node_id
  | Canvass node_id "node_id list"
  | Command node_id bytes
  | Replicate node_id node_id
  | ReadSend node_id node_id
  | ReadDeliver

definition settle :: "'s storage_ops \<Rightarrow> bool \<Rightarrow> 's raft_node \<Rightarrow> log_entry list \<Rightarrow> 's member" where
  "settle ops advanced n sent =
     (if advanced then (case applyCommitted ops n of (es, n') \<Rightarrow> (n', sent @ es)) else (n, sent))"

fun collect_votes :: "'s storage_ops \<Rightarrow> node_id \<Rightarrow> raft_term \<Rightarrow> request_vote_args \<Rightarrow> node_id list \<Rightarrow> 's members \<Rightarrow> 's members" where
  "collect_votes ops i t args [] c = c"
| "collect_votes ops i t args (v # vs) c =
     (case RequestVote ops args (fst (c v)) of
        (reply, nv) \<Rightarrow> collect_votes ops i t args vs
          (c(v := (nv, snd (c v)), i := (handleVoteReply ops t reply (fst (c i)), snd (c i)))))"

fun run_event :: "'s storage_ops \<Rightarrow> event \<Rightarrow> 's members \<times> flight list \<Rightarrow> 's members \<times> flight list" where
  "run_event ops (Stand i) (c, fs) = (c(i := (snd (startElection ops (fst (c i))), snd (c i))), fs)"
| "run_event ops (Canvass i vs) (c, fs) =
     (case requestVotes (fst (c i)) of
        None \<Rightarrow> (c, fs)
      | Some (_, args) \<Rightarrow>
          (let c' = collect_votes ops i (rv_Term args) args vs c
           in (c'(i := (snd (tryBecomeLeader (fst (c' i))), snd (c' i))), fs)))"
| "run_event ops (Command i data) (c, fs) =
     (case Propose ops data (fst (c i)) of
        (_, advanced, n) \<Rightarrow> (c(i := settle ops advanced n (snd (c i))), fs))"
| "run_event ops (Replicate i j) (c, fs) =
     (case buildAppendEntries j (fst (c i)) of
        None \<Rightarrow> (c, fs)
      | Some args \<Rightarrow>
          (case AppendEntries ops args (fst (c j)) of
             ((reply, advanced), nj) \<Rightarrow>
               (case handleAppendEntriesReply ops j args reply (fst (c i)) of
                  (committed, ni) \<Rightarrow> (c(j := settle ops advanced nj (snd (c j)), i := settle ops committed ni (snd (c i))), fs))))"
| "run_event ops (ReadSend i j) (c, fs) =
     (case ReadIndex_begin (fst (c i)) of
        Inl _ \<Rightarrow> (c, fs)
      | Inr (op, _) \<Rightarrow>
          (case ReadIndex_request op j (fst (c i)) of
             None \<Rightarrow> (c, fs)
           | Some args \<Rightarrow> (c, fs @ [(i, j, op, args)])))"
| "run_event ops ReadDeliver (c, []) = (c, [])"
| "run_event ops ReadDeliver (c, (i, j, op, args) # fs) =
     (case AppendEntries ops args (fst (c j)) of
        ((reply, advanced), nj) \<Rightarrow>
          (c(j := settle ops advanced nj (snd (c j)),
             i := (snd (ReadIndex_reply ops op {i} j reply (fst (c i))), snd (c i))), fs))"

definition started :: "node_id \<Rightarrow> node_id list \<Rightarrow> memory_storage raft_node" where
  "started i peers = (case NewRaftNodeWithStorage memory_ops i NewMemoryStorage of
     Inr n \<Rightarrow> snd (BootstrapMembership memory_ops (SetTransport n peers)))"

definition trio :: "memory_storage members" where
  "trio i = (started i (removeAll i [''a'', ''b'', ''c'']), [])"

section \<open>Nodes of a schedule\<close>

definition peer ::
  "node_id \<Rightarrow> role \<Rightarrow> node_id \<Rightarrow> raft_term \<Rightarrow> node_id \<Rightarrow> log_entry list \<Rightarrow> volatile_state \<Rightarrow> leader_state \<Rightarrow> node_id set \<Rightarrow>
   memory_storage raft_node" where
  "peer i r l t v es vol prog votes =
     (let p = \<lparr>CurrentTerm = t, VotedFor = v, Membership = \<lparr>Current = \<lparr>Voters = i # removeAll i [''a'', ''b'', ''c'']\<rparr>, Joint = None\<rparr>\<rparr>
      in \<lparr>n_id = i,
          n_state = \<lparr>Persistent = p, Volatile = vol, LeaderProgress = prog, Election = \<lparr>VotesReceived = votes\<rparr>, Role = r, LeaderID = l\<rparr>,
          n_log = \<lparr>log_entries = es, lastIncludedIndex = 0, lastIncludedTerm = 0\<rparr>, n_transport = True,
          n_peerIDs = removeAll i [''a'', ''b'', ''c''], n_storage = \<lparr>ms_state = p, ms_entries = es, ms_snapshot = None\<rparr>,
          n_snapshotRestore = False, n_electionElapsed = 0, n_electionTimeout = 10, n_storageWriteBlocked = False,
          n_heartbeatElapsed = 0, n_heartbeatTimeout = 1\<rparr>)"

lemma trio_started:
  "trio ''a'' = (peer ''a'' Follower [] 0 [] [] \<lparr>CommitIndex = 0, LastApplied = 0\<rparr> \<lparr>NextIndex = fmempty, MatchIndex = fmempty\<rparr> {}, [])"
  "trio ''b'' = (peer ''b'' Follower [] 0 [] [] \<lparr>CommitIndex = 0, LastApplied = 0\<rparr> \<lparr>NextIndex = fmempty, MatchIndex = fmempty\<rparr> {}, [])"
  "trio ''c'' = (peer ''c'' Follower [] 0 [] [] \<lparr>CommitIndex = 0, LastApplied = 0\<rparr> \<lparr>NextIndex = fmempty, MatchIndex = fmempty\<rparr> {}, [])"
  by (simp_all add: trio_def started_def peer_def solo_defs NewLog_def SetTransport_def)

lemmas peer_defs = peer_def memory_defs persist_def membershipIsVoter_def configurationContainsVoter_def membershipHasQuorum_def
  configurationHasQuorum_def configurationMajority_def LastIndex_def LastTerm_def log_Get_def log_Append_def inc64_def map_index_def
  set_progress_def Let_def numeral_2_eq_2 [symmetric] upt_conv_Cons

lemmas election_defs = startElection_def requestVotes_def RequestVote_def adopt_term_def grant_vote_def handleVoteReply_def
  isCandidateLogUpToDate_def tryBecomeLeader_def becomeLeaderLocked_def initializeReplicationStateLocked_def

lemmas replication_defs = Propose_def advanceCommitIndexLocked_def commit_step_def logTerm_def replicated_on_def set_commit_def
  buildAppendEntries_def AppendEntries_def append_in_term_def adopt_term_def reconcileReplicatedEntriesLocked_def
  advance_follower_commit_def handleAppendEntriesReply_def validateEntries_def validateAppend_def

abbreviation vol :: "nat \<Rightarrow> nat \<Rightarrow> volatile_state" where
  "vol commit applied \<equiv> \<lparr>CommitIndex = commit, LastApplied = applied\<rparr>"

abbreviation progress :: "node_id \<Rightarrow> nat \<Rightarrow> nat \<Rightarrow> node_id \<Rightarrow> nat \<Rightarrow> nat \<Rightarrow> leader_state" where
  "progress i ni mi j nj mj \<equiv> \<lparr>NextIndex = fmupd j nj (fmupd i ni fmempty), MatchIndex = fmupd j mj (fmupd i mi fmempty)\<rparr>"

abbreviation no_progress :: leader_state where
  "no_progress \<equiv> \<lparr>NextIndex = fmempty, MatchIndex = fmempty\<rparr>"

lemma peer_log [simp]:
  "n_log (peer i r l t v es x prog vs) = \<lparr>log_entries = es, lastIncludedIndex = 0, lastIncludedTerm = 0\<rparr>"
  "node_commit (peer i r l t v es x prog vs) = CommitIndex x" "node_applied (peer i r l t v es x prog vs) = LastApplied x"
  by (simp_all add: peer_def Let_def)

lemma peer_set_applied [simp]: "set_applied k (peer i r l t v es (vol c a) prog vs) = peer i r l t v es (vol c k) prog vs"
  by (simp add: peer_def set_applied_def Let_def)

lemma peer_applies:
  assumes "contiguous 0 es" "list_all (\<lambda>e. \<not> IsConfigurationEntry (Data e)) es" "a \<le> c" "c \<le> length es" "length es < 2 ^ 64"
  shows "applyCommitted ops (peer i r l t v es (vol c a) prog vs) = (drop a (take c es), peer i r l t v es (vol c c) prog vs)"
proof -
  let ?n = "peer i r l t v es (vol c a) prog vs"
  have wf: "log_wf (n_log ?n)" using assms(1,5) by (simp add: log_wf_def LastIndex_length)
  have at: "log_at (n_log ?n) (Suc k) = Some (es ! k)" if "k < length es" for k
    using that by (simp add: log_at_def)
  have cfg: "\<not> IsConfigurationEntry (Data e)" if "log_at (n_log ?n) k = Some e" for k e
    using that assms(2) by (auto simp: log_at_def list_all_length split: if_splits)
  have "applyCommitted ops ?n = (map (\<lambda>i. the (log_at (n_log ?n) i)) [a + 1 ..< c + 1], set_applied c ?n)"
    using applyCommitted_range [OF wf _ _ _ cfg, where ops = ops] log_wf_LastIndex [OF wf] assms(3,4) by (simp del: upt_Suc)
  moreover have "map (\<lambda>i. the (log_at (n_log ?n) i)) [a + 1 ..< c + 1] = drop a (take c es)"
    using at assms(3,4) by (intro nth_equalityI) (simp_all del: upt_Suc)
  ultimately show ?thesis by simp
qed

abbreviation cmd :: "nat \<Rightarrow> nat \<Rightarrow> command \<Rightarrow> log_entry" where
  "cmd i t x \<equiv> \<lparr>Index = i, Term = t, Data = EncodeCommand x\<rparr>"

lemma peer_settles [simp]:
  assumes "contiguous 0 es" "list_all (\<lambda>e. \<not> IsConfigurationEntry (Data e)) es" "a \<le> c" "c \<le> length es" "length es < 2 ^ 64"
  shows "settle ops True (peer i r l t v es (vol c a) prog vs) sent = (peer i r l t v es (vol c c) prog vs, sent @ drop a (take c es))"
  by (simp add: settle_def peer_applies [OF assms])

lemma settle_False [simp]: "settle ops False n sent = (n, sent)"
  by (simp add: settle_def)

section \<open>A stale entry is committed\<close>

abbreviation fresh :: "node_id \<Rightarrow> memory_storage member" where
  "fresh i \<equiv> (peer i Follower [] 0 [] [] (vol 0 0) no_progress {}, [])"

lemma elect_first:
  assumes "c ''a'' = fresh ''a''" "c ''b'' = fresh ''b''"
  shows "run_event memory_ops (Canvass ''a'' [''b'']) (run_event memory_ops (Stand ''a'') (c, fs)) = (c
     (''a'' := (peer ''a'' Leader ''a'' 1 ''a'' [] (vol 0 0) (progress ''b'' 1 0 ''c'' 1 0) {''a'', ''b''}, []),
      ''b'' := (peer ''b'' Follower [] 1 ''a'' [] (vol 0 0) no_progress {}, [])), fs)"
  using assms by (simp add: peer_defs election_defs fun_upd_twist insert_commute)

lemma propose_first:
  assumes "c ''a'' = (peer ''a'' Leader ''a'' 1 ''a'' [] (vol 0 0) (progress ''b'' 1 0 ''c'' 1 0) vs, [])"
  shows "run_event memory_ops (Command ''a'' (EncodeCommand x)) (c, fs) = (c
    (''a'' := (peer ''a'' Leader ''a'' 1 ''a'' [cmd 1 1 x] (vol 0 0) (progress ''b'' 1 0 ''c'' 1 0) vs, [])), fs)"
  using assms by (simp add: peer_defs replication_defs settle_def)

lemma replicate_first:
  assumes "c ''a'' = (peer ''a'' Leader ''a'' 1 ''a'' [cmd 1 1 x] (vol 0 0) (progress ''b'' 1 0 ''c'' 1 0) vs, [])"
    and "c ''c'' = fresh ''c''"
  shows "run_event memory_ops (Replicate ''a'' ''c'') (c, fs) = (c
     (''a'' := (peer ''a'' Leader ''a'' 1 ''a'' [cmd 1 1 x] (vol 1 1) (progress ''b'' 1 0 ''c'' 2 1) vs, [cmd 1 1 x]),
      ''c'' := (peer ''c'' Follower ''a'' 1 [] [cmd 1 1 x] (vol 0 0) no_progress {}, [])), fs)"
proof -
  let ?a = "fst (c ''a'')" and ?c = "fst (c ''c'')"
  let ?args = "\<lparr>ae_Term = 1, ae_LeaderID = ''a'', ae_PrevLogIndex = 0, ae_PrevLogTerm = 0, ae_Entries = [cmd 1 1 x], ae_LeaderCommit = 0\<rparr>"
  let ?reply = "\<lparr>aer_Term = 1, aer_FollowerID = ''c'', aer_Success = True\<rparr>"
  have "buildAppendEntries ''c'' ?a = Some ?args" by (simp add: assms peer_defs replication_defs)
  moreover have "AppendEntries memory_ops ?args ?c = ((?reply, False), peer ''c'' Follower ''a'' 1 [] [cmd 1 1 x] (vol 0 0) no_progress {})"
    by (simp add: assms peer_defs replication_defs)
  moreover have "handleAppendEntriesReply memory_ops ''c'' ?args ?reply ?a =
      (True, peer ''a'' Leader ''a'' 1 ''a'' [cmd 1 1 x] (vol 1 0) (progress ''b'' 1 0 ''c'' 2 1) vs)"
    by (simp add: assms peer_defs replication_defs)
  ultimately show ?thesis by (simp add: assms fun_upd_twist commands_are_data)
qed

lemma propose_unreplicated:
  assumes "c ''a'' = (peer ''a'' Leader ''a'' 1 ''a'' [cmd 1 1 x] (vol 1 1) (progress ''b'' 1 0 ''c'' 2 1) vs, sent)"
  shows "run_event memory_ops (Command ''a'' (EncodeCommand y)) (c, fs) = (c
    (''a'' := (peer ''a'' Leader ''a'' 1 ''a'' [cmd 1 1 x, cmd 2 1 y] (vol 1 1) (progress ''b'' 1 0 ''c'' 2 1) vs, sent)), fs)"
  using assms by (simp add: peer_defs replication_defs settle_def)

lemma elect_second:
  assumes "c ''c'' = (peer ''c'' Follower ''a'' 1 [] [cmd 1 1 x] (vol 0 0) no_progress {}, [])"
    and "c ''b'' = (peer ''b'' Follower [] 1 ''a'' [] (vol 0 0) no_progress {}, [])"
  shows "run_event memory_ops (Canvass ''c'' [''b'']) (run_event memory_ops (Stand ''c'') (c, fs)) = (c
     (''c'' := (peer ''c'' Leader ''c'' 2 ''c'' [cmd 1 1 x] (vol 0 0) (progress ''a'' 2 0 ''b'' 2 0) {''b'', ''c''}, []),
      ''b'' := (peer ''b'' Follower [] 2 ''c'' [] (vol 0 0) no_progress {}, [])), fs)"
  using assms by (simp add: peer_defs election_defs fun_upd_twist insert_commute)

lemma propose_second:
  assumes "c ''c'' = (peer ''c'' Leader ''c'' 2 ''c'' [cmd 1 1 x] (vol 0 0) (progress ''a'' 2 0 ''b'' 2 0) vs, [])"
  shows "run_event memory_ops (Command ''c'' (EncodeCommand z)) (c, fs) = (c
    (''c'' := (peer ''c'' Leader ''c'' 2 ''c'' [cmd 1 1 x, cmd 2 2 z] (vol 0 0) (progress ''a'' 2 0 ''b'' 2 0) vs, [])), fs)"
  using assms by (simp add: peer_defs replication_defs settle_def)

lemma replicate_refused:
  assumes "c ''c'' = (peer ''c'' Leader ''c'' 2 ''c'' [cmd 1 1 x, cmd 2 2 z] (vol 0 0) (progress ''a'' 2 0 ''b'' 2 0) vs, [])"
    and "c ''b'' = (peer ''b'' Follower [] 2 ''c'' [] (vol 0 0) no_progress {}, [])"
  shows "run_event memory_ops (Replicate ''c'' ''b'') (c, fs) = (c
     (''c'' := (peer ''c'' Leader ''c'' 2 ''c'' [cmd 1 1 x, cmd 2 2 z] (vol 0 0) (progress ''a'' 2 0 ''b'' 1 0) vs, []),
      ''b'' := (peer ''b'' Follower [] 2 ''c'' [] (vol 0 0) no_progress {}, [])), fs)"
  using assms by (simp add: peer_defs replication_defs settle_def fun_upd_twist)

lemma replicate_second:
  assumes "c ''c'' = (peer ''c'' Leader ''c'' 2 ''c'' [cmd 1 1 x, cmd 2 2 z] (vol 0 0) (progress ''a'' 2 0 ''b'' 1 0) vs, [])"
    and "c ''b'' = (peer ''b'' Follower [] 2 ''c'' [] (vol 0 0) no_progress {}, [])"
  shows "run_event memory_ops (Replicate ''c'' ''b'') (c, fs) = (c
     (''c'' := (peer ''c'' Leader ''c'' 2 ''c'' [cmd 1 1 x, cmd 2 2 z] (vol 2 2) (progress ''a'' 2 0 ''b'' 3 2) vs, [cmd 1 1 x, cmd 2 2 z]),
      ''b'' := (peer ''b'' Follower ''c'' 2 ''c'' [cmd 1 1 x, cmd 2 2 z] (vol 0 0) no_progress {}, [])), fs)"
proof -
  let ?c = "fst (c ''c'')" and ?b = "fst (c ''b'')"
  let ?args = "\<lparr>ae_Term = 2, ae_LeaderID = ''c'', ae_PrevLogIndex = 0, ae_PrevLogTerm = 0, ae_Entries = [cmd 1 1 x, cmd 2 2 z], ae_LeaderCommit = 0\<rparr>"
  let ?reply = "\<lparr>aer_Term = 2, aer_FollowerID = ''b'', aer_Success = True\<rparr>"
  have "buildAppendEntries ''b'' ?c = Some ?args" by (simp add: assms peer_defs replication_defs)
  moreover have "AppendEntries memory_ops ?args ?b = ((?reply, False), peer ''b'' Follower ''c'' 2 ''c'' [cmd 1 1 x, cmd 2 2 z] (vol 0 0) no_progress {})"
    by (simp add: assms peer_defs replication_defs)
  moreover have "handleAppendEntriesReply memory_ops ''b'' ?args ?reply ?c =
      (True, peer ''c'' Leader ''c'' 2 ''c'' [cmd 1 1 x, cmd 2 2 z] (vol 2 0) (progress ''a'' 2 0 ''b'' 3 2) vs)"
    by (simp add: assms peer_defs replication_defs)
  ultimately show ?thesis by (simp add: assms fun_upd_twist commands_are_data)
qed

lemma read_stale:
  assumes "c ''c'' = (peer ''c'' Leader ''c'' 2 ''c'' [cmd 1 1 x, cmd 2 2 z] (vol 2 2) (progress ''a'' 2 0 ''b'' 3 2) vs, sc)"
    and "c ''a'' = (peer ''a'' Leader ''a'' 1 ''a'' [cmd 1 1 x, cmd 2 1 y] (vol 1 1) prog vs', sa)"
  shows "run_event memory_ops ReadDeliver (run_event memory_ops (ReadSend ''c'' ''a'') (c, [])) = (c
     (''a'' := (peer ''a'' Follower ''c'' 2 [] [cmd 1 1 x, cmd 2 1 y] (vol 2 2) prog vs', sa @ [cmd 2 1 y]), ''c'' := c ''c''), [])"
proof -
  let ?c = "fst (c ''c'')" and ?a = "fst (c ''a'')"
  let ?args = "\<lparr>ae_Term = 2, ae_LeaderID = ''c'', ae_PrevLogIndex = 1, ae_PrevLogTerm = 1, ae_Entries = [], ae_LeaderCommit = 2\<rparr>"
  let ?op = "\<lparr>ri_term = 2, ri_commit = 2, ri_membership = node_membership ?c\<rparr>"
  let ?reply = "\<lparr>aer_Term = 2, aer_FollowerID = ''a'', aer_Success = True\<rparr>"
  have "ReadIndex_begin ?c = Inr (?op, None)" by (simp add: assms peer_defs ReadIndex_begin_def)
  moreover have "ReadIndex_request ?op ''a'' ?c = Some ?args" by (simp add: assms peer_defs ReadIndex_request_def)
  moreover have "AppendEntries memory_ops ?args ?a = ((?reply, True), peer ''a'' Follower ''c'' 2 [] [cmd 1 1 x, cmd 2 1 y] (vol 2 1) prog vs')"
    by (simp add: assms peer_defs replication_defs)
  moreover have "snd (ReadIndex_reply memory_ops ?op {''c''} ''a'' ?reply ?c) = ?c"
    by (simp add: ReadIndex_reply_def Let_def)
  ultimately show ?thesis by (simp add: assms fun_upd_twist commands_are_data)
qed

text \<open>C6.  Heartbeats of \<^verbatim>\<open>ReadIndex\<close> break state machine safety: in this run of three nodes a leader of term 1 commits its first
  command and appends a second one that reaches nobody; the leader of term 2 commits another command at the same index and then
  serves a read.  Its heartbeat carries its commit index but no entries, so the old leader, whose log agrees up to the first command,
  commits and applies its own stale second command.  The two state machines have then applied different commands at index 2.\<close>

theorem heartbeat_commits_stale_entry:
  "let (c, fs) = fold (run_event memory_ops)
        [Stand ''a'', Canvass ''a'' [''b''], Command ''a'' (EncodeCommand x), Replicate ''a'' ''c'', Command ''a'' (EncodeCommand y),
         Stand ''c'', Canvass ''c'' [''b''], Command ''c'' (EncodeCommand z), Replicate ''c'' ''b'', Replicate ''c'' ''b'',
         ReadSend ''c'' ''a'', ReadDeliver] (trio, [])
   in snd (c ''a'') = [cmd 1 1 x, cmd 2 1 y] \<and> snd (c ''c'') = [cmd 1 1 x, cmd 2 2 z]"
  by (simp add: Let_def elect_first propose_first replicate_first propose_unreplicated elect_second propose_second replicate_refused
      replicate_second read_stale trio_started del: run_event.simps)

section \<open>Two leaders in one term\<close>

abbreviation caught_up :: leader_state where
  "caught_up \<equiv> \<lparr>NextIndex = fmupd ''b'' 2 (fmupd ''c'' 2 (fmupd ''b'' 1 fmempty)),
    MatchIndex = fmupd ''b'' 1 (fmupd ''c'' 1 (fmupd ''b'' 0 fmempty))\<rparr>"

lemma replicate_again:
  assumes "c ''a'' = (peer ''a'' Leader ''a'' 1 ''a'' [cmd 1 1 x] (vol 1 1) (progress ''b'' 1 0 ''c'' 2 1) vs, sent)"
    and "c ''b'' = (peer ''b'' Follower [] 1 ''a'' [] (vol 0 0) no_progress {}, [])"
  shows "run_event memory_ops (Replicate ''a'' ''b'') (c, fs) = (c
     (''a'' := (peer ''a'' Leader ''a'' 1 ''a'' [cmd 1 1 x] (vol 1 1) caught_up vs, sent),
      ''b'' := (peer ''b'' Follower ''a'' 1 ''a'' [cmd 1 1 x] (vol 1 1) no_progress {}, [cmd 1 1 x])), fs)"
proof -
  let ?a = "fst (c ''a'')" and ?b = "fst (c ''b'')"
  let ?args = "\<lparr>ae_Term = 1, ae_LeaderID = ''a'', ae_PrevLogIndex = 0, ae_PrevLogTerm = 0, ae_Entries = [cmd 1 1 x], ae_LeaderCommit = 1\<rparr>"
  let ?reply = "\<lparr>aer_Term = 1, aer_FollowerID = ''b'', aer_Success = True\<rparr>"
  have "buildAppendEntries ''b'' ?a = Some ?args" by (simp add: assms peer_defs replication_defs)
  moreover have "AppendEntries memory_ops ?args ?b = ((?reply, True), peer ''b'' Follower ''a'' 1 ''a'' [cmd 1 1 x] (vol 1 0) no_progress {})"
    by (simp add: assms peer_defs replication_defs)
  moreover have "handleAppendEntriesReply memory_ops ''b'' ?args ?reply ?a =
      (False, peer ''a'' Leader ''a'' 1 ''a'' [cmd 1 1 x] (vol 1 1) caught_up vs)"
    by (simp add: assms peer_defs replication_defs)
  ultimately show ?thesis by (simp add: assms fun_upd_twist commands_are_data)
qed

definition read_op :: read_index_op where
  "read_op = \<lparr>ri_term = 1, ri_commit = 1, ri_membership = \<lparr>Current = \<lparr>Voters = [''a'', ''b'', ''c'']\<rparr>, Joint = None\<rparr>\<rparr>"

definition read_args :: append_entries_args where
  "read_args = \<lparr>ae_Term = 1, ae_LeaderID = ''a'', ae_PrevLogIndex = 1, ae_PrevLogTerm = 1, ae_Entries = [], ae_LeaderCommit = 1\<rparr>"

lemma read_sent:
  assumes "c ''a'' = (peer ''a'' Leader ''a'' 1 ''a'' [cmd 1 1 x] (vol 1 1) caught_up vs, sent)"
  shows "run_event memory_ops (ReadSend ''a'' ''c'') (c, []) = (c, [(''a'', ''c'', read_op, read_args)])"
  using assms by (simp add: peer_defs ReadIndex_begin_def ReadIndex_request_def read_op_def read_args_def)

lemma stand_second:
  assumes "c i = (peer i Follower l 1 v [cmd 1 1 x] w no_progress {}, sent)" "i \<in> {''b'', ''c''}"
  shows "run_event memory_ops (Stand i) (c, fs) = (c(i := (peer i Candidate [] 2 i [cmd 1 1 x] w no_progress {i}, sent)), fs)"
  using assms by (auto simp: peer_defs election_defs)

lemma first_vote:
  assumes "c ''a'' = (peer ''a'' Leader ''a'' 1 ''a'' [cmd 1 1 x] (vol 1 1) prog vs, sent)"
    and "c ''b'' = (peer ''b'' Candidate [] 2 ''b'' [cmd 1 1 x] w no_progress {''b''}, sent')"
  shows "run_event memory_ops (Canvass ''b'' [''a'']) (c, fs) = (c
     (''a'' := (peer ''a'' Follower [] 2 ''b'' [cmd 1 1 x] (vol 1 1) prog vs, sent),
      ''b'' := (peer ''b'' Leader ''b'' 2 ''b'' [cmd 1 1 x] w (progress ''a'' 2 0 ''c'' 2 0) {''a'', ''b''}, sent')), fs)"
  using assms by (simp add: peer_defs election_defs fun_upd_twist insert_commute)

lemma vote_forgotten:
  assumes "c ''a'' = (peer ''a'' Follower [] 2 ''b'' [cmd 1 1 x] (vol 1 1) prog vs, sent)"
    and "c ''c'' = (peer ''c'' Candidate [] 2 ''c'' [cmd 1 1 x] w no_progress {''c''}, sent')"
  shows "run_event memory_ops ReadDeliver (c, (''a'', ''c'', read_op, read_args) # fs) = (c
     (''a'' := (peer ''a'' Follower [] 2 [] [cmd 1 1 x] (vol 1 1) prog vs, sent), ''c'' := c ''c''), fs)"
  using assms by (simp add: peer_defs AppendEntries_def ReadIndex_reply_def becomeFollowerLocked_def read_op_def read_args_def fun_upd_twist)

lemma second_vote:
  assumes "c ''a'' = (peer ''a'' Follower [] 2 [] [cmd 1 1 x] (vol 1 1) prog vs, sent)"
    and "c ''c'' = (peer ''c'' Candidate [] 2 ''c'' [cmd 1 1 x] w no_progress {''c''}, sent')"
  shows "run_event memory_ops (Canvass ''c'' [''a'']) (c, fs) = (c
     (''a'' := (peer ''a'' Follower [] 2 ''c'' [cmd 1 1 x] (vol 1 1) prog vs, sent),
      ''c'' := (peer ''c'' Leader ''c'' 2 ''c'' [cmd 1 1 x] w (progress ''a'' 2 0 ''b'' 2 0) {''a'', ''c''}, sent')), fs)"
  using assms by (simp add: peer_defs election_defs fun_upd_twist insert_commute)

text \<open>C7.  Late replies to \<^verbatim>\<open>ReadIndex\<close> break election safety: in this run the leader of term 1 starts a read, the other two nodes stand for
  term 2 and the old leader votes for one of them.  The answer to the read, which carries term 2, then makes it clear its
  vote of that term, and it votes for the other candidate too: term 2 has two leaders.\<close>

theorem late_read_elects_two_leaders:
  "let (c, fs) = fold (run_event memory_ops)
        [Stand ''a'', Canvass ''a'' [''b''], Command ''a'' (EncodeCommand x), Replicate ''a'' ''c'', Replicate ''a'' ''b'',
         ReadSend ''a'' ''c'', Stand ''b'', Stand ''c'', Canvass ''b'' [''a''], ReadDeliver, Canvass ''c'' [''a'']] (trio, []);
       b = fst (c ''b''); c' = fst (c ''c'')
   in node_role b = Leader \<and> node_role c' = Leader \<and> node_term b = 2 \<and> node_term c' = 2"
  by (simp add: Let_def elect_first propose_first replicate_first replicate_again read_sent stand_second first_vote vote_forgotten
      second_vote trio_started del: run_event.simps) (simp add: peer_def Let_def)

end
