(* ===== verification/Raft_Peer.thy ===== *)
theory Raft_Peer
  imports Raft_Snapshot
begin

text \<open>
  A node with its state machine, as its peers see it: the four RPC methods of the interface \<^verbatim>\<open>Peer\<close> (\<^verbatim>\<open>node.go\<close>) from the
  request to the reply, with the entries they hand to the state machine and the snapshot they restore.  The interface
  \<^verbatim>\<open>Transport\<close> (\<^verbatim>\<open>transport.go\<close>) is a record of operations, and the locale \<open>peer_transport\<close> says what a call may do: an answer is
  the target's own answer, and a call that fails has been executed once or not at all.
\<close>

section \<open>The methods of a peer\<close>

record 'a machine =
  sm_apply :: "log_entry list \<Rightarrow> 'a \<Rightarrow> 'a"
  sm_restore :: "snapshot \<Rightarrow> 'a \<Rightarrow> go_error option \<times> 'a"

record ('s, 'a) raft_peer =
  p_node :: "'s raft_node"
  p_app :: 'a

definition run_committed :: "'s storage_ops \<Rightarrow> 'a machine \<Rightarrow> bool \<Rightarrow> ('s, 'a) raft_peer \<Rightarrow> ('s, 'a) raft_peer" where
  "run_committed ops sm advanced p =
     (if advanced then
        (case applyCommitted ops (p_node p) of (sent, n) \<Rightarrow> p\<lparr>p_node := n, p_app := sm_apply sm sent (p_app p)\<rparr>)
      else p)"

definition peer_RequestVote ::
  "'s storage_ops \<Rightarrow> request_vote_args \<Rightarrow> ('s, 'a) raft_peer \<Rightarrow> request_vote_reply \<times> ('s, 'a) raft_peer" where
  "peer_RequestVote ops args p = (case RequestVote ops args (p_node p) of (reply, n) \<Rightarrow> (reply, p\<lparr>p_node := n\<rparr>))"

definition peer_PreVote :: "pre_vote_args \<Rightarrow> ('s, 'a) raft_peer \<Rightarrow> pre_vote_reply \<times> ('s, 'a) raft_peer" where
  "peer_PreVote args p = (PreVote args (p_node p), p)"

definition peer_AppendEntries ::
  "'s storage_ops \<Rightarrow> 'a machine \<Rightarrow> append_entries_args \<Rightarrow> ('s, 'a) raft_peer \<Rightarrow> append_entries_reply \<times> ('s, 'a) raft_peer" where
  "peer_AppendEntries ops sm args p =
     (case AppendEntries ops args (p_node p) of
        ((reply, commitAdvanced), n) \<Rightarrow> (reply, run_committed ops sm commitAdvanced (p\<lparr>p_node := n\<rparr>)))"

definition peer_InstallSnapshot ::
  "'s storage_ops \<Rightarrow> 'a machine \<Rightarrow> install_snapshot_args \<Rightarrow> ('s, 'a) raft_peer \<Rightarrow>
   install_snapshot_reply \<times> ('s, 'a) raft_peer" where
  "peer_InstallSnapshot ops sm args p =
     (case InstallSnapshot_begin ops args (p_node p) of
        ((reply, None), n) \<Rightarrow> (reply, p\<lparr>p_node := n\<rparr>)
      | ((reply, Some snap), n) \<Rightarrow>
        (case sm_restore sm snap (p_app p) of
           (Some err, a) \<Rightarrow> (reply, p\<lparr>p_node := n, p_app := a\<rparr>)
         | (None, a) \<Rightarrow>
             (case InstallSnapshot_finish ops snap reply n of (reply', n') \<Rightarrow> (reply', p\<lparr>p_node := n', p_app := a\<rparr>))))"

section \<open>The transport interface\<close>

record ('s, 'a, 'w) transport =
  tr_peer :: "'w \<Rightarrow> node_id \<Rightarrow> ('s, 'a) raft_peer"
  tr_update :: "node_id \<Rightarrow> ('s, 'a) raft_peer \<Rightarrow> 'w \<Rightarrow> 'w"
  tr_RequestVote :: "node_id \<Rightarrow> request_vote_args \<Rightarrow> 'w \<Rightarrow> request_vote_reply result \<times> 'w"
  tr_PreVote :: "node_id \<Rightarrow> pre_vote_args \<Rightarrow> 'w \<Rightarrow> pre_vote_reply result \<times> 'w"
  tr_AppendEntries :: "node_id \<Rightarrow> append_entries_args \<Rightarrow> 'w \<Rightarrow> append_entries_reply result \<times> 'w"
  tr_InstallSnapshot :: "node_id \<Rightarrow> install_snapshot_args \<Rightarrow> 'w \<Rightarrow> install_snapshot_reply result \<times> 'w"

text \<open>The outcome \<open>r\<close> of a call of the method \<open>h\<close> of \<open>target\<close>, with the peers before and after.\<close>

definition rpc_outcome ::
  "('p \<Rightarrow> 'r \<times> 'p) \<Rightarrow> node_id \<Rightarrow> (node_id \<Rightarrow> 'p) \<Rightarrow> 'r result \<Rightarrow> (node_id \<Rightarrow> 'p) \<Rightarrow> bool" where
  "rpc_outcome h target before r after \<longleftrightarrow>
     (case r of
        Inl _ \<Rightarrow> after = before \<or> after = before(target := snd (h (before target)))
      | Inr reply \<Rightarrow> reply = fst (h (before target)) \<and> after = before(target := snd (h (before target))))"

locale peer_transport =
  fixes T :: "('s, 'a, 'w) transport" and ops :: "'s storage_ops" and sm :: "'a machine"
    and connected :: "'w \<Rightarrow> node_id \<Rightarrow> node_id \<Rightarrow> bool"
  assumes peer_update: "tr_peer T (tr_update T i p w) = (tr_peer T w)(i := p)"
    and connected_update: "connected (tr_update T i p w) = connected w"
    and RequestVote_outcome: "tr_RequestVote T t vargs w = (vr, w') \<Longrightarrow>
      rpc_outcome (peer_RequestVote ops vargs) t (tr_peer T w) vr (tr_peer T w') \<and> connected w' = connected w"
    and PreVote_outcome: "tr_PreVote T t pargs w = (pr, w') \<Longrightarrow>
      rpc_outcome (peer_PreVote pargs) t (tr_peer T w) pr (tr_peer T w') \<and> connected w' = connected w"
    and AppendEntries_outcome: "tr_AppendEntries T t aargs w = (ar, w') \<Longrightarrow>
      rpc_outcome (peer_AppendEntries ops sm aargs) t (tr_peer T w) ar (tr_peer T w') \<and> connected w' = connected w"
    and InstallSnapshot_outcome: "tr_InstallSnapshot T t sargs w = (sr, w') \<Longrightarrow>
      rpc_outcome (peer_InstallSnapshot ops sm sargs) t (tr_peer T w) sr (tr_peer T w') \<and> connected w' = connected w"
    and RequestVote_answers: "connected w (rv_CandidateID vargs) t \<Longrightarrow> is_ok (fst (tr_RequestVote T t vargs w))"
    and AppendEntries_answers: "connected w (ae_LeaderID aargs) t \<Longrightarrow> is_ok (fst (tr_AppendEntries T t aargs w))"
begin

lemma PreVote_changes_nothing: "tr_PreVote T t pargs w = (r, w') \<Longrightarrow> tr_peer T w' = tr_peer T w"
  using PreVote_outcome [of t pargs w r w'] by (auto simp: rpc_outcome_def peer_PreVote_def split: sum.splits)

lemma RequestVote_connected:
  assumes "connected w (rv_CandidateID vargs) t"
  obtains w' where "tr_RequestVote T t vargs w = (Inr (fst (peer_RequestVote ops vargs (tr_peer T w t))), w')"
    "tr_peer T w' = (tr_peer T w)(t := snd (peer_RequestVote ops vargs (tr_peer T w t)))" "connected w' = connected w"
proof -
  obtain r w' where run: "tr_RequestVote T t vargs w = (r, w')" by fastforce
  with RequestVote_answers [OF assms] obtain reply where r: "r = Inr reply" by (cases r) auto
  from RequestVote_outcome [OF run] run r that show thesis by (auto simp: rpc_outcome_def)
qed

lemma AppendEntries_connected:
  assumes "connected w (ae_LeaderID aargs) t"
  obtains w' where "tr_AppendEntries T t aargs w = (Inr (fst (peer_AppendEntries ops sm aargs (tr_peer T w t))), w')"
    "tr_peer T w' = (tr_peer T w)(t := snd (peer_AppendEntries ops sm aargs (tr_peer T w t)))" "connected w' = connected w"
proof -
  obtain r w' where run: "tr_AppendEntries T t aargs w = (r, w')" by fastforce
  with AppendEntries_answers [OF assms] obtain reply where r: "r = Inr reply" by (cases r) auto
  from AppendEntries_outcome [OF run] run r that show thesis by (auto simp: rpc_outcome_def)
qed

end

end
