(* ===== verification/Local_Transport.thy ===== *)
theory Local_Transport
  imports Raft_Peer
begin

text \<open>
  The in-process transport (\<^verbatim>\<open>local_transport.go\<close>): registered peers, blocked links and the four calls.  A call runs the
  method of the peer in a goroutine of its own; when the context ends first the caller gets the error, and the method still runs.
\<close>

section \<open>State\<close>

text \<open>A context: \<open>None\<close> is nil; otherwise its error on entry, and its error if it ends before the reply.\<close>

type_synonym call_context = "(go_error option \<times> go_error option) option"

definition ErrTransportClosed :: go_error where "ErrTransportClosed = Sentinel ''raft transport is closed''"
definition ErrPeerNotFound :: go_error where "ErrPeerNotFound = Sentinel ''raft peer not found''"

text \<open>Peers are registered under their own id, so the map from ids to peers is a set of ids and the nodes are in the state around it.\<close>

record local_transport =
  lt_peers :: "node_id set"
  lt_blocked :: "(node_id \<times> node_id) set"
  lt_closed :: bool

definition NewLocalTransport :: local_transport where
  "NewLocalTransport = \<lparr>lt_peers = {}, lt_blocked = {}, lt_closed = False\<rparr>"

definition lt_AddPeer :: "node_id option \<Rightarrow> local_transport \<Rightarrow> go_error option \<times> local_transport" where
  "lt_AddPeer peer t =
     (case peer of
        None \<Rightarrow> (Some (Message ''raft peer is required''), t)
      | Some peerID \<Rightarrow>
          if lt_closed t then (Some ErrTransportClosed, t)
          else if peerID \<in> lt_peers t then (Some (Message ''raft peer already registered''), t)
          else (None, t\<lparr>lt_peers := insert peerID (lt_peers t)\<rparr>))"

definition lt_AddNode :: "node_id option \<Rightarrow> local_transport \<Rightarrow> go_error option \<times> local_transport" where
  "lt_AddNode node t = (if node = None then (Some (Message ''raft node is required''), t) else lt_AddPeer node t)"

definition lt_RemoveNode :: "node_id \<Rightarrow> local_transport \<Rightarrow> local_transport" where
  "lt_RemoveNode i t = t\<lparr>lt_peers := lt_peers t - {i}\<rparr>"

definition lt_Block :: "node_id \<Rightarrow> node_id \<Rightarrow> local_transport \<Rightarrow> local_transport" where
  "lt_Block from to t = (if lt_closed t then t else t\<lparr>lt_blocked := insert (from, to) (lt_blocked t)\<rparr>)"

definition lt_Unblock :: "node_id \<Rightarrow> node_id \<Rightarrow> local_transport \<Rightarrow> local_transport" where
  "lt_Unblock from to t = t\<lparr>lt_blocked := lt_blocked t - {(from, to)}\<rparr>"

definition lt_IsBlocked :: "node_id \<Rightarrow> node_id \<Rightarrow> local_transport \<Rightarrow> bool" where
  "lt_IsBlocked from to t \<longleftrightarrow> (from, to) \<in> lt_blocked t"

definition lt_BlockBidirectional :: "node_id \<Rightarrow> node_id \<Rightarrow> local_transport \<Rightarrow> local_transport" where
  "lt_BlockBidirectional a b t =
     (if lt_closed t then t else t\<lparr>lt_blocked := insert (b, a) (insert (a, b) (lt_blocked t))\<rparr>)"

definition lt_UnblockBidirectional :: "node_id \<Rightarrow> node_id \<Rightarrow> local_transport \<Rightarrow> local_transport" where
  "lt_UnblockBidirectional a b t = t\<lparr>lt_blocked := lt_blocked t - {(a, b)} - {(b, a)}\<rparr>"

definition lt_Close :: "local_transport \<Rightarrow> local_transport" where
  "lt_Close t = \<lparr>lt_peers = {}, lt_blocked = {}, lt_closed = True\<rparr>"

definition lt_peer :: "node_id \<Rightarrow> local_transport \<Rightarrow> node_id result" where
  "lt_peer target t =
     (if lt_closed t then Inl ErrTransportClosed
      else if target \<notin> lt_peers t then Inl (Wrapf ''raft peer not found'' [ErrPeerNotFound])
      else Inr target)"

definition lt_checkBlocked :: "node_id \<Rightarrow> node_id \<Rightarrow> local_transport \<Rightarrow> go_error option" where
  "lt_checkBlocked from to t =
     (if lt_closed t then Some ErrTransportClosed
      else if (from, to) \<in> lt_blocked t then Some (Message ''raft transport link is blocked'')
      else None)"

section \<open>Calls\<close>

record ('s, 'a) local_net =
  ln_transport :: local_transport
  ln_peers :: "node_id \<Rightarrow> ('s, 'a) raft_peer"

definition contextError :: "call_context \<Rightarrow> go_error option" where
  "contextError ctx = (case ctx of None \<Rightarrow> Some (Message ''transport context is nil'') | Some (err, _) \<Rightarrow> err)"

text \<open>The select on the reply and the end of the context.\<close>

definition await_reply :: "call_context \<Rightarrow> 'r \<Rightarrow> 'r result" where
  "await_reply ctx reply = (case ctx of Some (_, Some err) \<Rightarrow> Inl err | _ \<Rightarrow> Inr reply)"

text \<open>The body the four methods share, with the sender of the message and the method of the peer.\<close>

definition lt_call ::
  "call_context \<Rightarrow> node_id \<Rightarrow> node_id \<Rightarrow> (('s, 'a) raft_peer \<Rightarrow> 'r \<times> ('s, 'a) raft_peer) \<Rightarrow> ('s, 'a) local_net \<Rightarrow>
   'r result \<times> ('s, 'a) local_net" where
  "lt_call ctx from target method w =
     (case contextError ctx of
        Some err \<Rightarrow> (Inl err, w)
      | None \<Rightarrow>
        (case lt_checkBlocked from target (ln_transport w) of
           Some err \<Rightarrow> (Inl err, w)
         | None \<Rightarrow>
           (case lt_peer target (ln_transport w) of
              Inl err \<Rightarrow> (Inl err, w)
            | Inr peer \<Rightarrow>
                (case method (ln_peers w peer) of
                   (reply, p) \<Rightarrow> (await_reply ctx reply, w\<lparr>ln_peers := (ln_peers w)(peer := p)\<rparr>)))))"

definition lt_RequestVote ::
  "'s storage_ops \<Rightarrow> call_context \<Rightarrow> node_id \<Rightarrow> request_vote_args \<Rightarrow> ('s, 'a) local_net \<Rightarrow>
   request_vote_reply result \<times> ('s, 'a) local_net" where
  "lt_RequestVote ops ctx target args = lt_call ctx (rv_CandidateID args) target (peer_RequestVote ops args)"

definition lt_AppendEntries ::
  "'s storage_ops \<Rightarrow> 'a machine \<Rightarrow> call_context \<Rightarrow> node_id \<Rightarrow> append_entries_args \<Rightarrow> ('s, 'a) local_net \<Rightarrow>
   append_entries_reply result \<times> ('s, 'a) local_net" where
  "lt_AppendEntries ops sm ctx target args = lt_call ctx (ae_LeaderID args) target (peer_AppendEntries ops sm args)"

definition lt_InstallSnapshot ::
  "'s storage_ops \<Rightarrow> 'a machine \<Rightarrow> call_context \<Rightarrow> node_id \<Rightarrow> install_snapshot_args \<Rightarrow> ('s, 'a) local_net \<Rightarrow>
   install_snapshot_reply result \<times> ('s, 'a) local_net" where
  "lt_InstallSnapshot ops sm ctx target args = lt_call ctx (is_LeaderID args) target (peer_InstallSnapshot ops sm args)"

definition lt_PreVote ::
  "call_context \<Rightarrow> node_id \<Rightarrow> pre_vote_args \<Rightarrow> ('s, 'a) local_net \<Rightarrow> pre_vote_reply result \<times> ('s, 'a) local_net" where
  "lt_PreVote ctx target args = lt_call ctx (pv_CandidateID args) target (peer_PreVote args)"

section \<open>Configuring a node\<close>

text \<open>\<^verbatim>\<open>SetPeers\<close>: a new transport with the peers that can be added, in order; \<open>None\<close> is a nil peer.\<close>

fun add_peers :: "node_id option list \<Rightarrow> local_transport \<Rightarrow> node_id list \<times> local_transport" where
  "add_peers [] t = ([], t)"
| "add_peers (None # ps) t = add_peers ps t"
| "add_peers (Some p # ps) t =
     (case lt_AddPeer (Some p) t of
        (Some err, t1) \<Rightarrow> add_peers ps t1
      | (None, t1) \<Rightarrow> (case add_peers ps t1 of (ids, t2) \<Rightarrow> (p # ids, t2)))"

definition SetPeers :: "node_id option list \<Rightarrow> 's raft_node \<Rightarrow> local_transport \<times> 's raft_node" where
  "SetPeers peers n = (case add_peers peers NewLocalTransport of (ids, t) \<Rightarrow> (t, n\<lparr>n_transport := True, n_peerIDs := ids\<rparr>))"

definition DefaultRPCTimeout :: int where "DefaultRPCTimeout = 2000000000"

definition SetRPCTimeout :: "int \<Rightarrow> int \<Rightarrow> go_error option \<times> int" where
  "SetRPCTimeout timeout current =
     (if timeout \<le> 0 then (Some (Message ''raft RPC timeout must be positive''), current) else (None, timeout))"

definition rpcTimeout :: "int \<Rightarrow> int" where
  "rpcTimeout current = (if current \<le> 0 then DefaultRPCTimeout else current)"

lemma add_peers_registers:
  assumes "\<not> lt_closed t"
  shows "case add_peers ps t of (ids, t') \<Rightarrow> distinct ids \<and> set ids \<inter> lt_peers t = {} \<and> lt_peers t' = lt_peers t \<union> set ids \<and>
    set ids = {p. Some p \<in> set ps} - lt_peers t \<and> \<not> lt_closed t'"
  using assms
proof (induction ps arbitrary: t)
  case (Cons po ps)
  show ?case
  proof (cases "\<exists>p. po = Some p \<and> p \<notin> lt_peers t")
    case True
    then obtain p where p: "po = Some p" "p \<notin> lt_peers t" by blast
    let ?t = "t\<lparr>lt_peers := insert p (lt_peers t)\<rparr>"
    have "lt_AddPeer (Some p) t = (None, ?t)" using p(2) Cons.prems by (simp add: lt_AddPeer_def)
    with Cons.IH [of ?t] Cons.prems p show ?thesis by (auto split: prod.splits)
  next
    case False
    then have "add_peers (po # ps) t = add_peers ps t" using Cons.prems by (cases po) (auto simp: lt_AddPeer_def)
    with Cons.IH [OF Cons.prems] False show ?thesis by auto
  qed
qed simp

section \<open>The contract\<close>

definition lt_ops ::
  "'s storage_ops \<Rightarrow> 'a machine \<Rightarrow> call_context \<Rightarrow> ('s, 'a, ('s, 'a) local_net) transport" where
  "lt_ops ops sm ctx = \<lparr>tr_peer = ln_peers, tr_update = (\<lambda>i p w. w\<lparr>ln_peers := (ln_peers w)(i := p)\<rparr>),
     tr_RequestVote = lt_RequestVote ops ctx, tr_PreVote = lt_PreVote ctx,
     tr_AppendEntries = lt_AppendEntries ops sm ctx, tr_InstallSnapshot = lt_InstallSnapshot ops sm ctx\<rparr>"

definition lt_connected :: "call_context \<Rightarrow> ('s, 'a) local_net \<Rightarrow> node_id \<Rightarrow> node_id \<Rightarrow> bool" where
  "lt_connected ctx w from to \<longleftrightarrow> ctx = Some (None, None) \<and> \<not> lt_closed (ln_transport w) \<and>
     to \<in> lt_peers (ln_transport w) \<and> (from, to) \<notin> lt_blocked (ln_transport w)"

lemma lt_call_outcome:
  assumes "lt_call ctx from target method w = (r, w')"
  shows "rpc_outcome method target (ln_peers w) r (ln_peers w') \<and> lt_connected ctx w' = lt_connected ctx w"
  using assms
  by (auto simp: lt_call_def rpc_outcome_def lt_connected_def lt_peer_def await_reply_def fun_eq_iff
      split: option.splits sum.splits prod.splits if_splits)

lemma lt_call_connected:
  "lt_connected ctx w from target \<Longrightarrow> is_ok (fst (lt_call ctx from target method w))"
  by (auto simp: lt_call_def lt_connected_def contextError_def lt_checkBlocked_def lt_peer_def await_reply_def split: prod.split)

lemma lt_connected_update [simp]: "lt_connected ctx (w\<lparr>ln_peers := q\<rparr>) = lt_connected ctx w"
  by (simp add: lt_connected_def fun_eq_iff)

interpretation lt: peer_transport "lt_ops ops sm ctx" ops sm "lt_connected ctx" for ops sm ctx
  by unfold_locales
    (auto simp: lt_ops_def lt_RequestVote_def lt_AppendEntries_def lt_InstallSnapshot_def lt_PreVote_def
      dest: lt_call_outcome intro: lt_call_connected)

end
