(* ===== verification/GRPC_Transport.thy ===== *)
theory GRPC_Transport
  imports Local_Transport
begin

text \<open>
  The gRPC transport: the service on the node's side (\<^verbatim>\<open>raft_service.go\<close>), the client's side (\<^verbatim>\<open>grpc_raft_transport*.go\<close>) and the
  messages between them.  The generated client and the network under it are a parameter, the record \<open>raft_client\<close>; the locale
  \<open>grpc_network\<close> says what gRPC promises about it, and makes the transport an instance of \<open>peer_transport\<close>.
\<close>

section \<open>Messages\<close>

record request_vote_request =
  rvq_term :: nat
  rvq_candidate_id :: string
  rvq_last_log_index :: nat
  rvq_last_log_term :: nat

record request_vote_response =
  rvs_term :: nat
  rvs_voter_id :: string
  rvs_vote_granted :: bool

record pre_vote_request =
  pvq_term :: nat
  pvq_candidate_id :: string
  pvq_last_log_index :: nat
  pvq_last_log_term :: nat

record pre_vote_response =
  pvs_term :: nat
  pvs_voter_id :: string
  pvs_vote_granted :: bool

record log_entry_message =
  lem_index :: nat
  lem_term :: nat
  lem_data :: bytes

record append_entries_request =
  aeq_term :: nat
  aeq_leader_id :: string
  aeq_prev_log_index :: nat
  aeq_prev_log_term :: nat
  aeq_entries :: "log_entry_message option list"
  aeq_leader_commit :: nat

record append_entries_response =
  aes_term :: nat
  aes_follower_id :: string
  aes_success :: bool

record install_snapshot_request =
  isq_term :: nat
  isq_leader_id :: string
  isq_last_included_index :: nat
  isq_last_included_term :: nat
  isq_data :: bytes

record install_snapshot_response =
  iss_term :: nat
  iss_follower_id :: string
  iss_success :: bool

section \<open>The service\<close>

text \<open>\<open>None\<close> is a nil message.\<close>

definition svc_RequestVote ::
  "'s storage_ops \<Rightarrow> request_vote_request option \<Rightarrow> ('s, 'a) raft_peer \<Rightarrow> request_vote_response result \<times> ('s, 'a) raft_peer" where
  "svc_RequestVote ops req p =
     (case req of
        None \<Rightarrow> (Inl (Message ''request vote request is required''), p)
      | Some q \<Rightarrow>
          (case peer_RequestVote ops \<lparr>rv_Term = rvq_term q, rv_CandidateID = rvq_candidate_id q,
               rv_LastLogIndex = rvq_last_log_index q, rv_LastLogTerm = rvq_last_log_term q\<rparr> p of
             (reply, p') \<Rightarrow> (Inr \<lparr>rvs_term = rvr_Term reply, rvs_voter_id = rvr_VoterID reply, rvs_vote_granted = rvr_VoteGranted reply\<rparr>, p')))"

definition svc_PreVote ::
  "pre_vote_request option \<Rightarrow> ('s, 'a) raft_peer \<Rightarrow> pre_vote_response result \<times> ('s, 'a) raft_peer" where
  "svc_PreVote req p =
     (case req of
        None \<Rightarrow> (Inl (Message ''pre vote request is required''), p)
      | Some q \<Rightarrow>
          (case peer_PreVote \<lparr>pv_Term = pvq_term q, pv_CandidateID = pvq_candidate_id q,
               pv_LastLogIndex = pvq_last_log_index q, pv_LastLogTerm = pvq_last_log_term q\<rparr> p of
             (reply, p') \<Rightarrow> (Inr \<lparr>pvs_term = pvr_Term reply, pvs_voter_id = pvr_VoterID reply, pvs_vote_granted = pvr_VoteGranted reply\<rparr>, p')))"

fun entries_of_messages :: "log_entry_message option list \<Rightarrow> log_entry list result" where
  "entries_of_messages [] = Inr []"
| "entries_of_messages (None # ms) = Inl (Message ''append entries contains nil log entry'')"
| "entries_of_messages (Some m # ms) =
     (case entries_of_messages ms of
        Inl err \<Rightarrow> Inl err
      | Inr es \<Rightarrow> Inr (\<lparr>Index = lem_index m, Term = lem_term m, Data = lem_data m\<rparr> # es))"

definition svc_AppendEntries ::
  "'s storage_ops \<Rightarrow> 'a machine \<Rightarrow> append_entries_request option \<Rightarrow> ('s, 'a) raft_peer \<Rightarrow>
   append_entries_response result \<times> ('s, 'a) raft_peer" where
  "svc_AppendEntries ops sm req p =
     (case req of
        None \<Rightarrow> (Inl (Message ''append entries request is required''), p)
      | Some q \<Rightarrow>
        (case entries_of_messages (aeq_entries q) of
           Inl err \<Rightarrow> (Inl err, p)
         | Inr entries \<Rightarrow>
             (case peer_AppendEntries ops sm \<lparr>ae_Term = aeq_term q, ae_LeaderID = aeq_leader_id q, ae_PrevLogIndex = aeq_prev_log_index q,
                  ae_PrevLogTerm = aeq_prev_log_term q, ae_Entries = entries, ae_LeaderCommit = aeq_leader_commit q\<rparr> p of
                (reply, p') \<Rightarrow> (Inr \<lparr>aes_term = aer_Term reply, aes_follower_id = aer_FollowerID reply, aes_success = aer_Success reply\<rparr>, p'))))"

definition svc_InstallSnapshot ::
  "'s storage_ops \<Rightarrow> 'a machine \<Rightarrow> install_snapshot_request option \<Rightarrow> ('s, 'a) raft_peer \<Rightarrow>
   install_snapshot_response result \<times> ('s, 'a) raft_peer" where
  "svc_InstallSnapshot ops sm req p =
     (case req of
        None \<Rightarrow> (Inl (Message ''install snapshot request is required''), p)
      | Some q \<Rightarrow>
          (case peer_InstallSnapshot ops sm \<lparr>is_Term = isq_term q, is_LeaderID = isq_leader_id q,
               is_LastIncludedIndex = isq_last_included_index q, is_LastIncludedTerm = isq_last_included_term q, is_Data = isq_data q\<rparr> p of
             (reply, p') \<Rightarrow> (Inr \<lparr>iss_term = isr_Term reply, iss_follower_id = isr_FollowerID reply, iss_success = isr_Success reply\<rparr>, p')))"

section \<open>The client's side\<close>

definition ErrGRPCTransportClosed :: go_error where "ErrGRPCTransportClosed = Sentinel ''gRPC raft transport is closed''"
definition ErrGRPCPeerNotFound :: go_error where "ErrGRPCPeerNotFound = Sentinel ''gRPC raft peer not found''"

text \<open>A registered peer has a client on a connection to its address; \<open>gt_tls\<close> says whether a TLS configuration is set.\<close>

record grpc_transport =
  gt_peers :: "(node_id, string) fmap"
  gt_closed :: bool
  gt_tls :: bool

definition NewGRPCTransport :: grpc_transport where
  "NewGRPCTransport = \<lparr>gt_peers = fmempty, gt_closed = False, gt_tls = False\<rparr>"

definition SetTLSConfig :: "bool \<Rightarrow> grpc_transport \<Rightarrow> go_error option \<times> grpc_transport" where
  "SetTLSConfig given t =
     (if \<not> given then (Some (Message ''TLS config is required''), t)
      else if gt_closed t then (Some ErrGRPCTransportClosed, t)
      else (None, t\<lparr>gt_tls := True\<rparr>))"

definition peerServerName :: "node_id \<Rightarrow> string" where
  "peerServerName i = i @ ''.raftiq''"

text \<open>\<open>dial\<close> is the outcome of \<^verbatim>\<open>grpc.NewClient\<close> for an address and a server name.\<close>

definition gt_AddPeer ::
  "(string \<Rightarrow> string \<Rightarrow> go_error option) \<Rightarrow> node_id \<Rightarrow> string \<Rightarrow> grpc_transport \<Rightarrow> go_error option \<times> grpc_transport" where
  "gt_AddPeer dial i address t =
     (if i = [] then (Some (Message ''raft peer ID is required''), t)
      else if address = [] then (Some (Message ''raft peer address is required''), t)
      else if gt_closed t then (Some ErrGRPCTransportClosed, t)
      else if fmlookup (gt_peers t) i \<noteq> None then (Some (Message ''raft peer already registered''), t)
      else if \<not> gt_tls t then (Some (Message ''TLS config is not configured''), t)
      else case dial address (peerServerName i) of
        Some err \<Rightarrow> (Some (Wrapf ''create gRPC connection to peer'' [err]), t)
      | None \<Rightarrow> (None, t\<lparr>gt_peers := fmupd i address (gt_peers t)\<rparr>))"

definition gt_RemovePeer :: "node_id \<Rightarrow> grpc_transport \<Rightarrow> grpc_transport" where
  "gt_RemovePeer i t = t\<lparr>gt_peers := fmdrop i (gt_peers t)\<rparr>"

text \<open>\<open>close\<close> is the outcome of closing the connection of a peer; the errors are joined.\<close>

definition gt_Close :: "(node_id \<Rightarrow> go_error option) \<Rightarrow> grpc_transport \<Rightarrow> go_error option \<times> grpc_transport" where
  "gt_Close close t =
     (if gt_closed t then (None, t)
      else let errs = List.map_filter (close \<circ> fst) (map_range (gt_peers t))
           in (if errs = [] then None else Some (Wrapf [] errs), t\<lparr>gt_closed := True, gt_peers := fmempty\<rparr>))"

definition gt_peer :: "node_id \<Rightarrow> grpc_transport \<Rightarrow> string result" where
  "gt_peer target t =
     (if gt_closed t then Inl ErrGRPCTransportClosed
      else case fmlookup (gt_peers t) target of
        None \<Rightarrow> Inl (Wrapf ''gRPC raft peer not found'' [ErrGRPCPeerNotFound])
      | Some address \<Rightarrow> Inr address)"

definition gt_contextError :: "call_context \<Rightarrow> go_error option" where
  "gt_contextError ctx = (case ctx of None \<Rightarrow> Some (Message ''transport context is nil'') | Some (err, _) \<Rightarrow> err)"

section \<open>Calls\<close>

text \<open>The generated client, by address.\<close>

record 'w raft_client =
  rc_RequestVote :: "string \<Rightarrow> request_vote_request \<Rightarrow> 'w \<Rightarrow> request_vote_response result \<times> 'w"
  rc_PreVote :: "string \<Rightarrow> pre_vote_request \<Rightarrow> 'w \<Rightarrow> pre_vote_response result \<times> 'w"
  rc_AppendEntries :: "string \<Rightarrow> append_entries_request \<Rightarrow> 'w \<Rightarrow> append_entries_response result \<times> 'w"
  rc_InstallSnapshot :: "string \<Rightarrow> install_snapshot_request \<Rightarrow> 'w \<Rightarrow> install_snapshot_response result \<times> 'w"

text \<open>What the four methods do around the call: the context, the peer, the error of the call.\<close>

definition gt_call ::
  "call_context \<Rightarrow> grpc_transport \<Rightarrow> node_id \<Rightarrow> string \<Rightarrow> (string \<Rightarrow> 'w \<Rightarrow> 'm result \<times> 'w) \<Rightarrow> ('m \<Rightarrow> 'r) \<Rightarrow> 'w \<Rightarrow> 'r result \<times> 'w" where
  "gt_call ctx t target what rpc convert w =
     (case gt_contextError ctx of
        Some err \<Rightarrow> (Inl err, w)
      | None \<Rightarrow>
        (case gt_peer target t of
           Inl err \<Rightarrow> (Inl err, w)
         | Inr address \<Rightarrow>
           (case rpc address w of
              (Inl err, w') \<Rightarrow> (Inl (Wrapf what [err]), w')
            | (Inr m, w') \<Rightarrow> (Inr (convert m), w'))))"

text \<open>The requests of the four methods.\<close>

definition vote_message :: "request_vote_args \<Rightarrow> request_vote_request" where
  "vote_message args = \<lparr>rvq_term = rv_Term args, rvq_candidate_id = rv_CandidateID args,
     rvq_last_log_index = rv_LastLogIndex args, rvq_last_log_term = rv_LastLogTerm args\<rparr>"

definition pre_vote_message :: "pre_vote_args \<Rightarrow> pre_vote_request" where
  "pre_vote_message args = \<lparr>pvq_term = pv_Term args, pvq_candidate_id = pv_CandidateID args,
     pvq_last_log_index = pv_LastLogIndex args, pvq_last_log_term = pv_LastLogTerm args\<rparr>"

definition append_message :: "append_entries_args \<Rightarrow> append_entries_request" where
  "append_message args = \<lparr>aeq_term = ae_Term args, aeq_leader_id = ae_LeaderID args,
     aeq_prev_log_index = ae_PrevLogIndex args, aeq_prev_log_term = ae_PrevLogTerm args,
     aeq_entries = map (\<lambda>e. Some \<lparr>lem_index = Index e, lem_term = Term e, lem_data = Data e\<rparr>) (ae_Entries args),
     aeq_leader_commit = ae_LeaderCommit args\<rparr>"

definition snapshot_message :: "install_snapshot_args \<Rightarrow> install_snapshot_request" where
  "snapshot_message args = \<lparr>isq_term = is_Term args, isq_leader_id = is_LeaderID args,
     isq_last_included_index = is_LastIncludedIndex args, isq_last_included_term = is_LastIncludedTerm args, isq_data = is_Data args\<rparr>"

definition gt_RequestVote ::
  "'w raft_client \<Rightarrow> grpc_transport \<Rightarrow> call_context \<Rightarrow> node_id \<Rightarrow> request_vote_args \<Rightarrow> 'w \<Rightarrow> request_vote_reply result \<times> 'w" where
  "gt_RequestVote C t ctx target args =
     gt_call ctx t target ''request vote from peer'' (\<lambda>address. rc_RequestVote C address (vote_message args))
       (\<lambda>m. \<lparr>rvr_Term = rvs_term m, rvr_VoterID = rvs_voter_id m, rvr_VoteGranted = rvs_vote_granted m\<rparr>)"

definition gt_PreVote ::
  "'w raft_client \<Rightarrow> grpc_transport \<Rightarrow> call_context \<Rightarrow> node_id \<Rightarrow> pre_vote_args \<Rightarrow> 'w \<Rightarrow> pre_vote_reply result \<times> 'w" where
  "gt_PreVote C t ctx target args =
     gt_call ctx t target ''pre-vote from peer'' (\<lambda>address. rc_PreVote C address (pre_vote_message args))
       (\<lambda>m. \<lparr>pvr_Term = pvs_term m, pvr_VoterID = pvs_voter_id m, pvr_VoteGranted = pvs_vote_granted m\<rparr>)"

definition gt_AppendEntries ::
  "'w raft_client \<Rightarrow> grpc_transport \<Rightarrow> call_context \<Rightarrow> node_id \<Rightarrow> append_entries_args \<Rightarrow> 'w \<Rightarrow> append_entries_reply result \<times> 'w" where
  "gt_AppendEntries C t ctx target args =
     gt_call ctx t target ''append entries to peer'' (\<lambda>address. rc_AppendEntries C address (append_message args))
       (\<lambda>m. \<lparr>aer_Term = aes_term m, aer_FollowerID = aes_follower_id m, aer_Success = aes_success m\<rparr>)"

definition gt_InstallSnapshot ::
  "'w raft_client \<Rightarrow> grpc_transport \<Rightarrow> call_context \<Rightarrow> node_id \<Rightarrow> install_snapshot_args \<Rightarrow> 'w \<Rightarrow> install_snapshot_reply result \<times> 'w" where
  "gt_InstallSnapshot C t ctx target args =
     gt_call ctx t target ''install snapshot on peer'' (\<lambda>address. rc_InstallSnapshot C address (snapshot_message args))
       (\<lambda>m. \<lparr>isr_Term = iss_term m, isr_FollowerID = iss_follower_id m, isr_Success = iss_success m\<rparr>)"

section \<open>The contract of gRPC\<close>

text \<open>
  The outcome of a unary call at the node \<open>j\<close> behind an address: a response is the response of its handler, and a call that fails
  has run the handler once or not at all.
\<close>

definition served :: "('p \<Rightarrow> 'm result \<times> 'p) \<Rightarrow> node_id \<Rightarrow> (node_id \<Rightarrow> 'p) \<Rightarrow> 'm result \<Rightarrow> (node_id \<Rightarrow> 'p) \<Rightarrow> bool" where
  "served h j before r after \<longleftrightarrow>
     (case r of
        Inl _ \<Rightarrow> after = before \<or> after = before(j := snd (h (before j)))
      | Inr m \<Rightarrow> fst (h (before j)) = Inr m \<and> after = before(j := snd (h (before j))))"

locale grpc_network =
  fixes C :: "'w raft_client" and ops :: "'s storage_ops" and sm :: "'a machine"
    and peers :: "'w \<Rightarrow> node_id \<Rightarrow> ('s, 'a) raft_peer" and update :: "node_id \<Rightarrow> ('s, 'a) raft_peer \<Rightarrow> 'w \<Rightarrow> 'w"
    and route :: "string \<Rightarrow> node_id" and up :: "'w \<Rightarrow> string \<Rightarrow> bool"
  assumes peers_update: "peers (update i p w) = (peers w)(i := p)" "up (update i p w) = up w"
    and RequestVote_served: "rc_RequestVote C a vq w = (vr, w') \<Longrightarrow>
      served (svc_RequestVote ops (Some vq)) (route a) (peers w) vr (peers w') \<and> up w' = up w"
    and PreVote_served: "rc_PreVote C a pq w = (pr, w') \<Longrightarrow>
      served (svc_PreVote (Some pq)) (route a) (peers w) pr (peers w') \<and> up w' = up w"
    and AppendEntries_served: "rc_AppendEntries C a aq w = (ar, w') \<Longrightarrow>
      served (svc_AppendEntries ops sm (Some aq)) (route a) (peers w) ar (peers w') \<and> up w' = up w"
    and InstallSnapshot_served: "rc_InstallSnapshot C a sq w = (sr, w') \<Longrightarrow>
      served (svc_InstallSnapshot ops sm (Some sq)) (route a) (peers w) sr (peers w') \<and> up w' = up w"
    and RequestVote_up: "up w a \<Longrightarrow> is_ok (fst (rc_RequestVote C a vq w))"
    and AppendEntries_up: "up w a \<Longrightarrow> list_all (\<lambda>m. m \<noteq> None) (aeq_entries aq) \<Longrightarrow> is_ok (fst (rc_AppendEntries C a aq w))"

lemma entries_roundtrip:
  "entries_of_messages (map (\<lambda>e. Some \<lparr>lem_index = Index e, lem_term = Term e, lem_data = Data e\<rparr>) es) = Inr es"
  by (induction es) simp_all

text \<open>A transport whose peers are registered at the addresses at which they are served.\<close>

locale grpc_cluster = grpc_network C ops sm peers update route up
  for C :: "'w raft_client" and ops :: "'s storage_ops" and sm :: "'a machine" and peers update route up +
  fixes t :: grpc_transport and ctx :: call_context
  assumes addresses: "fmlookup (gt_peers t) i = Some a \<Longrightarrow> route a = i"

definition gt_ops ::
  "'w raft_client \<Rightarrow> ('w \<Rightarrow> node_id \<Rightarrow> ('s, 'a) raft_peer) \<Rightarrow> (node_id \<Rightarrow> ('s, 'a) raft_peer \<Rightarrow> 'w \<Rightarrow> 'w) \<Rightarrow> grpc_transport \<Rightarrow> call_context \<Rightarrow>
   ('s, 'a, 'w) transport" where
  "gt_ops C peers update t ctx = \<lparr>tr_peer = peers, tr_update = update, tr_RequestVote = gt_RequestVote C t ctx, tr_PreVote = gt_PreVote C t ctx,
     tr_AppendEntries = gt_AppendEntries C t ctx, tr_InstallSnapshot = gt_InstallSnapshot C t ctx\<rparr>"

definition gt_connected ::
  "('w \<Rightarrow> string \<Rightarrow> bool) \<Rightarrow> grpc_transport \<Rightarrow> call_context \<Rightarrow> 'w \<Rightarrow> node_id \<Rightarrow> node_id \<Rightarrow> bool" where
  "gt_connected up t ctx w from to \<longleftrightarrow> gt_contextError ctx = None \<and> \<not> gt_closed t \<and>
     (case fmlookup (gt_peers t) to of None \<Rightarrow> False | Some a \<Rightarrow> up w a)"

text \<open>A call at the right address has the outcome of a call of the peer, when the messages carry the arguments and the reply.\<close>

lemma gt_call_outcome:
  assumes "gt_call ctx t target what rpc convert w = (r, w')"
    and "\<And>a r1 w1. fmlookup (gt_peers t) target = Some a \<Longrightarrow> rpc a w = (r1, w1) \<Longrightarrow> served h target (peers w) r1 (peers w1)"
    and "\<And>p m. fst (h p) = Inr m \<Longrightarrow> fst (method p) = convert m" "\<And>p. snd (h p) = snd (method p)"
  shows "rpc_outcome method target (peers w) r (peers w')"
proof (cases "gt_contextError ctx = None \<and> \<not> gt_closed t \<and> (\<exists>a. fmlookup (gt_peers t) target = Some a)")
  case True
  then obtain a where a: "fmlookup (gt_peers t) target = Some a" by blast
  obtain r1 w1 where run: "rpc a w = (r1, w1)" by fastforce
  from assms(2) [OF a run] assms(1,3,4) True a run show ?thesis
    by (auto simp: gt_call_def gt_peer_def served_def rpc_outcome_def split: sum.splits)
next
  case False
  with assms(1) show ?thesis
    by (auto simp: gt_call_def gt_peer_def rpc_outcome_def split: option.splits if_splits)
qed

lemma args_eta [simp]:
  "\<lparr>rv_Term = rv_Term a, rv_CandidateID = rv_CandidateID a, rv_LastLogIndex = rv_LastLogIndex a, rv_LastLogTerm = rv_LastLogTerm a\<rparr> = a"
  "\<lparr>pv_Term = pv_Term b, pv_CandidateID = pv_CandidateID b, pv_LastLogIndex = pv_LastLogIndex b, pv_LastLogTerm = pv_LastLogTerm b\<rparr> = b"
  "\<lparr>ae_Term = ae_Term c, ae_LeaderID = ae_LeaderID c, ae_PrevLogIndex = ae_PrevLogIndex c, ae_PrevLogTerm = ae_PrevLogTerm c,
     ae_Entries = ae_Entries c, ae_LeaderCommit = ae_LeaderCommit c\<rparr> = c"
  "\<lparr>is_Term = is_Term d, is_LeaderID = is_LeaderID d, is_LastIncludedIndex = is_LastIncludedIndex d,
     is_LastIncludedTerm = is_LastIncludedTerm d, is_Data = is_Data d\<rparr> = d"
  by simp_all

lemma svc_RequestVote_message:
  "svc_RequestVote ops (Some (vote_message args)) p = (case peer_RequestVote ops args p of (reply, p') \<Rightarrow>
     (Inr \<lparr>rvs_term = rvr_Term reply, rvs_voter_id = rvr_VoterID reply, rvs_vote_granted = rvr_VoteGranted reply\<rparr>, p'))"
  by (simp add: svc_RequestVote_def vote_message_def)

lemma svc_PreVote_message:
  "svc_PreVote (Some (pre_vote_message args)) p = (case peer_PreVote args p of (reply, p') \<Rightarrow>
     (Inr \<lparr>pvs_term = pvr_Term reply, pvs_voter_id = pvr_VoterID reply, pvs_vote_granted = pvr_VoteGranted reply\<rparr>, p'))"
  by (simp add: svc_PreVote_def pre_vote_message_def)

lemma svc_AppendEntries_message:
  "svc_AppendEntries ops sm (Some (append_message args)) p = (case peer_AppendEntries ops sm args p of (reply, p') \<Rightarrow>
     (Inr \<lparr>aes_term = aer_Term reply, aes_follower_id = aer_FollowerID reply, aes_success = aer_Success reply\<rparr>, p'))"
  by (simp add: svc_AppendEntries_def append_message_def entries_roundtrip)

lemma svc_InstallSnapshot_message:
  "svc_InstallSnapshot ops sm (Some (snapshot_message args)) p = (case peer_InstallSnapshot ops sm args p of (reply, p') \<Rightarrow>
     (Inr \<lparr>iss_term = isr_Term reply, iss_follower_id = isr_FollowerID reply, iss_success = isr_Success reply\<rparr>, p'))"
  by (simp add: svc_InstallSnapshot_def snapshot_message_def)

lemma gt_call_up:
  assumes "gt_call ctx t target what rpc convert w = (r, w')" "\<And>a r1 w1. rpc a w = (r1, w1) \<Longrightarrow> up w1 = up w"
  shows "up w' = up w"
  using assms by (auto simp: gt_call_def split: option.splits sum.splits prod.splits)

lemma gt_call_connected:
  assumes "gt_connected up t ctx w from target" "\<And>a. up w a \<Longrightarrow> is_ok (fst (rpc a w))"
  shows "is_ok (fst (gt_call ctx t target what rpc convert w))"
proof -
  from assms(1) obtain a where a: "gt_contextError ctx = None" "\<not> gt_closed t" "fmlookup (gt_peers t) target = Some a" "up w a"
    by (auto simp: gt_connected_def split: option.splits)
  obtain r w' where run: "rpc a w = (r, w')" by fastforce
  with assms(2) [OF a(4)] obtain m where "r = Inr m" by (cases r) auto
  with a run show ?thesis by (simp add: gt_call_def gt_peer_def)
qed

text \<open>One method of the transport, from the contract of its call and the messages it exchanges.\<close>

lemma gt_connected_cong: "up w' = up w \<Longrightarrow> gt_connected up t ctx w' = gt_connected up t ctx w"
  by (simp add: gt_connected_def fun_eq_iff split: option.split)

lemma gt_call_method:
  assumes "gt_call ctx t target what rpc convert w = (r, w')"
    and "\<And>i a. fmlookup (gt_peers t) i = Some a \<Longrightarrow> route a = i"
    and "\<And>a r1 w1. rpc a w = (r1, w1) \<Longrightarrow> served h (route a) (peers w) r1 (peers w1) \<and> up w1 = up w"
    and "\<And>p. h p = (case method p of (reply, p') \<Rightarrow> (Inr (message reply), p'))"
    and "\<And>reply. convert (message reply) = reply"
  shows "rpc_outcome method target (peers w) r (peers w') \<and> gt_connected up t ctx w' = gt_connected up t ctx w"
proof
  show "rpc_outcome method target (peers w) r (peers w')"
  proof (rule gt_call_outcome [OF assms(1), where h = h])
    show "served h target (peers w) r1 (peers w1)" if "fmlookup (gt_peers t) target = Some a" "rpc a w = (r1, w1)" for a r1 w1
      using assms(2) [OF that(1)] assms(3) [OF that(2)] by simp
  qed (auto simp: assms(4,5) split: prod.splits)
  show "gt_connected up t ctx w' = gt_connected up t ctx w"
    using gt_call_up [OF assms(1), of up] assms(3) by (intro gt_connected_cong) blast
qed

context grpc_cluster
begin

lemma RequestVote_rpc:
  assumes "gt_RequestVote C t ctx target args w = (r, w')"
  shows "rpc_outcome (peer_RequestVote ops args) target (peers w) r (peers w') \<and> gt_connected up t ctx w' = gt_connected up t ctx w"
  by (rule gt_call_method [OF assms [unfolded gt_RequestVote_def] addresses RequestVote_served svc_RequestVote_message]) simp_all

lemma PreVote_rpc:
  assumes "gt_PreVote C t ctx target args w = (r, w')"
  shows "rpc_outcome (peer_PreVote args) target (peers w) r (peers w') \<and> gt_connected up t ctx w' = gt_connected up t ctx w"
  by (rule gt_call_method [OF assms [unfolded gt_PreVote_def] addresses PreVote_served svc_PreVote_message]) simp_all

lemma AppendEntries_rpc:
  assumes "gt_AppendEntries C t ctx target args w = (r, w')"
  shows "rpc_outcome (peer_AppendEntries ops sm args) target (peers w) r (peers w') \<and> gt_connected up t ctx w' = gt_connected up t ctx w"
  by (rule gt_call_method [OF assms [unfolded gt_AppendEntries_def] addresses AppendEntries_served svc_AppendEntries_message]) simp_all

lemma InstallSnapshot_rpc:
  assumes "gt_InstallSnapshot C t ctx target args w = (r, w')"
  shows "rpc_outcome (peer_InstallSnapshot ops sm args) target (peers w) r (peers w') \<and> gt_connected up t ctx w' = gt_connected up t ctx w"
  by (rule gt_call_method [OF assms [unfolded gt_InstallSnapshot_def] addresses InstallSnapshot_served svc_InstallSnapshot_message]) simp_all

end

sublocale grpc_cluster \<subseteq> peer_transport "gt_ops C peers update t ctx" ops sm "gt_connected up t ctx"
proof
  show "is_ok (fst (tr_AppendEntries (gt_ops C peers update t ctx) j args w))"
    if "gt_connected up t ctx w (ae_LeaderID args) j" for args j w
    using gt_call_connected [OF that, where rpc = "\<lambda>a. rc_AppendEntries C a (append_message args)"] AppendEntries_up
    by (simp add: gt_ops_def gt_AppendEntries_def append_message_def list_all_iff)
  show "is_ok (fst (tr_RequestVote (gt_ops C peers update t ctx) j args w))"
    if "gt_connected up t ctx w (rv_CandidateID args) j" for args j w
    using gt_call_connected [OF that, where rpc = "\<lambda>a. rc_RequestVote C a (vote_message args)"] RequestVote_up by (simp add: gt_ops_def gt_RequestVote_def)
qed (simp_all add: gt_ops_def peers_update gt_connected_cong [where up = up, OF peers_update(2)] RequestVote_rpc PreVote_rpc AppendEntries_rpc InstallSnapshot_rpc)

context grpc_cluster
begin

lemma is_peer_transport: "peer_transport (gt_ops C peers update t ctx) ops sm (gt_connected up t ctx)"
  by unfold_locales

end

section \<open>A network without faults of its own\<close>

text \<open>
  Every address that is up runs the handler once for each call and answers with its response, and the others are unavailable.
  It meets the contract, with the service as it is above.
\<close>

record ('s, 'a) direct_net =
  dn_peers :: "node_id \<Rightarrow> ('s, 'a) raft_peer"
  dn_up :: "string \<Rightarrow> bool"

definition unavailable :: go_error where "unavailable = Message ''rpc error: code = Unavailable''"

definition direct_call ::
  "(string \<Rightarrow> node_id) \<Rightarrow> (('s, 'a) raft_peer \<Rightarrow> 'm result \<times> ('s, 'a) raft_peer) \<Rightarrow> string \<Rightarrow> ('s, 'a) direct_net \<Rightarrow>
   'm result \<times> ('s, 'a) direct_net" where
  "direct_call route handler a w =
     (if dn_up w a then case handler (dn_peers w (route a)) of (r, p) \<Rightarrow> (r, w\<lparr>dn_peers := (dn_peers w)(route a := p)\<rparr>)
      else (Inl unavailable, w))"

definition direct_client :: "(string \<Rightarrow> node_id) \<Rightarrow> 's storage_ops \<Rightarrow> 'a machine \<Rightarrow> ('s, 'a) direct_net raft_client" where
  "direct_client route ops sm =
     \<lparr>rc_RequestVote = (\<lambda>a q. direct_call route (svc_RequestVote ops (Some q)) a),
      rc_PreVote = (\<lambda>a q. direct_call route (svc_PreVote (Some q)) a),
      rc_AppendEntries = (\<lambda>a q. direct_call route (svc_AppendEntries ops sm (Some q)) a),
      rc_InstallSnapshot = (\<lambda>a q. direct_call route (svc_InstallSnapshot ops sm (Some q)) a)\<rparr>"

definition direct_update :: "node_id \<Rightarrow> ('s, 'a) raft_peer \<Rightarrow> ('s, 'a) direct_net \<Rightarrow> ('s, 'a) direct_net" where
  "direct_update i p w = w\<lparr>dn_peers := (dn_peers w)(i := p)\<rparr>"

lemma direct_call_served:
  "direct_call route handler a w = (r, w') \<Longrightarrow> served handler (route a) (dn_peers w) r (dn_peers w') \<and> dn_up w' = dn_up w"
  by (auto simp: direct_call_def served_def split: if_splits prod.splits sum.splits)

lemma direct_call_up:
  "dn_up w a \<Longrightarrow> is_ok (fst (handler (dn_peers w (route a)))) \<Longrightarrow> is_ok (fst (direct_call route handler a w))"
  by (auto simp: direct_call_def split: prod.split)

lemma svc_RequestVote_answers: "is_ok (fst (svc_RequestVote ops (Some q) p))"
  by (simp add: svc_RequestVote_def split: prod.split)

lemma entries_of_messages_ok: "list_all (\<lambda>m. m \<noteq> None) ms \<Longrightarrow> is_ok (entries_of_messages ms)"
  by (induction ms rule: entries_of_messages.induct) (auto split: sum.splits)

lemma svc_AppendEntries_answers:
  "list_all (\<lambda>m. m \<noteq> None) (aeq_entries q) \<Longrightarrow> is_ok (fst (svc_AppendEntries ops sm (Some q) p))"
  using entries_of_messages_ok [of "aeq_entries q"] by (auto simp: svc_AppendEntries_def split: sum.split prod.split)

interpretation dn: grpc_network "direct_client route ops sm" ops sm dn_peers direct_update route dn_up for route ops sm
  by unfold_locales
    (auto simp: direct_client_def direct_update_def dest: direct_call_served
      intro!: direct_call_up svc_RequestVote_answers svc_AppendEntries_answers)

text \<open>The addresses under which the peers of a transport are reached, when \<^verbatim>\<open>AddPeer\<close> has registered them one by one.\<close>

lemma gt_AddPeer_registers:
  assumes "gt_AddPeer dial i address t = (None, t')"
  shows "fmlookup (gt_peers t) i = None \<and> gt_peers t' = fmupd i address (gt_peers t) \<and> gt_tls t' \<and> \<not> gt_closed t' \<and>
    dial address (peerServerName i) = None"
  using assms by (auto simp: gt_AddPeer_def split: if_splits option.splits)

lemma gt_AddPeer_addresses:
  assumes "gt_AddPeer dial i address t = (None, t')" "route address = i" "\<And>j a. fmlookup (gt_peers t) j = Some a \<Longrightarrow> route a = j"
  shows "fmlookup (gt_peers t') j = Some a \<Longrightarrow> route a = j"
  using gt_AddPeer_registers [OF assms(1)] assms(2,3) by (auto split: if_splits)

end
