(* ===== verification/Raft_Drive.thy ===== *)
theory Raft_Drive
  imports Raft_Peer
begin

text \<open>
  The methods of the node that call its peers (\<^verbatim>\<open>replicateTo\<close>, \<^verbatim>\<open>Propose\<close>, \<^verbatim>\<open>heartbeat\<close>, \<^verbatim>\<open>runElection\<close>, \<^verbatim>\<open>Tick\<close>,
  \<^verbatim>\<open>AddMember\<close>, \<^verbatim>\<open>RemoveMember\<close>), from their first section to their last, over any transport.  The state \<open>w\<close> of the transport
  holds the node \<open>i\<close> itself and its peers, and whatever happens during a call or a wait is in how it changes there.  A loop that may
  not end is a partial function: \<open>None\<close> is a run that does not return.
\<close>

section \<open>Sections of the node\<close>

abbreviation own_node :: "('s, 'a, 'w) transport \<Rightarrow> node_id \<Rightarrow> 'w \<Rightarrow> 's raft_node" where
  "own_node T i w \<equiv> p_node (tr_peer T w i)"

definition own_section ::
  "('s, 'a, 'w) transport \<Rightarrow> node_id \<Rightarrow> ('s raft_node \<Rightarrow> 'r \<times> 's raft_node) \<Rightarrow> 'w \<Rightarrow> 'r \<times> 'w" where
  "own_section T i f w = (case f (own_node T i w) of (r, n) \<Rightarrow> (r, tr_update T i ((tr_peer T w i)\<lparr>p_node := n\<rparr>) w))"

definition own_apply :: "('s, 'a, 'w) transport \<Rightarrow> 's storage_ops \<Rightarrow> 'a machine \<Rightarrow> node_id \<Rightarrow> bool \<Rightarrow> 'w \<Rightarrow> 'w" where
  "own_apply T ops sm i advanced w = tr_update T i (run_committed ops sm advanced (tr_peer T w i)) w"

section \<open>Replication to one peer\<close>

definition sendInstallSnapshot ::
  "('s, 'a, 'w) transport \<Rightarrow> 's storage_ops \<Rightarrow> 'a machine \<Rightarrow> node_id \<Rightarrow> node_id \<Rightarrow> 'w \<Rightarrow> bool \<times> 'w" where
  "sendInstallSnapshot T ops sm i peerID w =
     (if \<not> n_transport (own_node T i w) then (False, w)
      else case buildInstallSnapshot ops peerID (own_node T i w) of
        None \<Rightarrow> (False, w)
      | Some args \<Rightarrow>
        (case tr_InstallSnapshot T peerID args w of
           (Inl err, w1) \<Rightarrow> (False, w1)
         | (Inr reply, w1) \<Rightarrow>
           (case own_section T i (handleInstallSnapshotReply ops peerID args reply) w1 of
              (advanced, w2) \<Rightarrow> (isr_Success reply, own_apply T ops sm i advanced w2))))"

partial_function (option) replicateTo ::
  "('s, 'a, 'w) transport \<Rightarrow> 's storage_ops \<Rightarrow> 'a machine \<Rightarrow> node_id \<Rightarrow> node_id \<Rightarrow> 'w \<Rightarrow> 'w option" where
  "replicateTo T ops sm i peerID w =
     (if \<not> n_transport (own_node T i w) then Some w
      else case sendInstallSnapshot T ops sm i peerID w of
        (installed, w1) \<Rightarrow>
          if installed then replicateTo T ops sm i peerID w1
          else (case buildAppendEntries peerID (own_node T i w1) of
            None \<Rightarrow> Some w1
          | Some args \<Rightarrow>
            (case tr_AppendEntries T peerID args w1 of
               (Inl err, w2) \<Rightarrow> Some w2
             | (Inr reply, w2) \<Rightarrow>
               (case own_section T i (handleAppendEntriesReply ops peerID args reply) w2 of
                  (advanced, w3) \<Rightarrow>
                    (let w4 = own_apply T ops sm i advanced w3
                     in if aer_Success reply then Some w4
                        else if node_role (own_node T i w4) \<noteq> Leader then Some w4
                        else replicateTo T ops sm i peerID w4)))))"

text \<open>The loop over the peers, one after the other, in \<^verbatim>\<open>Propose\<close> and \<^verbatim>\<open>heartbeat\<close>.\<close>

fun replicate_all ::
  "('s, 'a, 'w) transport \<Rightarrow> 's storage_ops \<Rightarrow> 'a machine \<Rightarrow> node_id \<Rightarrow> node_id list \<Rightarrow> 'w \<Rightarrow> 'w option" where
  "replicate_all T ops sm i [] w = Some w"
| "replicate_all T ops sm i (peerID # peerIDs) w =
     Option.bind (replicateTo T ops sm i peerID w) (replicate_all T ops sm i peerIDs)"

section \<open>Proposals and heartbeats\<close>

definition node_Propose ::
  "('s, 'a, 'w) transport \<Rightarrow> 's storage_ops \<Rightarrow> 'a machine \<Rightarrow> node_id \<Rightarrow> bytes \<Rightarrow> 'w \<Rightarrow> (log_index result \<times> 'w) option" where
  "node_Propose T ops sm i data w =
     (case own_section T i (\<lambda>n. case Propose ops data n of (r, advanced, n') \<Rightarrow> ((r, advanced), n')) w of
        ((Inl err, _), w1) \<Rightarrow> Some (Inl err, w1)
      | ((Inr index, advanced), w1) \<Rightarrow>
          (let w2 = own_apply T ops sm i advanced w1
           in if \<not> n_transport (own_node T i w1) then Some (Inr index, w2)
              else map_option (\<lambda>w3. (Inr index, w3)) (replicate_all T ops sm i (n_peerIDs (own_node T i w1)) w2)))"

definition ProposeConfiguration ::
  "('s, 'a, 'w) transport \<Rightarrow> 's storage_ops \<Rightarrow> 'a machine \<Rightarrow> node_id \<Rightarrow> configuration \<Rightarrow> 'w \<Rightarrow>
   (log_index result \<times> 'w) option" where
  "ProposeConfiguration T ops sm i cfg w =
     (case EncodeConfigurationEntry cfg of
        Inl err \<Rightarrow> Some (Inl (Wrapf ''encode configuration proposal'' [err]), w)
      | Inr data \<Rightarrow> node_Propose T ops sm i data w)"

definition heartbeat ::
  "('s, 'a, 'w) transport \<Rightarrow> 's storage_ops \<Rightarrow> 'a machine \<Rightarrow> node_id \<Rightarrow> 'w \<Rightarrow> 'w option" where
  "heartbeat T ops sm i w =
     (if node_role (own_node T i w) \<noteq> Leader then Some w
      else replicate_all T ops sm i (n_peerIDs (own_node T i w)) w)"

definition sendHeartbeat ::
  "('s, 'a, 'w) transport \<Rightarrow> 's storage_ops \<Rightarrow> 'a machine \<Rightarrow> node_id \<Rightarrow> node_id \<Rightarrow> 'w \<Rightarrow> 'w" where
  "sendHeartbeat T ops sm i peerID w =
     (if \<not> n_transport (own_node T i w) then w
      else case buildAppendEntries peerID (own_node T i w) of
        None \<Rightarrow> w
      | Some args \<Rightarrow>
          if ae_Entries args \<noteq> [] then w
          else (case tr_AppendEntries T peerID args w of
            (Inl err, w1) \<Rightarrow> w1
          | (Inr reply, w1) \<Rightarrow>
            (case own_section T i (handleAppendEntriesReply ops peerID args reply) w1 of
               (advanced, w2) \<Rightarrow> own_apply T ops sm i advanced w2)))"

definition node_advanceCommitIndex ::
  "('s, 'a, 'w) transport \<Rightarrow> 's storage_ops \<Rightarrow> 'a machine \<Rightarrow> node_id \<Rightarrow> 'w \<Rightarrow> 'w" where
  "node_advanceCommitIndex T ops sm i w =
     (case own_section T i advanceCommitIndexLocked w of (advanced, w1) \<Rightarrow> own_apply T ops sm i advanced w1)"

section \<open>Elections\<close>

fun pre_vote_loop ::
  "('s, 'a, 'w) transport \<Rightarrow> membership \<Rightarrow> pre_vote_args \<Rightarrow> node_id list \<Rightarrow> node_id set \<Rightarrow> 'w \<Rightarrow> bool \<times> 'w" where
  "pre_vote_loop T m args [] votes w = (False, w)"
| "pre_vote_loop T m args (peerID # peerIDs) votes w =
     (case tr_PreVote T peerID args w of
        (Inl err, w1) \<Rightarrow> pre_vote_loop T m args peerIDs votes w1
      | (Inr reply, w1) \<Rightarrow>
          if \<not> pvr_VoteGranted reply then pre_vote_loop T m args peerIDs votes w1
          else if membershipHasQuorum m (insert peerID votes) then (True, w1)
          else pre_vote_loop T m args peerIDs (insert peerID votes) w1)"

definition node_runPreVote :: "('s, 'a, 'w) transport \<Rightarrow> node_id \<Rightarrow> 'w \<Rightarrow> bool \<times> 'w" where
  "node_runPreVote T i w =
     (let n = own_node T i w; m = node_membership n
      in if \<not> membershipIsVoter m (n_id n) then (False, w)
         else if membershipHasQuorum m {n_id n} then (True, w)
         else if \<not> n_transport n then (False, w)
         else pre_vote_loop T m (preVoteArgs n) (n_peerIDs n) {n_id n} w)"

fun request_votes_loop ::
  "('s, 'a, 'w) transport \<Rightarrow> 's storage_ops \<Rightarrow> node_id \<Rightarrow> request_vote_args \<Rightarrow> node_id list \<Rightarrow> 'w \<Rightarrow> 'w" where
  "request_votes_loop T ops i args [] w = w"
| "request_votes_loop T ops i args (peerID # peerIDs) w =
     (case tr_RequestVote T peerID args w of
        (Inl err, w1) \<Rightarrow> request_votes_loop T ops i args peerIDs w1
      | (Inr reply, w1) \<Rightarrow>
          request_votes_loop T ops i args peerIDs
            (snd (own_section T i (\<lambda>n. ((), handleVoteReply ops (rv_Term args) reply n)) w1)))"

definition node_requestVotes :: "('s, 'a, 'w) transport \<Rightarrow> 's storage_ops \<Rightarrow> node_id \<Rightarrow> 'w \<Rightarrow> 'w" where
  "node_requestVotes T ops i w =
     (case requestVotes (own_node T i w) of
        None \<Rightarrow> w
      | Some (peerIDs, args) \<Rightarrow> request_votes_loop T ops i args peerIDs w)"

definition runElection :: "('s, 'a, 'w) transport \<Rightarrow> 's storage_ops \<Rightarrow> node_id \<Rightarrow> 'w \<Rightarrow> 'w" where
  "runElection T ops i w =
     (if \<not> runElection_begin (own_node T i w) then w
      else case node_runPreVote T i w of
        (won, w1) \<Rightarrow>
          (case own_section T i (runElection_start ops won) w1 of
             (False, w2) \<Rightarrow> w2
           | (True, w2) \<Rightarrow> snd (own_section T i tryBecomeLeader (node_requestVotes T ops i w2))))"

definition onElectionTimeout :: "('s, 'a, 'w) transport \<Rightarrow> 's storage_ops \<Rightarrow> node_id \<Rightarrow> 'w \<Rightarrow> 'w" where
  "onElectionTimeout T ops i w = (if node_role (own_node T i w) = Leader then w else runElection T ops i w)"

section \<open>The timer\<close>

definition Tick ::
  "('s, 'a, 'w) transport \<Rightarrow> 's storage_ops \<Rightarrow> 'a machine \<Rightarrow> node_id \<Rightarrow> 'w \<Rightarrow> (bool \<times> 'w) option" where
  "Tick T ops sm i w =
     (case own_section T i tick w of
        ((electionDue, due), w1) \<Rightarrow>
          if due then map_option (Pair electionDue) (heartbeat T ops sm i w1) else Some (electionDue, w1))"

text \<open>What the goroutines of a running node share: whether it runs and whether an election is in flight.\<close>

record run_state =
  rs_running :: bool
  rs_electionInFlight :: bool

definition node_Start :: "run_state \<Rightarrow> go_error option \<times> run_state" where
  "node_Start rs =
     (if rs_running rs then (Some (Message ''raft node is already running''), rs) else (None, rs\<lparr>rs_running := True\<rparr>))"

definition node_Stop :: "run_state \<Rightarrow> run_state" where
  "node_Stop rs = (if \<not> rs_running rs then rs else rs\<lparr>rs_running := False\<rparr>)"

definition node_IsRunning :: "run_state option \<Rightarrow> bool" where
  "node_IsRunning n = (case n of None \<Rightarrow> False | Some rs \<Rightarrow> rs_running rs)"

text \<open>The start of an election, unless one is in flight, run to its end.\<close>

definition startElectionIfNeeded ::
  "('s, 'a, 'w) transport \<Rightarrow> 's storage_ops \<Rightarrow> node_id \<Rightarrow> run_state \<Rightarrow> 'w \<Rightarrow> run_state \<times> 'w" where
  "startElectionIfNeeded T ops i rs w =
     (if rs_electionInFlight rs then (rs, w)
      else let rs1 = rs\<lparr>rs_electionInFlight := True\<rparr>; w1 = runElection T ops i w
           in (rs1\<lparr>rs_electionInFlight := False\<rparr>, w1))"

text \<open>One tick of the running node, with the goroutines it starts run to their end in the order in which they start.\<close>

definition runTick ::
  "('s, 'a, 'w) transport \<Rightarrow> 's storage_ops \<Rightarrow> 'a machine \<Rightarrow> node_id \<Rightarrow> run_state \<Rightarrow> 'w \<Rightarrow> (run_state \<times> 'w) option" where
  "runTick T ops sm i rs w =
     map_option (\<lambda>(electionDue, w1). if electionDue then startElectionIfNeeded T ops i rs w1 else (rs, w1)) (Tick T ops sm i w)"

section \<open>Waiting\<close>

text \<open>
  \<open>pause\<close> is one turn of the loops that wait: \<open>Inl\<close> the error of the context when it has ended, \<open>Inr\<close> the state after the next tick.
\<close>

partial_function (option) waitForApplied ::
  "('s, 'a, 'w) transport \<Rightarrow> ('w \<Rightarrow> go_error + 'w) \<Rightarrow> node_id \<Rightarrow> log_index \<Rightarrow> 'w \<Rightarrow> (go_error option \<times> 'w) option" where
  "waitForApplied T pause i targetIndex w =
     (if node_applied (own_node T i w) \<ge> targetIndex then Some (None, w)
      else if node_role (own_node T i w) \<noteq> Leader
      then Some (Some (Message ''leader lost while waiting for index to apply''), w)
      else case pause w of
        Inl err \<Rightarrow> Some (Some (Wrapf ''timed out waiting for index to apply'' [err]), w)
      | Inr w1 \<Rightarrow> waitForApplied T pause i targetIndex w1)"

partial_function (option) node_WaitApplied ::
  "('s, 'a, 'w) transport \<Rightarrow> ('w \<Rightarrow> go_error + 'w) \<Rightarrow> node_id \<Rightarrow> log_index \<Rightarrow> 'w \<Rightarrow> (go_error option \<times> 'w) option" where
  "node_WaitApplied T pause i index w =
     (if node_applied (own_node T i w) \<ge> index then Some (None, w)
      else case pause w of
        Inl err \<Rightarrow> Some (Some err, w)
      | Inr w1 \<Rightarrow> node_WaitApplied T pause i index w1)"

section \<open>Membership changes\<close>

partial_function (option) catchUpPeer ::
  "('s, 'a, 'w) transport \<Rightarrow> 's storage_ops \<Rightarrow> 'a machine \<Rightarrow> ('w \<Rightarrow> go_error option) \<Rightarrow> node_id \<Rightarrow> node_id \<Rightarrow> log_index \<Rightarrow> 'w \<Rightarrow>
   (go_error option \<times> 'w) option" where
  "catchUpPeer T ops sm ctxErr i peerID targetIndex w =
     (if node_role (own_node T i w) \<noteq> Leader then Some (Some (Message ''leader lost while catching up peer''), w)
      else if map_index (MatchIndex (LeaderProgress (n_state (own_node T i w)))) peerID \<ge> targetIndex then Some (None, w)
      else case ctxErr w of
        Some err \<Rightarrow> Some (Some (Wrapf ''timed out catching up peer'' [err]), w)
      | None \<Rightarrow>
          Option.bind (replicateTo T ops sm i peerID w) (catchUpPeer T ops sm ctxErr i peerID targetIndex))"

text \<open>What the membership changes call: the transport, the storage, the state machine, the context (is there one, and its error) and the pause.\<close>

record ('s, 'a, 'w) drive =
  dr_T :: "('s, 'a, 'w) transport"
  dr_ops :: "'s storage_ops"
  dr_sm :: "'a machine"
  dr_ctx :: bool
  dr_ctxErr :: "'w \<Rightarrow> go_error option"
  dr_pause :: "'w \<Rightarrow> go_error + 'w"

definition fail_with :: "string \<Rightarrow> go_error \<Rightarrow> 'w \<Rightarrow> (go_error option \<times> 'w) option" where
  "fail_with msg err w = Some (Some (Wrapf msg [err]), w)"

text \<open>Encode, propose, wait.\<close>

definition change_step ::
  "('s, 'a, 'w) drive \<Rightarrow> node_id \<Rightarrow> string \<Rightarrow> bytes result \<Rightarrow> 'w \<Rightarrow> (go_error option \<times> 'w) option" where
  "change_step D i what data w =
     (case data of
        Inl err \<Rightarrow> fail_with (''encode '' @ what) err w
      | Inr bs \<Rightarrow>
          Option.bind (node_Propose (dr_T D) (dr_ops D) (dr_sm D) i bs w) (\<lambda>(r, w1).
            case r of
              Inl err \<Rightarrow> fail_with (''propose '' @ what) err w1
            | Inr index \<Rightarrow>
                Option.bind (waitForApplied (dr_T D) (dr_pause D) i index w1) (\<lambda>(e, w2).
                  case e of Some err \<Rightarrow> fail_with (''wait for '' @ what) err w2 | None \<Rightarrow> Some (None, w2))))"

text \<open>The next step of a sequence that stops at the first error.\<close>

definition and_then ::
  "(go_error option \<times> 'w) option \<Rightarrow> ('w \<Rightarrow> (go_error option \<times> 'w) option) \<Rightarrow> (go_error option \<times> 'w) option" where
  "and_then r k = Option.bind r (\<lambda>(e, w). case e of Some err \<Rightarrow> Some (Some err, w) | None \<Rightarrow> k w)"

definition catch_up_step ::
  "('s, 'a, 'w) drive \<Rightarrow> node_id \<Rightarrow> node_id \<Rightarrow> string \<Rightarrow> 'w \<Rightarrow> (go_error option \<times> 'w) option" where
  "catch_up_step D i peerID msg w =
     Option.bind (catchUpPeer (dr_T D) (dr_ops D) (dr_sm D) (dr_ctxErr D) i peerID (LastIndex (n_log (own_node (dr_T D) i w))) w)
       (\<lambda>(e, w1). case e of Some err \<Rightarrow> fail_with msg err w1 | None \<Rightarrow> Some (None, w1))"

definition AddMember ::
  "('s, 'a, 'w) drive \<Rightarrow> node_id \<Rightarrow> node_id \<Rightarrow> 'w \<Rightarrow> (go_error option \<times> 'w) option" where
  "AddMember D i peerID w =
     (if peerID = [] then Some (Some (Message ''raft member ID is required''), w)
      else if \<not> dr_ctx D then Some (Some (Message ''raft: AddMember context is nil''), w)
      else case validateAddMemberLocked peerID (own_node (dr_T D) i w) of
        Inl err \<Rightarrow> Some (Some err, w)
      | Inr (old, new) \<Rightarrow>
          (let w1 = snd (own_section (dr_T D) i (\<lambda>n. ((), initializeNewPeerReplicationStateLocked peerID n)) w)
           in and_then (catch_up_step D i peerID ''catch up new member'' w1) (\<lambda>w2.
              and_then (change_step D i ''enter-joint configuration'' (EncodeEnterJointConfigurationEntry old new) w2) (\<lambda>w3.
              Option.bind (replicateTo (dr_T D) (dr_ops D) (dr_sm D) i peerID w3) (\<lambda>w4.
              and_then (catch_up_step D i peerID ''catch up member through joint configuration'' w4) (\<lambda>w5.
              and_then (change_step D i ''leave-joint configuration'' (EncodeLeaveJointConfigurationEntry new) w5) (\<lambda>w6.
                let m = node_membership (own_node (dr_T D) i w6)
                in if Joint m \<noteq> None then Some (Some (Message ''member added but membership is still joint''), w6)
                   else if \<not> configurationContainsVoter (Current m) peerID
                   then Some (Some (Message ''member was not present in final membership''), w6)
                   else Some (None, w6))))))))"

definition RemoveMember ::
  "('s, 'a, 'w) drive \<Rightarrow> node_id \<Rightarrow> node_id \<Rightarrow> 'w \<Rightarrow> (go_error option \<times> 'w) option" where
  "RemoveMember D i peerID w =
     (if peerID = [] then Some (Some (Message ''raft member ID is required''), w)
      else if \<not> dr_ctx D then Some (Some (Message ''raft: RemoveMember context is nil''), w)
      else case validateRemoveMemberLocked peerID (own_node (dr_T D) i w) of
        Inl err \<Rightarrow> Some (Some err, w)
      | Inr (old, new) \<Rightarrow>
          and_then (change_step D i ''enter-joint configuration'' (EncodeEnterJointConfigurationEntry old new) w) (\<lambda>w1.
          and_then (change_step D i ''leave-joint configuration'' (EncodeLeaveJointConfigurationEntry new) w1) (\<lambda>w2.
            let m = node_membership (own_node (dr_T D) i w2)
            in if Joint m \<noteq> None
               then Some (Some (Message ''member removal completed with joint configuration still active''), w2)
               else if membershipIsVoter m peerID then Some (Some (Message ''member is still present after removal''), w2)
               else Some (None, w2))))"

end
