(* ===== verification/Raft_Repair.thy ===== *)
theory Raft_Repair
  imports Raft_Drive Local_Transport Storage_Memory
begin

text \<open>
  Log repair: \<^verbatim>\<open>replicateTo\<close> against a peer whose log has diverged.  The leader steps back one entry at a time until the
  logs agree, and then the follower takes over the leader's log.  The loop ends, unless the follower refuses for another reason.
\<close>

section \<open>Logs that have not been compacted\<close>

definition plain_log :: "log_entry list \<Rightarrow> 's raft_node \<Rightarrow> bool" where
  "plain_log xs n \<longleftrightarrow> n_log n = \<lparr>log_entries = xs, lastIncludedIndex = 0, lastIncludedTerm = 0\<rparr> \<and>
     contiguous 0 xs \<and> Suc (length xs) < 2 ^ 64"

text \<open>On a memory storage that holds the same entries.\<close>

definition whole_log :: "log_entry list \<Rightarrow> memory_storage raft_node \<Rightarrow> bool" where
  "whole_log xs n \<longleftrightarrow> plain_log xs n \<and> ms_entries (n_storage n) = xs \<and> ms_snapshot (n_storage n) = None"

definition log_matching :: "log_entry list \<Rightarrow> log_entry list \<Rightarrow> bool" where
  "log_matching xs ys \<longleftrightarrow> (\<forall>k. k < length xs \<longrightarrow> k < length ys \<longrightarrow> Term (xs ! k) = Term (ys ! k) \<longrightarrow> take (Suc k) xs = take (Suc k) ys)"

lemma plain_log_Get:
  "plain_log xs n \<Longrightarrow> log_Get (n_log n) k = (if 0 < k \<and> k \<le> length xs then Some (xs ! (k - 1)) else None)"
  using contiguous_find [of 0 xs k] by (cases "k = 0") (simp_all add: plain_log_def log_Get_def)

lemma plain_log_LastIndex: "plain_log xs n \<Longrightarrow> LastIndex (n_log n) = length xs"
  using contiguous_last [of 0 xs] by (auto simp: plain_log_def LastIndex_def)

section \<open>The first entry that differs\<close>

lemma first_new_diverging:
  assumes "plain_log xs n" "contiguous 0 ys" "log_matching xs ys" "k \<le> length ys" "take k xs = take k ys"
  shows "(first_new (n_log n) (drop k ys) = None \<and> take (length ys) xs = ys) \<or>
    (\<exists>m < length ys. k \<le> m \<and> take m xs = take m ys \<and>
       first_new (n_log n) (drop k ys) = Some (if m < length xs then Suc m else 0, drop m ys))"
  using assms(4,5)
proof (induction "length ys - k" arbitrary: k)
  case 0
  then show ?case by simp
next
  case (Suc d)
  then have k: "k < length ys" by simp
  then have ys: "drop k ys = ys ! k # drop (Suc k) ys" by (rule Cons_nth_drop_Suc [symmetric])
  have idx: "Index (ys ! k) = Suc k" using contiguous_nth [OF assms(2) k] by simp
  have len: "k \<le> length xs" using arg_cong [OF Suc.prems(2), of length] k by simp
  show ?case
  proof (cases "k < length xs \<and> Term (xs ! k) = Term (ys ! k)")
    case True
    then have t: "take (Suc k) xs = take (Suc k) ys" using assms(3) k by (simp add: log_matching_def)
    have f: "first_new (n_log n) (drop k ys) = first_new (n_log n) (drop (Suc k) ys)"
      using True by (simp add: ys plain_log_Get [OF assms(1)] idx)
    have "d = length ys - Suc k" using Suc.hyps(2) by simp
    from Suc.hyps(1) [OF this Suc_leI [OF k] t] show ?thesis unfolding f by (meson Suc_leD)
  next
    case False
    then have "first_new (n_log n) (drop k ys) = Some (if k < length xs then Suc k else 0, drop k ys)"
      by (auto simp: ys plain_log_Get [OF assms(1)] idx)
    with k Suc.prems(2) show ?thesis by blast
  qed
qed

lemma reconcile_whole:
  assumes "whole_log xs n" "contiguous 0 ys" "Suc (length ys) < 2 ^ 64" "log_matching xs ys" "k \<le> length ys" "take k xs = take k ys"
  shows "\<exists>zs n'. reconcileReplicatedEntriesLocked memory_ops (drop k ys) n = (None, n') \<and> whole_log zs n' \<and> take (length ys) zs = ys \<and>
    n_state n' = n_state n"
proof -
  note n = assms(1) [unfolded whole_log_def plain_log_def]
  have plain: "plain_log xs n" using assms(1) by (simp add: whole_log_def)
  consider "first_new (n_log n) (drop k ys) = None" "take (length ys) xs = ys"
    | m where "m < length ys" "k \<le> m" "take m xs = take m ys"
      "first_new (n_log n) (drop k ys) = Some (if m < length xs then Suc m else 0, drop m ys)"
    using first_new_diverging [OF plain assms(2,4-6)] by (elim disjE exE conjE) blast+
  then show ?thesis
  proof cases
    case 1
    with assms(1) show ?thesis by (auto simp: reconcileReplicatedEntriesLocked_def)
  next
    case 2
    have ct: "contiguous m (drop m ys)" using contiguous_drop [OF assms(2), of m] 2(1) by simp
    have valid: "validateEntries (drop m ys) = None"
      using validateEntries_contiguous [OF ct] 2(1) assms(3) by simp
    have hd: "Index (hd (drop m ys)) = Suc m" "drop m ys \<noteq> []" using contiguous_nth [OF assms(2) 2(1)] 2(1) by (simp_all add: hd_drop_conv_nth)
    have len: "m \<le> length xs" using arg_cong [OF 2(3), of length] 2(1) by simp
    have glue: "take m xs @ drop m ys = ys" using 2(3) by simp
    let ?l = "\<lparr>log_entries = take m xs, lastIncludedIndex = 0, lastIncludedTerm = 0\<rparr>"
    let ?n = "n\<lparr>n_storage := (n_storage n)\<lparr>ms_entries := ys\<rparr>, n_log := \<lparr>log_entries = ys, lastIncludedIndex = 0, lastIncludedTerm = 0\<rparr>\<rparr>"
    have last: "LastIndex ?l = m" using contiguous_last [OF contiguous_take, of 0 xs m] n len by (auto simp: LastIndex_def)
    then have app: "log_append_all ?l (drop m ys) = (None, \<lparr>log_entries = ys, lastIncludedIndex = 0, lastIncludedTerm = 0\<rparr>)"
      using log_append_all_contiguous [of ?l "drop m ys"] ct 2(1) assms(3) glue by simp
    have keep: "takeWhile (\<lambda>e. \<not> Suc m \<le> Index e) xs = take m xs" using contiguous_takeWhile [of 0 xs "Suc m"] n by simp
    have "reconcileReplicatedEntriesLocked memory_ops (drop k ys) n = (None, ?n)"
    proof (cases "m < length xs")
      case True
      have "op_ReplaceSuffix memory_ops (Suc m) (drop m ys) (n_storage n) = (None, (n_storage n)\<lparr>ms_entries := ys\<rparr>)"
        using n keep glue valid hd True by (simp add: memory_defs validateReplaceSuffix_def Let_def not_le)
      moreover have "TruncateFrom (n_log n) (Suc m) = ?l" using n keep by (simp add: TruncateFrom_def)
      ultimately show ?thesis using True 2(4) app by (simp add: reconcileReplicatedEntriesLocked_def memory_defs)
    next
      case False
      with len have m: "m = length xs" by simp
      then have "xs \<noteq> [] \<Longrightarrow> inc64 (Index (last xs)) = Suc m" using n contiguous_last [of 0 xs] by (simp add: inc64_Suc)
      then have "op_AppendEntries memory_ops (drop m ys) (n_storage n) = (None, (n_storage n)\<lparr>ms_entries := ys\<rparr>)"
        using n glue valid hd m by (auto simp: memory_defs validateAppend_def)
      moreover have "n_log n = ?l" using n m by simp
      ultimately show ?thesis using False 2(4) app by (simp add: reconcileReplicatedEntriesLocked_def memory_defs)
    qed
    moreover have "whole_log ys ?n" using n assms(2,3) by (simp add: whole_log_def plain_log_def)
    ultimately show ?thesis by auto
  qed
qed

section \<open>One request and its answer\<close>

definition repair_request :: "raft_term \<Rightarrow> node_id \<Rightarrow> log_entry list \<Rightarrow> log_index \<Rightarrow> log_index \<Rightarrow> append_entries_args" where
  "repair_request t i ys k commit = \<lparr>ae_Term = t, ae_LeaderID = i, ae_PrevLogIndex = k - 1,
     ae_PrevLogTerm = (if 1 < k then Term (ys ! (k - 2)) else 0), ae_Entries = drop (k - 1) ys, ae_LeaderCommit = commit\<rparr>"

lemma repair_request_simps [simp]:
  "ae_Term (repair_request t i ys k c) = t" "ae_LeaderID (repair_request t i ys k c) = i"
  "ae_PrevLogIndex (repair_request t i ys k c) = k - 1" "ae_Entries (repair_request t i ys k c) = drop (k - 1) ys"
  "ae_LeaderCommit (repair_request t i ys k c) = c"
  by (simp_all add: repair_request_def)

lemma those_map_Some: "(\<And>x. x \<in> set xs \<Longrightarrow> f x = Some (g x)) \<Longrightarrow> those (map f xs) = Some (map g xs)"
  by (induction xs) auto

lemma buildAppendEntries_repair:
  assumes "plain_log ys n" "node_role n = Leader" "fmlookup (NextIndex (LeaderProgress (n_state n))) j = Some k" "0 < k" "k \<le> Suc (length ys)"
  shows "buildAppendEntries j n = Some (repair_request (node_term n) (n_id n) ys k (node_commit n))"
proof -
  have "those (map (log_Get (n_log n)) [k ..< length ys + 1]) = Some (map (\<lambda>m. ys ! (m - 1)) [k ..< length ys + 1])"
    using assms(4) by (intro those_map_Some) (auto simp: plain_log_Get [OF assms(1)])
  moreover have "map (\<lambda>m. ys ! (m - 1)) [k ..< length ys + 1] = drop (k - 1) ys"
    using assms(4) by (intro nth_equalityI) (simp_all del: upt_Suc)
  ultimately show ?thesis
    using assms(2-5) plain_log_Get [OF assms(1), of "k - 1"] le_diff_conv [of k 1 "length ys"]
    by (simp add: buildAppendEntries_def plain_log_LastIndex [OF assms(1)] repair_request_def Let_def numeral_2_eq_2 del: upt_Suc)
qed

lemma whole_log_state [simp]:
  "whole_log xs (n\<lparr>n_state := st\<rparr>) = whole_log xs n" "whole_log xs (n\<lparr>n_electionElapsed := e\<rparr>) = whole_log xs n"
  "whole_log xs (set_commit c n) = whole_log xs n" "whole_log xs (set_applied c n) = whole_log xs n"
  "whole_log xs (n\<lparr>n_storage := (n_storage n)\<lparr>ms_state := p\<rparr>\<rparr>) = whole_log xs n"
  by (simp_all add: whole_log_def plain_log_def set_commit_def set_applied_def)

lemma adopt_term_memory:
  "adopt_term memory_ops t n = (True, n\<lparr>n_storage := (n_storage n)\<lparr>ms_state := (node_persistent n)\<lparr>CurrentTerm := t, VotedFor := []\<rparr>\<rparr>,
     n_state := (n_state n)\<lparr>Persistent := (node_persistent n)\<lparr>CurrentTerm := t, VotedFor := []\<rparr>, Role := Follower, LeaderID := []\<rparr>\<rparr>)"
  by (simp add: adopt_term_def persist_def memory_defs Let_def)

lemma append_in_term_repair:
  assumes "whole_log xs f" "contiguous 0 ys" "Suc (length ys) < 2 ^ 64" "log_matching xs ys" "0 < k" "k \<le> Suc (length ys)" "node_term f = t"
  shows "\<exists>reply adv f' zs. append_in_term memory_ops (repair_request t i ys k c) f = ((reply, adv), f') \<and> aer_Term reply = t \<and>
    node_term f' = t \<and> whole_log zs f' \<and>
    (if aer_Success reply then take (length ys) zs = ys else 1 < k \<and> zs = xs \<and> \<not> adv)"
proof -
  let ?args = "repair_request t i ys k c"
  let ?refused = "0 < k - 1 \<and> (case log_Get (n_log f) (k - 1) of None \<Rightarrow> True | Some e \<Rightarrow> Term e \<noteq> ae_PrevLogTerm ?args)"
  show ?thesis
  proof (cases ?refused)
    case True
    then have "append_in_term memory_ops ?args f = ((\<lparr>aer_Term = t, aer_FollowerID = n_id f, aer_Success = False\<rparr>, False), f)"
      using assms(7) by (simp add: append_in_term_def Let_def)
    with True assms(1,7) show ?thesis by auto
  next
    case False
    have agree: "take (k - 1) xs = take (k - 1) ys"
    proof (cases "k = 1")
      case False
      with \<open>\<not> ?refused\<close> assms(5) have "k - 1 \<le> length xs" "Term (xs ! (k - 2)) = Term (ys ! (k - 2))"
        using plain_log_Get [of xs f] assms(1) by (auto simp: whole_log_def repair_request_def numeral_2_eq_2 split: if_splits)
      with assms(4,5,6) False have "take (Suc (k - 2)) xs = take (Suc (k - 2)) ys" unfolding log_matching_def by auto
      moreover have "Suc (k - 2) = k - 1" using False assms(5) by simp
      ultimately show ?thesis by simp
    qed simp
    let ?f = "f\<lparr>n_state := (n_state f)\<lparr>Role := Follower, LeaderID := i\<rparr>, n_electionElapsed := 0\<rparr>"
    have w: "whole_log xs ?f" using assms(1) by (simp add: whole_log_def plain_log_def)
    have "k - 1 \<le> length ys" using assms(6) by simp
    from reconcile_whole [OF w assms(2,3,4) this agree] obtain zs f1 where
      f1: "reconcileReplicatedEntriesLocked memory_ops (drop (k - 1) ys) ?f = (None, f1)" "whole_log zs f1" "take (length ys) zs = ys"
        "n_state f1 = n_state ?f" by auto
    obtain adv f2 where f2: "advance_follower_commit c f1 = (adv, f2)" by fastforce
    then have "whole_log zs f2" "node_term f2 = node_term f1"
      using f1(2) by (auto simp: advance_follower_commit_def set_commit_def Let_def whole_log_def plain_log_def split: if_splits)
    moreover have "append_in_term memory_ops ?args f = ((\<lparr>aer_Term = t, aer_FollowerID = n_id f, aer_Success = True\<rparr>, adv), f2)"
      using False f1(1) f2 assms(7) by (auto simp: append_in_term_def Let_def)
    ultimately show ?thesis using f1(3,4) assms(7) by auto
  qed
qed

lemma AppendEntries_repair:
  assumes "whole_log xs f" "contiguous 0 ys" "Suc (length ys) < 2 ^ 64" "log_matching xs ys" "0 < k" "k \<le> Suc (length ys)" "node_term f \<le> t"
  shows "\<exists>reply adv f' zs. AppendEntries memory_ops (repair_request t i ys k c) f = ((reply, adv), f') \<and> aer_Term reply = t \<and>
    node_term f' = t \<and> whole_log zs f' \<and>
    (if aer_Success reply then take (length ys) zs = ys else 1 < k \<and> zs = xs \<and> \<not> adv)"
proof (cases "node_term f = t")
  case True
  then show ?thesis using append_in_term_repair [OF assms(1-6) True, of i c] by (simp add: AppendEntries_def Let_def)
next
  case False
  let ?f = "snd (adopt_term memory_ops t f)"
  have "whole_log xs ?f" "node_term ?f = t" using assms(1) by (simp_all add: adopt_term_memory whole_log_def plain_log_def)
  from append_in_term_repair [OF this(1) assms(2-6) this(2), of i c] False assms(7) show ?thesis
    by (simp add: AppendEntries_def adopt_term_memory Let_def)
qed

lemma applyCommitted_keeps:
  assumes "P n" "\<And>n out n'. P n \<Longrightarrow> applyNext ops n = (out, n') \<Longrightarrow> P n'" "\<And>n k. P n \<Longrightarrow> P (set_applied k n)"
  shows "P (snd (applyCommitted ops n))"
  using assms
proof (induction ops n rule: applyCommitted.induct)
  case (1 ops n)
  obtain out n' where run: "applyNext ops n = (out, n')" by fastforce
  have w: "P n'" using 1(4) [OF 1(3) run] .
  show ?case
  proof (cases out)
    case (ApplySend e)
    have "P (markApplied (node_applied n + 1) n')" using w 1(5) by (simp add: markApplied_def)
    with run 1(2) [OF run [symmetric] ApplySend _ 1(4,5)] ApplySend show ?thesis
      by (simp add: applyCommitted.simps [of ops n] case_prod_beta)
  next
    case ApplyContinue
    with run 1(1) [OF run [symmetric] ApplyContinue w 1(4,5)] show ?thesis by (simp add: applyCommitted.simps [of ops n])
  qed (use run w in \<open>simp add: applyCommitted.simps [of ops n]\<close>)
qed

definition leads_with :: "log_entry list \<Rightarrow> leader_state \<Rightarrow> memory_storage raft_node \<Rightarrow> bool" where
  "leads_with ys lp n \<longleftrightarrow> whole_log ys n \<and> LeaderProgress (n_state n) = lp"

lemma applyCommitted_leads_with: "leads_with ys lp n \<Longrightarrow> leads_with ys lp (snd (applyCommitted memory_ops n))"
proof (rule applyCommitted_keeps)
  show "leads_with ys lp n'" if "leads_with ys lp n" "applyNext memory_ops n = (out, n')" for n out n'
    using that by (auto simp: applyNext_def applyConfigurationEntryLocked_def becomeFollowerLocked_def memory_defs leads_with_def whole_log_def plain_log_def
        set_applied_def Let_def split: if_splits option.splits prod.splits sum.splits)
  show "leads_with ys lp (set_applied k n)" if "leads_with ys lp n" for n k
    using that by (simp add: leads_with_def set_applied_def)
qed

lemma run_committed_leads_with:
  "leads_with ys lp (p_node p) \<Longrightarrow> leads_with ys lp (p_node (run_committed memory_ops sm adv p))"
  using applyCommitted_leads_with by (auto simp: run_committed_def split: prod.split) (metis snd_conv)

lemma advanceCommit_leads_with: "leads_with ys lp n \<Longrightarrow> leads_with ys lp (snd (advanceCommitIndexLocked n))"
proof -
  have "leads_with ys lp (fold commit_step is n)" if "leads_with ys lp n" for "is" n
    using that by (induction "is" arbitrary: n) (auto simp: commit_step_def leads_with_def set_commit_def whole_log_def plain_log_def)
  then show "leads_with ys lp n \<Longrightarrow> ?thesis" by (simp add: advanceCommitIndexLocked_def Let_def)
qed

section \<open>The loop\<close>

text \<open>The leader \<open>i\<close> has the log \<open>ys\<close>, is about to send from \<open>k\<close> to \<open>j\<close>, whose log is \<open>xs\<close>.\<close>

definition repairing ::
  "(memory_storage, 'a, 'w) transport \<Rightarrow> node_id \<Rightarrow> node_id \<Rightarrow> log_entry list \<Rightarrow> log_entry list \<Rightarrow> log_index \<Rightarrow> 'w \<Rightarrow> bool" where
  "repairing T i j ys xs k w \<longleftrightarrow>
     (let n = own_node T i w; f = own_node T j w
      in i \<noteq> j \<and> n_id n = i \<and> node_role n = Leader \<and> n_transport n \<and> whole_log ys n \<and>
         fmlookup (NextIndex (LeaderProgress (n_state n))) j = Some k \<and> 0 < k \<and> k \<le> Suc (length ys) \<and>
         whole_log xs f \<and> node_term f \<le> node_term n \<and> log_matching xs ys)"

lemma handle_accepted:
  assumes "leads_with ys lp n" "node_role n = Leader" "aer_Term reply = node_term n" "aer_Success reply" "0 < k"
    and "handleAppendEntriesReply memory_ops j (repair_request (node_term n) i ys k c) reply n = (adv, n')"
  shows "\<exists>lp'. leads_with ys lp' n' \<and> (k \<le> length ys \<longrightarrow> length ys \<le> map_index (MatchIndex lp') j)"
proof (cases "k \<le> length ys")
  case False
  with assms have "n' = n" by (simp add: handleAppendEntriesReply_def)
  with assms(1) False show ?thesis by auto
next
  case True
  have ys: "contiguous 0 ys" using assms(1) by (simp add: leads_with_def whole_log_def plain_log_def)
  have last: "Index (last ys) = length ys" using contiguous_last [OF ys] True assms(5) by (cases "ys = []") simp_all
  define lp' where "lp' = (if length ys > map_index (MatchIndex lp) j then set_progress j (inc64 (length ys)) (length ys) lp else lp)"
  define n1 where "n1 = n\<lparr>n_state := (n_state n)\<lparr>LeaderProgress := lp'\<rparr>\<rparr>"
  have "leads_with ys lp' n1" using assms(1) by (simp add: leads_with_def n1_def)
  moreover have "snd (advanceCommitIndexLocked n1) = n'"
    using assms(2-4,6) True assms(5) assms(1)
    by (auto simp: handleAppendEntriesReply_def last Let_def n1_def lp'_def leads_with_def split: if_splits)
  ultimately have "leads_with ys lp' n'" using advanceCommit_leads_with [of ys lp' n1] by simp
  moreover have "length ys \<le> map_index (MatchIndex lp') j" by (simp add: lp'_def set_progress_def map_index_def)
  ultimately show ?thesis by blast
qed

lemma handle_refused:
  assumes "node_role n = Leader" "aer_Term reply = node_term n" "\<not> aer_Success reply" "1 < k"
    and "fmlookup (NextIndex (LeaderProgress (n_state n))) j = Some k"
  shows "\<exists>lp. handleAppendEntriesReply ops j (repair_request (node_term n) i ys k c) reply n =
      (False, n\<lparr>n_state := (n_state n)\<lparr>LeaderProgress := lp\<rparr>\<rparr>) \<and> fmlookup (NextIndex lp) j = Some (k - 1)"
  using assms
  by (intro exI [of _ "(LeaderProgress (n_state n))\<lparr>NextIndex := fmupd j (k - 1) (NextIndex (LeaderProgress (n_state n)))\<rparr>"])
    (simp add: handleAppendEntriesReply_def map_index_def Let_def)

lemma replicateTo_step:
  assumes "peer_transport T memory_ops sm connected" "repairing T i j ys xs k w" "connected w i j"
  obtains reply adv f zs n' advanced w4 where
    "AppendEntries memory_ops (repair_request (node_term (own_node T i w)) i ys k (node_commit (own_node T i w))) (own_node T j w) = ((reply, adv), f)"
    "aer_Term reply = node_term (own_node T i w)" "node_term f = node_term (own_node T i w)" "whole_log zs f"
    "if aer_Success reply then take (length ys) zs = ys else 1 < k \<and> zs = xs \<and> \<not> adv"
    "handleAppendEntriesReply memory_ops j (repair_request (node_term (own_node T i w)) i ys k (node_commit (own_node T i w))) reply
       (own_node T i w) = (advanced, n')"
    "replicateTo T memory_ops sm i j w =
       (if aer_Success reply \<or> node_role (own_node T i w4) \<noteq> Leader then Some w4 else replicateTo T memory_ops sm i j w4)"
    "tr_peer T w4 = (tr_peer T w)(j := run_committed memory_ops sm adv ((tr_peer T w j)\<lparr>p_node := f\<rparr>),
       i := run_committed memory_ops sm advanced ((tr_peer T w i)\<lparr>p_node := n'\<rparr>))" "connected w4 = connected w"
proof -
  let ?n = "own_node T i w" and ?f = "own_node T j w"
  let ?args = "repair_request (node_term ?n) i ys k (node_commit ?n)"
  note rep = assms(2) [unfolded repairing_def Let_def] and upd = peer_transport.peer_update [OF assms(1)]
  have lead: "whole_log ys ?n" "node_role ?n = Leader" "n_transport ?n" "n_id ?n = i"
    "fmlookup (NextIndex (LeaderProgress (n_state ?n))) j = Some k" "0 < k" "k \<le> Suc (length ys)" "i \<noteq> j" using rep by simp_all
  have build: "buildAppendEntries j ?n = Some ?args" using buildAppendEntries_repair [OF _ lead(2,5-7)] lead(1,4) by (simp add: whole_log_def)
  have "ms_snapshot (n_storage ?n) = None" using lead(1) by (simp add: whole_log_def)
  then have snap: "sendInstallSnapshot T memory_ops sm i j w = (False, w)"
    by (simp add: sendInstallSnapshot_def buildInstallSnapshot_def memory_defs zero_snapshot_def split: option.split)
  have "contiguous 0 ys" "Suc (length ys) < 2 ^ 64" using lead(1) by (simp_all add: whole_log_def plain_log_def)
  with AppendEntries_repair [of xs ?f ys k "node_term ?n" i "node_commit ?n"] rep obtain reply adv f zs where
    f: "AppendEntries memory_ops ?args ?f = ((reply, adv), f)" "aer_Term reply = node_term ?n" "node_term f = node_term ?n" "whole_log zs f"
      "if aer_Success reply then take (length ys) zs = ys else 1 < k \<and> zs = xs \<and> \<not> adv" by blast
  have ae: "peer_AppendEntries memory_ops sm ?args (tr_peer T w j) = (reply, run_committed memory_ops sm adv ((tr_peer T w j)\<lparr>p_node := f\<rparr>))"
    using f(1) by (simp add: peer_AppendEntries_def)
  have "connected w (ae_LeaderID ?args) j" using assms(3) by simp
  from peer_transport.AppendEntries_connected [OF assms(1) this] ae obtain w1 where
    w1: "tr_AppendEntries T j ?args w = (Inr reply, w1)" "connected w1 = connected w"
      "tr_peer T w1 = (tr_peer T w)(j := run_committed memory_ops sm adv ((tr_peer T w j)\<lparr>p_node := f\<rparr>))" by auto
  obtain advanced n' where h: "handleAppendEntriesReply memory_ops j ?args reply ?n = (advanced, n')" by fastforce
  define w4 where "w4 = own_apply T memory_ops sm i advanced (tr_update T i ((tr_peer T w1 i)\<lparr>p_node := n'\<rparr>) w1)"
  have "own_section T i (handleAppendEntriesReply memory_ops j ?args reply) w1 = (advanced, tr_update T i ((tr_peer T w1 i)\<lparr>p_node := n'\<rparr>) w1)"
    using h lead(8) by (simp add: own_section_def w1(3))
  then have "replicateTo T memory_ops sm i j w =
       (if aer_Success reply \<or> node_role (own_node T i w4) \<noteq> Leader then Some w4 else replicateTo T memory_ops sm i j w4)"
    using build snap w1(1) lead(3) by (subst replicateTo.simps) (simp add: w4_def Let_def)
  moreover have "tr_peer T w4 = (tr_peer T w)(j := run_committed memory_ops sm adv ((tr_peer T w j)\<lparr>p_node := f\<rparr>),
       i := run_committed memory_ops sm advanced ((tr_peer T w i)\<lparr>p_node := n'\<rparr>))"
    using lead(8) by (simp add: w4_def own_apply_def upd w1(3))
  moreover have "connected w4 = connected w"
    using peer_transport.connected_update [OF assms(1)] by (simp add: w4_def own_apply_def w1(2))
  ultimately show thesis using that [OF f h] by blast
qed

lemma replicateTo_repairs:
  assumes "peer_transport T memory_ops sm connected" "repairing T i j ys xs k w" "connected w i j"
  shows "\<exists>w' zs. replicateTo T memory_ops sm i j w = Some w' \<and> whole_log ys (own_node T i w') \<and> whole_log zs (own_node T j w') \<and>
    take (length ys) zs = ys \<and>
    (k \<le> length ys \<longrightarrow> length ys \<le> map_index (MatchIndex (LeaderProgress (n_state (own_node T i w')))) j)"
  using assms(2,3)
proof (induction k arbitrary: w rule: less_induct)
  case (less k w)
  note rep = less.prems(1) [unfolded repairing_def Let_def]
  then have ij: "j \<noteq> i" by auto
  obtain reply adv f zs n' advanced w4 where s: "aer_Term reply = node_term (own_node T i w)" "node_term f = node_term (own_node T i w)"
    "whole_log zs f" "if aer_Success reply then take (length ys) zs = ys else 1 < k \<and> zs = xs \<and> \<not> adv"
    "handleAppendEntriesReply memory_ops j (repair_request (node_term (own_node T i w)) i ys k (node_commit (own_node T i w))) reply
       (own_node T i w) = (advanced, n')"
    "replicateTo T memory_ops sm i j w =
       (if aer_Success reply \<or> node_role (own_node T i w4) \<noteq> Leader then Some w4 else replicateTo T memory_ops sm i j w4)"
    "tr_peer T w4 = (tr_peer T w)(j := run_committed memory_ops sm adv ((tr_peer T w j)\<lparr>p_node := f\<rparr>),
       i := run_committed memory_ops sm advanced ((tr_peer T w i)\<lparr>p_node := n'\<rparr>))" "connected w4 = connected w"
    by (rule replicateTo_step [OF assms(1) less.prems])
  show ?case
  proof (cases "aer_Success reply")
    case True
    have "leads_with ys (LeaderProgress (n_state (own_node T i w))) (own_node T i w)" using rep by (simp add: leads_with_def)
    from handle_accepted [OF this _ s(1) True _ s(5)] rep obtain lp where
      lp: "leads_with ys lp n'" "k \<le> length ys \<longrightarrow> length ys \<le> map_index (MatchIndex lp) j" by blast
    have "leads_with ys lp (own_node T i w4)" using run_committed_leads_with [of ys lp "(tr_peer T w i)\<lparr>p_node := n'\<rparr>"] lp(1) s(7) by simp
    moreover have "whole_log zs (own_node T j w4)"
      using run_committed_leads_with [of zs _ "(tr_peer T w j)\<lparr>p_node := f\<rparr>"] s(3,7) ij by (simp add: leads_with_def)
    moreover have "take (length ys) zs = ys" "replicateTo T memory_ops sm i j w = Some w4" using True s(4,6) by simp_all
    ultimately show ?thesis using lp(2) by (intro exI [of _ w4] exI [of _ zs]) (simp add: leads_with_def)
  next
    case False
    then have k: "1 < k" "zs = xs" "\<not> adv" using s(4) by simp_all
    have "node_role (own_node T i w) = Leader" "fmlookup (NextIndex (LeaderProgress (n_state (own_node T i w)))) j = Some k" using rep by simp_all
    from handle_refused [OF this(1) s(1) False k(1) this(2)] s(5) obtain lp where
      n': "n' = (own_node T i w)\<lparr>n_state := (n_state (own_node T i w))\<lparr>LeaderProgress := lp\<rparr>\<rparr>" "\<not> advanced"
        "fmlookup (NextIndex lp) j = Some (k - 1)" by (metis prod.inject)
    have peers: "tr_peer T w4 i = (tr_peer T w i)\<lparr>p_node := n'\<rparr>" "tr_peer T w4 j = (tr_peer T w j)\<lparr>p_node := f\<rparr>"
      using s(7) ij k(3) n'(2) by (simp_all add: run_committed_def)
    have next1: "repairing T i j ys xs (k - 1) w4"
      unfolding repairing_def Let_def peers using rep s(2,3) k n'(1,3) by auto
    have "node_role (own_node T i w4) = Leader" using rep n'(1) by (simp add: peers)
    then have "replicateTo T memory_ops sm i j w = replicateTo T memory_ops sm i j w4" using s(6) False by simp
    moreover have "k - 1 < k" "k - 1 \<le> length ys" "connected w4 i j" using k(1) rep s(8) less.prems(2) by auto
    ultimately show ?thesis using less.IH [OF _ next1] by simp blast
  qed
qed


definition stub_node :: "node_id \<Rightarrow> node_id list \<Rightarrow> role \<Rightarrow> log_entry list \<Rightarrow> (node_id, log_index) fmap \<Rightarrow> 's \<Rightarrow> 's raft_node" where
  "stub_node i peers r xs nxt s =
     \<lparr>n_id = i,
      n_state = \<lparr>Persistent = \<lparr>CurrentTerm = 2, VotedFor = [], Membership = \<lparr>Current = \<lparr>Voters = [''a'', ''b'', ''c'']\<rparr>, Joint = None\<rparr>\<rparr>,
        Volatile = \<lparr>CommitIndex = 0, LastApplied = 0\<rparr>, LeaderProgress = \<lparr>NextIndex = nxt, MatchIndex = fmempty\<rparr>,
        Election = \<lparr>VotesReceived = {}\<rparr>, Role = r, LeaderID = []\<rparr>,
      n_log = \<lparr>log_entries = xs, lastIncludedIndex = 0, lastIncludedTerm = 0\<rparr>, n_transport = True, n_peerIDs = peers, n_storage = s,
      n_snapshotRestore = False, n_electionElapsed = 0, n_electionTimeout = 10, n_storageWriteBlocked = False, n_heartbeatElapsed = 0,
      n_heartbeatTimeout = 1\<rparr>"

definition list_machine :: "log_entry list machine" where
  "list_machine = \<lparr>sm_apply = (\<lambda>es a. a @ es), sm_restore = (\<lambda>_ a. (None, a))\<rparr>"

abbreviation noop :: "nat \<Rightarrow> nat \<Rightarrow> log_entry" where "noop i t \<equiv> \<lparr>Index = i, Term = t, Data = []\<rparr>"

definition diverged_net :: "(memory_storage, log_entry list) local_net" where
  "diverged_net = \<lparr>ln_transport = NewLocalTransport\<lparr>lt_peers := {''a'', ''b''}\<rparr>, ln_peers = (\<lambda>i.
     let xs = (if i = ''a'' then [noop 1 1, noop 2 2] else [noop 1 1, noop 2 1, noop 3 1])
     in \<lparr>p_node = stub_node i [''b''] (if i = ''a'' then Leader else Follower) xs (fmupd ''b'' 3 fmempty)
          \<lparr>ms_state = zero_persistent_state, ms_entries = xs, ms_snapshot = None\<rparr>, p_app = []\<rparr>)\<rparr>"


section \<open>A follower that cannot store\<close>

text \<open>The leader \<open>i\<close> has a log to send, and the storage of \<open>j\<close>, whose log is empty, is among those that refuse entries.\<close>

definition refusing :: "'s storage_ops \<Rightarrow> 's set \<Rightarrow> bool" where
  "refusing ops F \<longleftrightarrow> (\<forall>s \<in> F. \<forall>es. \<exists>err s'. op_AppendEntries ops es s = (Some err, s') \<and> s' \<in> F)"

definition stuck ::
  "('s, 'a, 'w) transport \<Rightarrow> 's storage_ops \<Rightarrow> 's set \<Rightarrow> node_id \<Rightarrow> node_id \<Rightarrow> log_entry list \<Rightarrow> 'w \<Rightarrow> bool" where
  "stuck T ops F i j ys w \<longleftrightarrow>
     (let n = own_node T i w; f = own_node T j w
      in i \<noteq> j \<and> n_id n = i \<and> node_role n = Leader \<and> n_transport n \<and> plain_log ys n \<and> ys \<noteq> [] \<and>
         (\<exists>k. fmlookup (NextIndex (LeaderProgress (n_state n))) j = Some k \<and> 0 < k \<and> k \<le> Suc (length ys)) \<and>
         (\<exists>snap. op_LoadSnapshot ops (n_storage n) = Inr snap \<and> LastIncludedIndex snap = 0) \<and>
         plain_log [] f \<and> node_term f = node_term n \<and> n_storage f \<in> F)"

lemma AppendEntries_stuck:
  assumes "refusing ops F" "plain_log [] f" "n_storage f \<in> F" "node_term f = t" "plain_log ys n" "ys \<noteq> []" "0 < k" "k \<le> Suc (length ys)"
  shows "\<exists>reply f'. AppendEntries ops (repair_request t i ys k c) f = ((reply, False), f') \<and> aer_Term reply = t \<and> \<not> aer_Success reply \<and>
    plain_log [] f' \<and> n_storage f' \<in> F \<and> node_term f' = t"
proof (cases "1 < k")
  case True
  then show ?thesis using assms plain_log_Get [OF assms(2), of "k - 1"] by (simp add: AppendEntries_def append_in_term_def Let_def)
next
  case False
  with assms(7) have k: "k = 1" by simp
  let ?f = "f\<lparr>n_state := (n_state f)\<lparr>Role := Follower, LeaderID := i\<rparr>, n_electionElapsed := 0\<rparr>"
  have "plain_log [] ?f" using assms(2) by (simp add: plain_log_def)
  then have "first_new (n_log ?f) ys = Some (0, ys)" using assms(6) plain_log_Get [of "[]" ?f] by (cases ys) auto
  moreover obtain err s' where "op_AppendEntries ops ys (n_storage ?f) = (Some err, s')" "s' \<in> F"
    using assms(1,3) unfolding refusing_def by fastforce
  ultimately have "reconcileReplicatedEntriesLocked ops ys ?f = (Some (Wrapf ''persist replicated raft entries'' [err]), ?f\<lparr>n_storage := s'\<rparr>)" "s' \<in> F"
    by (simp_all add: reconcileReplicatedEntriesLocked_def)
  with k assms(2,4) show ?thesis by (auto simp: AppendEntries_def append_in_term_def Let_def plain_log_def)
qed

lemma stuck_step:
  assumes "peer_transport T ops sm connected" "refusing ops F" "stuck T ops F i j ys w" "connected w i j"
  obtains args reply w1 w3 where "sendInstallSnapshot T ops sm i j w = (False, w)" "buildAppendEntries j (own_node T i w) = Some args"
    "tr_AppendEntries T j args w = (Inr reply, w1)" "\<not> aer_Success reply"
    "own_section T i (handleAppendEntriesReply ops j args reply) w1 = (False, w3)"
    "node_role (own_node T i (own_apply T ops sm i False w3)) = Leader"
    "stuck T ops F i j ys (own_apply T ops sm i False w3)" "connected (own_apply T ops sm i False w3) i j"
proof -
  let ?n = "own_node T i w" and ?f = "own_node T j w"
  note st = assms(3) [unfolded stuck_def Let_def] and upd = peer_transport.peer_update [OF assms(1)]
  from st obtain k where k: "fmlookup (NextIndex (LeaderProgress (n_state ?n))) j = Some k" "0 < k" "k \<le> Suc (length ys)" by blast
  let ?args = "repair_request (node_term ?n) i ys k (node_commit ?n)"
  have n: "plain_log ys ?n" "node_role ?n = Leader" "n_id ?n = i" "i \<noteq> j" "ys \<noteq> []" using st by simp_all
  have build: "buildAppendEntries j ?n = Some ?args" using buildAppendEntries_repair [OF n(1,2) k] n(3) by simp
  have snap: "sendInstallSnapshot T ops sm i j w = (False, w)"
    using st by (auto simp: sendInstallSnapshot_def buildInstallSnapshot_def)
  from AppendEntries_stuck [OF assms(2) _ _ _ n(1,5) k(2,3), of ?f "node_term ?n" i "node_commit ?n"] st obtain reply f where
    f: "AppendEntries ops ?args ?f = ((reply, False), f)" "aer_Term reply = node_term ?n" "\<not> aer_Success reply" "plain_log [] f" "n_storage f \<in> F"
      "node_term f = node_term ?n" by auto
  have "connected w (ae_LeaderID ?args) j" using assms(4) by simp
  from peer_transport.AppendEntries_connected [OF assms(1) this] f(1) obtain w1 where
    w1: "tr_AppendEntries T j ?args w = (Inr reply, w1)" "connected w1 = connected w" "tr_peer T w1 = (tr_peer T w)(j := (tr_peer T w j)\<lparr>p_node := f\<rparr>)"
    by (auto simp: peer_AppendEntries_def run_committed_def)
  obtain lp k' where h: "handleAppendEntriesReply ops j ?args reply ?n = (False, ?n\<lparr>n_state := (n_state ?n)\<lparr>LeaderProgress := lp\<rparr>\<rparr>)"
    "fmlookup (NextIndex lp) j = Some k'" "0 < k'" "k' \<le> Suc (length ys)"
  proof (cases "1 < k")
    case True
    from handle_refused [OF n(2) f(2,3) True k(1), of ops i ys "node_commit ?n"] k(3) True that show thesis by auto
  next
    case False
    with f(2,3) n(2) k have "handleAppendEntriesReply ops j ?args reply ?n = (False, ?n\<lparr>n_state := (n_state ?n)\<lparr>LeaderProgress := LeaderProgress (n_state ?n)\<rparr>\<rparr>)"
      by (simp add: handleAppendEntriesReply_def map_index_def Let_def)
    with k that show thesis by blast
  qed
  let ?n' = "?n\<lparr>n_state := (n_state ?n)\<lparr>LeaderProgress := lp\<rparr>\<rparr>"
  define w3 where "w3 = tr_update T i ((tr_peer T w i)\<lparr>p_node := ?n'\<rparr>) w1"
  have peers: "tr_peer T (own_apply T ops sm i False w3) = (tr_peer T w)(j := (tr_peer T w j)\<lparr>p_node := f\<rparr>, i := (tr_peer T w i)\<lparr>p_node := ?n'\<rparr>)"
    using n(4) by (simp add: own_apply_def run_committed_def upd w3_def w1(3))
  have "own_section T i (handleAppendEntriesReply ops j ?args reply) w1 = (False, w3)" using h(1) n(4) by (simp add: own_section_def w1(3) w3_def)
  moreover have "stuck T ops F i j ys (own_apply T ops sm i False w3)"
    unfolding stuck_def Let_def peers using st f(4-6) h(2-4) n(4) [symmetric] by (simp add: plain_log_def)
  moreover have "connected (own_apply T ops sm i False w3) i j"
    using peer_transport.connected_update [OF assms(1)] assms(4) by (simp add: own_apply_def w3_def w1(2))
  moreover have "node_role (own_node T i (own_apply T ops sm i False w3)) = Leader" using n(2) by (simp add: peers)
  ultimately show thesis using that [OF snap build w1(1) f(3)] by blast
qed

lemma replicateTo_stuck:
  fixes T :: "('s, 'a, 'w) transport"
  assumes "peer_transport T ops sm connected" "refusing ops F" "stuck T ops F i j ys w" "connected w i j"
  shows "replicateTo T ops sm i j w = None"
proof -
  define P where "P T ops sm i j w w' \<longleftrightarrow>
    \<not> (peer_transport T ops sm connected \<and> refusing ops F \<and> stuck T ops F i j ys w \<and> connected w i j)" 
    for T :: "('s, 'a, 'w) transport" and ops sm i j w and w' :: 'w
  have "P T ops sm i j w w'" if "replicateTo T ops sm i j w = Some w'" for w'
    using that
  proof (rule replicateTo.raw_induct [where P = P, rotated])
    fix rep and T :: "('s, 'a, 'w) transport" and ops sm i j w w'
    assume IH: "\<And>T ops sm i j w w'. rep T ops sm i j w = Some w' \<Longrightarrow> P T ops sm i j w w'"
      and body: "(if \<not> n_transport (own_node T i w) then Some w
      else case sendInstallSnapshot T ops sm i j w of
        (installed, w1) \<Rightarrow>
          if installed then rep T ops sm i j w1
          else (case buildAppendEntries j (own_node T i w1) of
            None \<Rightarrow> Some w1
          | Some args \<Rightarrow>
            (case tr_AppendEntries T j args w1 of
               (Inl err, w2) \<Rightarrow> Some w2
             | (Inr reply, w2) \<Rightarrow>
               (case own_section T i (handleAppendEntriesReply ops j args reply) w2 of
                  (advanced, w3) \<Rightarrow>
                    (let w4 = own_apply T ops sm i advanced w3
                     in if aer_Success reply then Some w4
                        else if node_role (own_node T i w4) \<noteq> Leader then Some w4
                        else rep T ops sm i j w4))))) = Some w'"
    show "P T ops sm i j w w'"
      unfolding P_def
    proof
      assume asm: "peer_transport T ops sm connected \<and> refusing ops F \<and> stuck T ops F i j ys w \<and> connected w i j"
      then obtain args reply w1 w3 where step: "sendInstallSnapshot T ops sm i j w = (False, w)" "buildAppendEntries j (own_node T i w) = Some args"
        "tr_AppendEntries T j args w = (Inr reply, w1)" "\<not> aer_Success reply"
        "own_section T i (handleAppendEntriesReply ops j args reply) w1 = (False, w3)"
        "node_role (own_node T i (own_apply T ops sm i False w3)) = Leader"
        "stuck T ops F i j ys (own_apply T ops sm i False w3)" "connected (own_apply T ops sm i False w3) i j"
        by (elim conjE stuck_step)
      have "n_transport (own_node T i w)" using asm by (simp add: stuck_def Let_def)
      with body step(1-6) have "rep T ops sm i j (own_apply T ops sm i False w3) = Some w'" by (simp add: Let_def)
      from IH [OF this] asm step(7,8) show False by (simp add: P_def)
    qed
  qed
  with assms show ?thesis by (cases "replicateTo T ops sm i j w") (auto simp: P_def)
qed

lemma advanceCommit_set_commit: "\<exists>c. snd (advanceCommitIndexLocked n) = set_commit c n"
proof -
  have same: "set_commit (node_commit n) n = n" for n :: "'s raft_node" by (simp add: set_commit_def)
  have "\<exists>c. fold commit_step is n = set_commit c n" for "is" and n :: "'s raft_node"
  proof (induction "is" arbitrary: n)
    case (Cons k ks)
    obtain c where "fold commit_step ks (commit_step k n) = set_commit c (commit_step k n)" using Cons.IH by blast
    moreover have "set_commit c (commit_step k n) = set_commit c n" by (simp add: commit_step_def set_commit_def)
    ultimately show ?case by auto
  qed (metis same fold_simps(1))
  then show ?thesis by (metis advanceCommitIndexLocked_def same snd_conv)
qed

lemma Propose_appends:
  assumes "plain_log ys n" "Suc (Suc (length ys)) < 2 ^ 64" "Propose ops data n = (Inr index, advanced, n')"
  shows "\<exists>c s. n' = set_commit c (n\<lparr>n_storage := s, n_log := \<lparr>log_entries = ys @ [\<lparr>Index = Suc (length ys), Term = node_term n, Data = data\<rparr>],
    lastIncludedIndex = 0, lastIncludedTerm = 0\<rparr>\<rparr>)"
proof -
  let ?e = "\<lparr>Index = Suc (length ys), Term = node_term n, Data = data\<rparr>"
  have last: "inc64 (LastIndex (n_log n)) = Suc (length ys)" using assms(2) by (simp add: plain_log_LastIndex [OF assms(1)] inc64_Suc)
  then have "log_Append (n_log n) ?e = Inr \<lparr>log_entries = ys @ [?e], lastIncludedIndex = 0, lastIncludedTerm = 0\<rparr>"
    using assms(1) by (simp add: log_Append_def plain_log_def)
  with assms(3) obtain s where "advanceCommitIndexLocked (n\<lparr>n_storage := s,
      n_log := \<lparr>log_entries = ys @ [?e], lastIncludedIndex = 0, lastIncludedTerm = 0\<rparr>\<rparr>) = (advanced, n')"
    by (auto simp: Propose_def last Let_def split: if_splits prod.splits option.splits)
  then show ?thesis using advanceCommit_set_commit by (metis snd_conv)
qed


text \<open>A memory storage with a flag that says that it is full.\<close>

definition lift_op :: "(memory_storage \<Rightarrow> go_error option \<times> memory_storage) \<Rightarrow> memory_storage \<times> bool \<Rightarrow> go_error option \<times> (memory_storage \<times> bool)" where
  "lift_op f s = (case f (fst s) of (r, m) \<Rightarrow> (r, (m, snd s)))"

definition quota_ops :: "(memory_storage \<times> bool) storage_ops" where
  "quota_ops = \<lparr>op_SaveState = (\<lambda>p. lift_op (mem_SaveState p)), op_LoadState = mem_LoadState \<circ> fst,
     op_AppendEntries = (\<lambda>es s. if snd s then (Some ErrWALDiskFull, s) else lift_op (mem_AppendEntries es) s),
     op_ReplaceSuffix = (\<lambda>k es s. if snd s then (Some ErrWALDiskFull, s) else lift_op (mem_ReplaceSuffix k es) s),
     op_LoadEntries = mem_LoadEntries \<circ> fst, op_SaveSnapshot = (\<lambda>sn. lift_op (mem_SaveSnapshot sn)),
     op_LoadSnapshot = mem_LoadSnapshot \<circ> fst, op_Compact = (\<lambda>sn. lift_op (mem_Compact sn)), op_Sync = lift_op mem_Sync\<rparr>"

definition full_net :: "(memory_storage \<times> bool, log_entry list) local_net" where
  "full_net = \<lparr>ln_transport = NewLocalTransport\<lparr>lt_peers := {''a'', ''b'', ''c''}\<rparr>, ln_peers = (\<lambda>i.
     let xs = (if i = ''a'' then [noop 1 2] else [])
     in \<lparr>p_node = stub_node i [''b'', ''c''] (if i = ''a'' then Leader else Follower) xs (fmupd ''b'' 1 (fmupd ''c'' 1 fmempty))
          (\<lparr>ms_state = zero_persistent_state, ms_entries = xs, ms_snapshot = None\<rparr>, i = ''b''), p_app = []\<rparr>)\<rparr>"


end
