(* ===== verification/Go_Strings.thy ===== *)
theory Go_Strings
  imports Prelude
begin

text \<open>
  The functions of Go's \<^verbatim>\<open>strings\<close> package that the configuration uses, on byte strings: \<open>TrimSpace\<close>, \<open>split_on\<close> for
  \<^verbatim>\<open>strings.Split\<close> with a one-byte separator, \<open>split_first\<close> for \<^verbatim>\<open>strings.SplitN\<close> with a limit of two, \<open>join\<close> and \<open>ToLower\<close>.
\<close>

section \<open>Trimming\<close>

text \<open>The white space of \<^verbatim>\<open>unicode.IsSpace\<close>, in UTF-8.\<close>

definition spaces :: "string list" where
  "spaces = [
    [CHR 0x09], [CHR 0x0A], [CHR 0x0B], [CHR 0x0C], [CHR 0x0D], [CHR 0x20], [CHR 0xC2, CHR 0x85], [CHR 0xC2, CHR 0xA0],
    [CHR 0xE1, CHR 0x9A, CHR 0x80], [CHR 0xE2, CHR 0x80, CHR 0x80], [CHR 0xE2, CHR 0x80, CHR 0x81], [CHR 0xE2, CHR 0x80, CHR 0x82],
    [CHR 0xE2, CHR 0x80, CHR 0x83], [CHR 0xE2, CHR 0x80, CHR 0x84], [CHR 0xE2, CHR 0x80, CHR 0x85], [CHR 0xE2, CHR 0x80, CHR 0x86],
    [CHR 0xE2, CHR 0x80, CHR 0x87], [CHR 0xE2, CHR 0x80, CHR 0x88], [CHR 0xE2, CHR 0x80, CHR 0x89], [CHR 0xE2, CHR 0x80, CHR 0x8A],
    [CHR 0xE2, CHR 0x80, CHR 0xA8], [CHR 0xE2, CHR 0x80, CHR 0xA9], [CHR 0xE2, CHR 0x80, CHR 0xAF], [CHR 0xE2, CHR 0x81, CHR 0x9F],
    [CHR 0xE3, CHR 0x80, CHR 0x80]]"

definition starts_with :: "string list \<Rightarrow> string \<Rightarrow> string option" where
  "starts_with ws s = find (\<lambda>w. w \<noteq> [] \<and> take (length w) s = w) ws"

lemma starts_with_shorter: "starts_with ws s = Some w \<Longrightarrow> length (drop (length w) s) < length s"
  by (auto simp: starts_with_def find_Some_iff) (metis diff_less length_greater_0_conv take_Nil)

function trim_start :: "string list \<Rightarrow> string \<Rightarrow> string" where
  "trim_start ws s = (case starts_with ws s of None \<Rightarrow> s | Some w \<Rightarrow> trim_start ws (drop (length w) s))"
  by pat_completeness auto
termination
  by (relation "measure (length \<circ> snd)") (use starts_with_shorter in auto)

declare trim_start.simps [simp del]

definition TrimSpace :: "string \<Rightarrow> string" where
  "TrimSpace s = rev (trim_start (map rev spaces) (rev (trim_start spaces s)))"

lemma length_trim_start: "length (trim_start ws s) \<le> length s"
proof (induction ws s rule: trim_start.induct)
  case (1 ws s)
  then show ?case by (subst trim_start.simps) (fastforce split: option.split dest: starts_with_shorter)
qed

lemma trim_start_id: "trim_start ws s = s \<longleftrightarrow> starts_with ws s = None"
proof (cases "starts_with ws s")
  case None
  then show ?thesis by (simp add: trim_start.simps [of ws s])
next
  case (Some w)
  then have "length (trim_start ws s) < length s"
    using length_trim_start [of ws "drop (length w) s"] starts_with_shorter [OF Some] by (simp add: trim_start.simps [of ws s])
  with Some show ?thesis by auto
qed

lemma TrimSpace_id: "TrimSpace s = s \<longleftrightarrow> starts_with spaces s = None \<and> starts_with (map rev spaces) (rev s) = None"
proof (cases "starts_with spaces s")
  case None
  then have "trim_start spaces s = s" by (simp add: trim_start_id)
  then have "TrimSpace s = s \<longleftrightarrow> trim_start (map rev spaces) (rev s) = rev s" by (simp add: TrimSpace_def rev_swap)
  with None show ?thesis by (simp add: trim_start_id)
next
  case (Some w)
  then have "length (trim_start spaces s) < length s"
    using length_trim_start [of spaces "drop (length w) s"] starts_with_shorter [OF Some] by (simp add: trim_start.simps [of spaces s])
  then have "length (TrimSpace s) < length s"
    using length_trim_start [of "map rev spaces" "rev (trim_start spaces s)"] by (simp add: TrimSpace_def)
  with Some show ?thesis by auto
qed

lemma TrimSpace_Nil [simp]: "TrimSpace [] = []"
  by (simp add: TrimSpace_def trim_start_id [THEN iffD2] starts_with_def find_None_iff)

section \<open>Splitting and joining\<close>

fun split_on :: "char \<Rightarrow> string \<Rightarrow> string list" where
  "split_on c [] = [[]]"
| "split_on c (x # xs) = (if x = c then [] # split_on c xs else case split_on c xs of [] \<Rightarrow> [[x]] | y # ys \<Rightarrow> (x # y) # ys)"

fun split_first :: "char \<Rightarrow> string \<Rightarrow> string list" where
  "split_first c [] = [[]]"
| "split_first c (x # xs) = (if x = c then [[], xs] else case split_first c xs of [] \<Rightarrow> [[x]] | y # ys \<Rightarrow> (x # y) # ys)"

fun join :: "string \<Rightarrow> string list \<Rightarrow> string" where
  "join sep [] = []"
| "join sep [x] = x"
| "join sep (x # y # zs) = x @ sep @ join sep (y # zs)"

lemma split_on_plain: "c \<notin> set s \<Longrightarrow> split_on c s = [s]"
  by (induction s) auto

lemma split_on_append: "c \<notin> set s \<Longrightarrow> split_on c (s @ c # t) = s # split_on c t"
  by (induction s) auto

lemma split_on_join:
  assumes "xs \<noteq> []" "\<And>x. x \<in> set xs \<Longrightarrow> c \<notin> set x" shows "split_on c (join [c] xs) = xs"
  using assms by (induction "[c]" xs rule: join.induct) (simp_all add: split_on_plain split_on_append)

lemma split_first_append: "c \<notin> set s \<Longrightarrow> split_first c (s @ c # t) = [s, t]"
  by (induction s) auto

section \<open>Lower case\<close>

text \<open>
  ASCII letters, and the two other runes whose lower case is an ASCII letter, U+0130 and U+212A.  The remaining runes stay as they are
  here, and in Go become runes outside ASCII: the difference does not show in a comparison with an ASCII string.
\<close>

fun ToLower :: "string \<Rightarrow> string" where
  "ToLower [] = []"
| "ToLower (c # s) =
     (if 65 \<le> (of_char c :: nat) \<and> (of_char c :: nat) \<le> 90 then char_of ((of_char c :: nat) + 32) # ToLower s
      else if (of_char c :: nat) = 196 \<and> s \<noteq> [] \<and> (of_char (hd s) :: nat) = 176 then CHR ''i'' # ToLower (tl s)
      else if (of_char c :: nat) = 226 \<and> take 2 s = [char_of (132 :: nat), char_of (170 :: nat)] then CHR ''k'' # ToLower (drop 2 s)
      else c # ToLower s)"

section \<open>Strings that trimming keeps\<close>

lemma starts_with_append:
  assumes "starts_with ws u = None" "\<And>w. w \<in> set ws \<Longrightarrow> c \<notin> set w"
  shows "starts_with ws (u @ c # v) = None"
proof (rule ccontr)
  assume "starts_with ws (u @ c # v) \<noteq> None"
  then obtain w where w: "w \<in> set ws" "w \<noteq> []" "take (length w) (u @ c # v) = w" by (auto simp: starts_with_def find_None_iff)
  have "length w \<le> length u"
  proof (rule ccontr)
    assume "\<not> length w \<le> length u"
    then have "c \<in> set (take (length w) (u @ c # v))" by (cases "length w - length u") auto
    with w assms(2) show False by metis
  qed
  with w have "take (length w) u = w" by simp
  with w assms(1) show False by (auto simp: starts_with_def find_None_iff)
qed

lemma space_bytes:
  "w \<in> set spaces \<Longrightarrow> CHR ''='' \<notin> set w" "w \<in> set (map rev spaces) \<Longrightarrow> CHR ''='' \<notin> set w"
  by (auto simp: spaces_def)

text \<open>A string with an equals sign begins with no space if what comes before the sign does not, and so for the end.\<close>

lemma TrimSpace_keeps:
  assumes "starts_with spaces u = None" "starts_with (map rev spaces) (rev v) = None"
  shows "starts_with spaces (u @ CHR ''='' # m) = None" "starts_with (map rev spaces) (rev (m @ CHR ''='' # v)) = None"
  using starts_with_append [OF assms(1) space_bytes(1)] starts_with_append [OF assms(2) space_bytes(2), where v = "rev m"] by simp_all

end
