(* ===== verification/Node_Config.thy ===== *)
theory Node_Config
  imports Go_Strings Model_Types
begin

text \<open>
  The command line of a node (\<^verbatim>\<open>cmd/raftiq/config.go\<close>): the flags for peers and workers, the configuration, what each flag
  sets, and the validation.
\<close>

section \<open>The flags\<close>

text \<open>A nil map of peers is \<open>None\<close>.  On an error the peers before it stay in the map.\<close>

definition peer_String :: "(node_id, string) fmap \<Rightarrow> string" where
  "peer_String p = join '','' (map (\<lambda>(i, address). i @ ''='' @ address) (map_range p))"

fun set_peers :: "string list \<Rightarrow> (node_id, string) fmap \<Rightarrow> go_error option \<times> (node_id, string) fmap" where
  "set_peers [] p = (None, p)"
| "set_peers (e # es) p =
     (let entry = TrimSpace e
      in if entry = [] then set_peers es p
         else case split_first (CHR ''='') entry of
           [a, b] \<Rightarrow>
             (let i = TrimSpace a; address = TrimSpace b
              in if i = [] then (Some (Message ''invalid peer: empty node ID''), p)
                 else if address = [] then (Some (Message ''invalid peer: empty address''), p)
                 else if fmlookup p i \<noteq> None then (Some (Message ''duplicate peer node ID''), p)
                 else set_peers es (fmupd i address p))
         | _ \<Rightarrow> (Some (Message ''invalid peer: expected id=host:port''), p))"

definition peer_Set :: "string \<Rightarrow> (node_id, string) fmap option \<Rightarrow> go_error option \<times> (node_id, string) fmap option" where
  "peer_Set val p =
     (case p of
        None \<Rightarrow> (Some (Message ''peer map is not initialized''), None)
      | Some m \<Rightarrow>
          if TrimSpace val = [] then (None, Some m)
          else case set_peers (split_on (CHR '','') (TrimSpace val)) m of (err, m') \<Rightarrow> (err, Some m'))"

definition worker_String :: "string list \<Rightarrow> string" where
  "worker_String w = join '','' w"

fun set_workers :: "string list \<Rightarrow> string list \<Rightarrow> go_error option \<times> string list" where
  "set_workers [] w = (None, w)"
| "set_workers (e # es) w =
     (if TrimSpace e = [] then (Some (Message ''worker ID cannot be empty''), w) else set_workers es (w @ [TrimSpace e]))"

definition worker_Set :: "string \<Rightarrow> string list \<Rightarrow> go_error option \<times> string list" where
  "worker_Set val w =
     (if TrimSpace val = [] then (Some (Message ''worker list cannot be empty''), w)
      else set_workers (split_on (CHR '','') (TrimSpace val)) w)"

section \<open>The configuration\<close>

record config =
  cfg_nodeID :: string
  cfg_raftAddr :: string
  cfg_kvAddr :: string
  cfg_metricsAddr :: string
  cfg_healthAddr :: string
  cfg_dataDir :: string
  cfg_peers :: "(node_id, string) fmap"
  cfg_workers :: "string list"
  cfg_heartbeat :: int
  cfg_election :: int
  cfg_logLevel :: string
  cfg_tlsCA :: string
  cfg_tlsCert :: string
  cfg_tlsKey :: string

definition defaultConfig :: config where
  "defaultConfig = \<lparr>cfg_nodeID = [], cfg_raftAddr = '':7000'', cfg_kvAddr = '':8000'', cfg_metricsAddr = '':9090'', cfg_healthAddr = '':8080'',
     cfg_dataDir = ''./data'', cfg_peers = fmempty, cfg_workers = [], cfg_heartbeat = 100000000, cfg_election = 1000000000,
     cfg_logLevel = ''info'', cfg_tlsCA = [], cfg_tlsCert = [], cfg_tlsKey = []\<rparr>"

definition blank :: "string \<Rightarrow> bool" where
  "blank s \<longleftrightarrow> TrimSpace s = []"

definition validateIdentity :: "config \<Rightarrow> go_error option" where
  "validateIdentity cfg = (if blank (cfg_nodeID cfg) then Some (Message ''--id is required'') else None)"

definition validateTiming :: "config \<Rightarrow> go_error option" where
  "validateTiming cfg =
     (if cfg_heartbeat cfg \<le> 0 then Some (Message ''--heartbeat must be greater than zero'')
      else if cfg_election cfg \<le> 0 then Some (Message ''--election must be greater than zero'')
      else if cfg_election cfg \<le> cfg_heartbeat cfg then Some (Message ''--election must be greater than --heartbeat'')
      else None)"

definition validateAddresses :: "config \<Rightarrow> go_error option" where
  "validateAddresses cfg =
     (if blank (cfg_raftAddr cfg) then Some (Message ''--raft-addr cannot be empty'')
      else if blank (cfg_kvAddr cfg) then Some (Message ''--kv-addr cannot be empty'')
      else if blank (cfg_metricsAddr cfg) then Some (Message ''--metrics-addr cannot be empty'')
      else if blank (cfg_healthAddr cfg) then Some (Message ''--health-addr cannot be empty'')
      else None)"

definition validateDataDir :: "config \<Rightarrow> go_error option" where
  "validateDataDir cfg = (if blank (cfg_dataDir cfg) then Some (Message ''--data-dir cannot be empty'') else None)"

definition validateLogLevel :: "config \<Rightarrow> go_error option" where
  "validateLogLevel cfg =
     (if ToLower (TrimSpace (cfg_logLevel cfg)) \<in> {''debug'', ''info'', ''warn'', ''error''} then None
      else Some (Message ''invalid --log-level: expected debug, info, warn, or error''))"

definition validateTLS :: "config \<Rightarrow> go_error option" where
  "validateTLS cfg =
     (if blank (cfg_tlsCA cfg) then Some (Message ''--tls-ca is required'')
      else if blank (cfg_tlsCert cfg) then Some (Message ''--tls-cert is required'')
      else if blank (cfg_tlsKey cfg) then Some (Message ''--tls-key is required'')
      else None)"

definition validateCluster :: "config \<Rightarrow> go_error option" where
  "validateCluster cfg =
     (if cfg_peers cfg = fmempty then Some (Message ''--peers requires at least one peer'')
      else if cfg_workers cfg = [] then Some (Message ''--workers requires at least one worker'')
      else None)"

definition validateConfig :: "config \<Rightarrow> go_error option" where
  "validateConfig cfg = first_error (\<lambda>check. check cfg)
     [validateIdentity, validateTiming, validateAddresses, validateDataDir, validateLogLevel, validateTLS, validateCluster]"

text \<open>
  The flags as \<^verbatim>\<open>flag.Parse\<close> finds them on the command line, in order; a duration is already parsed.  An error in a flag ends the
  program, as \<^verbatim>\<open>flag.ExitOnError\<close> says, with the status of a configuration error.
\<close>

datatype cfg_flag =
  FlagID string | FlagRaftAddr string | FlagKVAddr string | FlagMetricsAddr string | FlagHealthAddr string | FlagDataDir string
  | FlagPeers string | FlagWorkers string | FlagHeartbeat int | FlagElection int | FlagLogLevel string
  | FlagTLSCA string | FlagTLSCert string | FlagTLSKey string

fun set_flag :: "cfg_flag \<Rightarrow> config \<Rightarrow> go_error option \<times> config" where
  "set_flag (FlagID s) cfg = (None, cfg\<lparr>cfg_nodeID := s\<rparr>)"
| "set_flag (FlagRaftAddr s) cfg = (None, cfg\<lparr>cfg_raftAddr := s\<rparr>)"
| "set_flag (FlagKVAddr s) cfg = (None, cfg\<lparr>cfg_kvAddr := s\<rparr>)"
| "set_flag (FlagMetricsAddr s) cfg = (None, cfg\<lparr>cfg_metricsAddr := s\<rparr>)"
| "set_flag (FlagHealthAddr s) cfg = (None, cfg\<lparr>cfg_healthAddr := s\<rparr>)"
| "set_flag (FlagDataDir s) cfg = (None, cfg\<lparr>cfg_dataDir := s\<rparr>)"
| "set_flag (FlagPeers s) cfg =
     (case peer_Set s (Some (cfg_peers cfg)) of (err, p) \<Rightarrow> (err, case p of None \<Rightarrow> cfg | Some m \<Rightarrow> cfg\<lparr>cfg_peers := m\<rparr>))"
| "set_flag (FlagWorkers s) cfg = (case worker_Set s (cfg_workers cfg) of (err, w) \<Rightarrow> (err, cfg\<lparr>cfg_workers := w\<rparr>))"
| "set_flag (FlagHeartbeat d) cfg = (None, cfg\<lparr>cfg_heartbeat := d\<rparr>)"
| "set_flag (FlagElection d) cfg = (None, cfg\<lparr>cfg_election := d\<rparr>)"
| "set_flag (FlagLogLevel s) cfg = (None, cfg\<lparr>cfg_logLevel := s\<rparr>)"
| "set_flag (FlagTLSCA s) cfg = (None, cfg\<lparr>cfg_tlsCA := s\<rparr>)"
| "set_flag (FlagTLSCert s) cfg = (None, cfg\<lparr>cfg_tlsCert := s\<rparr>)"
| "set_flag (FlagTLSKey s) cfg = (None, cfg\<lparr>cfg_tlsKey := s\<rparr>)"

fun set_flags :: "cfg_flag list \<Rightarrow> config \<Rightarrow> go_error option \<times> config" where
  "set_flags [] cfg = (None, cfg)"
| "set_flags (f # fs) cfg = (case set_flag f cfg of (Some err, cfg1) \<Rightarrow> (Some err, cfg1) | (None, cfg1) \<Rightarrow> set_flags fs cfg1)"

definition parseConfig :: "cfg_flag list \<Rightarrow> config \<Rightarrow> go_error option \<times> config" where
  "parseConfig fs cfg = (case set_flags fs cfg of (Some err, cfg1) \<Rightarrow> (Some err, cfg1) | (None, cfg1) \<Rightarrow> (validateConfig cfg1, cfg1))"

definition normalizeLogLevel :: "string \<Rightarrow> string" where
  "normalizeLogLevel level =
     (let l = ToLower (TrimSpace level) in if l \<in> {''debug'', ''info'', ''warn'', ''error''} then l else ''info'')"

section \<open>What a configuration that passes has\<close>

lemma blank_Nil: "\<not> blank s \<Longrightarrow> s \<noteq> []"
  by (auto simp: blank_def)

lemma validateConfig_ok:
  "validateConfig cfg = None \<longleftrightarrow>
     \<not> blank (cfg_nodeID cfg) \<and> 0 < cfg_heartbeat cfg \<and> cfg_heartbeat cfg < cfg_election cfg \<and>
     \<not> blank (cfg_raftAddr cfg) \<and> \<not> blank (cfg_kvAddr cfg) \<and> \<not> blank (cfg_metricsAddr cfg) \<and> \<not> blank (cfg_healthAddr cfg) \<and>
     \<not> blank (cfg_dataDir cfg) \<and> normalizeLogLevel (cfg_logLevel cfg) = ToLower (TrimSpace (cfg_logLevel cfg)) \<and>
     \<not> blank (cfg_tlsCA cfg) \<and> \<not> blank (cfg_tlsCert cfg) \<and> \<not> blank (cfg_tlsKey cfg) \<and>
     cfg_peers cfg \<noteq> fmempty \<and> cfg_workers cfg \<noteq> []"
  by (auto simp: validateConfig_def validateIdentity_def validateTiming_def validateAddresses_def validateDataDir_def validateLogLevel_def
      validateTLS_def validateCluster_def normalizeLogLevel_def Let_def split: option.splits if_splits)

section \<open>The peers flag, written and read\<close>

text \<open>An entry that is read back: its parts are not empty, keep their ends when trimmed, and hold no separator.\<close>

definition entry_ok :: "string \<times> string \<Rightarrow> bool" where
  "entry_ok e \<longleftrightarrow> (case e of (i, address) \<Rightarrow> i \<noteq> [] \<and> address \<noteq> [] \<and> TrimSpace i = i \<and> TrimSpace address = address \<and>
     CHR '','' \<notin> set i \<and> CHR '','' \<notin> set address \<and> CHR ''='' \<notin> set i)"

abbreviation entry_text :: "string \<times> string \<Rightarrow> string" where
  "entry_text e \<equiv> fst e @ CHR ''='' # snd e"

lemma TrimSpace_entry: "entry_ok e \<Longrightarrow> TrimSpace (entry_text e) = entry_text e"
  using TrimSpace_keeps [of "fst e" "snd e"] by (auto simp: entry_ok_def TrimSpace_id)

lemma set_peers_entries:
  assumes "list_all entry_ok es" "distinct (map fst es)" "\<And>e. e \<in> set es \<Longrightarrow> fmlookup p (fst e) = None"
  shows "set_peers (map entry_text es) p = (None, fold (\<lambda>(i, a). fmupd i a) es p)"
  using assms
proof (induction es arbitrary: p)
  case (Cons e es)
  obtain i a where e: "e = (i, a)" by (cases e)
  have ok: "entry_ok (i, a)" "list_all entry_ok es" using Cons.prems(1) by (simp_all add: e)
  have "fmlookup (fmupd i a p) (fst e') = None" if "e' \<in> set es" for e' using that Cons.prems(2,3) by (auto simp: e)
  with Cons.IH [OF ok(2)] Cons.prems(2,3) have "set_peers (map entry_text es) (fmupd i a p) = (None, fold (\<lambda>(i, a). fmupd i a) es (fmupd i a p))"
    by (simp add: e)
  moreover have "fmlookup p i = None" using Cons.prems(3) [of e] by (simp add: e)
  ultimately show ?case using TrimSpace_entry [OF ok(1)] ok(1) by (simp add: e split_first_append entry_ok_def Let_def)
qed simp

lemma join_ends:
  assumes "es \<noteq> []"
  shows "\<exists>m. join '','' (map entry_text es) = fst (hd es) @ CHR ''='' # m" "\<exists>m. join '','' (map entry_text es) = m @ CHR ''='' # snd (last es)"
  using assms
proof (induction es rule: list_nonempty_induct)
  case (cons e es)
  { case 1 then show ?case using cons by (cases es) auto }
  { case 2
    from cons obtain m where "join '','' (map entry_text es) = m @ CHR ''='' # snd (last es)" by blast
    moreover have "join '','' (map entry_text (e # es)) = entry_text e @ '','' @ join '','' (map entry_text es)" using cons by (cases es) auto
    ultimately have "join '','' (map entry_text (e # es)) = (entry_text e @ '','' @ m) @ CHR ''='' # snd (last (e # es))" using cons by simp
    then show ?case by blast }
qed auto

lemma fold_fmupd:
  "distinct (map fst es) \<Longrightarrow> fmlookup (fold (\<lambda>(i, a). fmupd i a) es p) k = (case map_of es k of Some a \<Rightarrow> Some a | None \<Rightarrow> fmlookup p k)"
proof (induction es arbitrary: p)
  case (Cons e es)
  obtain i a where e: "e = (i, a)" by (cases e)
  have "map_of es i = None" using Cons.prems by (auto simp: e map_of_eq_None_iff)
  with Cons show ?case by (auto simp: e split: option.split)
qed simp

text \<open>Whatever the order in which the peers are written, reading them gives the same map.\<close>

lemma peer_Set_entries:
  assumes "list_all entry_ok es" "distinct (map fst es)" "set es = {(i, a). fmlookup p i = Some a}"
  shows "peer_Set (join '','' (map entry_text es)) (Some fmempty) = (None, Some p)"
proof (cases "es = []")
  case True
  then have "fmlookup p k = None" for k using assms(3) by (cases "fmlookup p k") auto
  then have "p = fmempty" by (intro fmap_ext) simp
  with True show ?thesis by (simp add: peer_Set_def)
next
  case False
  let ?s = "join '','' (map entry_text es)"
  from join_ends [OF False] obtain m n where ends: "?s = fst (hd es) @ CHR ''='' # m" "?s = n @ CHR ''='' # snd (last es)" by blast
  have "entry_ok (hd es)" "entry_ok (last es)" using assms(1) False by (simp_all add: list_all_iff)
  then have "starts_with spaces (fst (hd es)) = None" "starts_with (map rev spaces) (rev (snd (last es))) = None"
    by (auto simp: entry_ok_def TrimSpace_id)
  from TrimSpace_keeps(1) [OF this, of m] TrimSpace_keeps(2) [OF this, of n] have trim: "TrimSpace ?s = ?s"
    unfolding TrimSpace_id ends(1) [symmetric] ends(2) [symmetric] ..
  have "fold (\<lambda>(i, a). fmupd i a) es fmempty = p"
  proof (rule fmap_ext)
    fix k
    have "(map_of es k = Some a) = (fmlookup p k = Some a)" for a using assms(2,3) by simp
    then have "map_of es k = fmlookup p k" by (metis not_None_eq)
    then show "fmlookup (fold (\<lambda>(i, a). fmupd i a) es fmempty) k = fmlookup p k"
      by (simp add: fold_fmupd [OF assms(2)] split: option.split)
  qed
  moreover have "split_on (CHR '','') ?s = map entry_text es"
    using False assms(1) by (intro split_on_join) (auto simp: list_all_iff entry_ok_def)
  moreover have "?s \<noteq> []" using ends(1) by simp
  ultimately show ?thesis using set_peers_entries [OF assms(1,2), of fmempty] trim by (simp add: peer_Set_def)
qed

lemma peer_flag_roundtrip: "list_all entry_ok (map_range p) \<Longrightarrow> peer_Set (peer_String p) (Some fmempty) = (None, Some p)"
  using peer_Set_entries [OF _ distinct_keys_map_range set_map_range, of p] by (simp add: peer_String_def case_prod_unfold)

end
