(* ===== verification/TLS_Config.thy ===== *)
theory TLS_Config
  imports GRPC_Transport Node_Config
begin

text \<open>
  TLS (\<^verbatim>\<open>internal/transport/tls.go\<close> and \<^verbatim>\<open>initializeTLS\<close> of \<^verbatim>\<open>cmd/raftiq/runtime.go\<close>): the four configurations that are loaded,
  and the check of a peer's certificate.  Reading files and parsing certificates are parameters.
\<close>

section \<open>Loading\<close>

definition ErrTLSCACertificate :: go_error where "ErrTLSCACertificate = Sentinel ''TLS CA certificate is required''"
definition ErrTLSCertificate :: go_error where "ErrTLSCertificate = Sentinel ''TLS certificate is required''"
definition ErrTLSPrivateKey :: go_error where "ErrTLSPrivateKey = Sentinel ''TLS private key is required''"
definition ErrTLSInvalidPeerName :: go_error where "ErrTLSInvalidPeerName = Sentinel ''TLS peer server name is required''"
definition ErrTLSInvalidPeerSAN :: go_error where "ErrTLSInvalidPeerSAN = Sentinel ''TLS peer SAN validation failed''"

record tls_settings =
  CAFile :: string
  CertFile :: string
  KeyFile :: string
  PeerServerName :: string

text \<open>\<^verbatim>\<open>os.ReadFile\<close>, \<^verbatim>\<open>AppendCertsFromPEM\<close> and \<^verbatim>\<open>tls.LoadX509KeyPair\<close>.  A pool is the text it was read from.\<close>

record 'cert tls_env =
  te_ReadFile :: "string \<Rightarrow> bytes result"
  te_AppendCertsFromPEM :: "bytes \<Rightarrow> bool"
  te_LoadX509KeyPair :: "string \<Rightarrow> string \<Rightarrow> 'cert result"

datatype client_auth = NoClientCert | RequireAndVerifyClientCert

text \<open>The fields the sources set.  \<open>VerifyConnection\<close> gets the DNS names of the certificates the peer presents, its own first.\<close>

record 'cert tls_config =
  MinVersion :: nat
  Certificates :: "'cert list"
  RootCAs :: "bytes option"
  ClientCAs :: "bytes option"
  ClientAuth :: client_auth
  ServerName :: string
  VerifyConnection :: "(string list list \<Rightarrow> go_error option) option"

definition VersionTLS13 :: nat where "VersionTLS13 = 772"

text \<open>The three checks and the three calls that the loaders share.\<close>

definition check_files :: "tls_settings \<Rightarrow> go_error option" where
  "check_files cfg =
     (if CAFile cfg = [] then Some ErrTLSCACertificate
      else if CertFile cfg = [] then Some ErrTLSCertificate
      else if KeyFile cfg = [] then Some ErrTLSPrivateKey
      else None)"

definition load_material :: "'cert tls_env \<Rightarrow> tls_settings \<Rightarrow> (bytes \<times> 'cert) result" where
  "load_material env cfg =
     (case te_ReadFile env (CAFile cfg) of
        Inl err \<Rightarrow> Inl (Wrapf ''read TLS CA certificate'' [err])
      | Inr caPEM \<Rightarrow>
          if \<not> te_AppendCertsFromPEM env caPEM then Inl (Message ''parse TLS CA certificate'')
          else case te_LoadX509KeyPair env (CertFile cfg) (KeyFile cfg) of
            Inl err \<Rightarrow> Inl (Wrapf ''load TLS certificate and key'' [err])
          | Inr certificate \<Rightarrow> Inr (caPEM, certificate))"

definition LoadTLSConfig :: "'cert tls_env \<Rightarrow> tls_settings \<Rightarrow> 'cert tls_config result" where
  "LoadTLSConfig env cfg =
     (case check_files cfg of
        Some err \<Rightarrow> Inl err
      | None \<Rightarrow>
          if PeerServerName cfg = [] then Inl ErrTLSInvalidPeerName
          else case load_material env cfg of
            Inl err \<Rightarrow> Inl err
          | Inr (pool, certificate) \<Rightarrow> Inr \<lparr>MinVersion = VersionTLS13, Certificates = [certificate], RootCAs = Some pool, ClientCAs = Some pool,
              ClientAuth = RequireAndVerifyClientCert, ServerName = PeerServerName cfg, VerifyConnection = None\<rparr>)"

definition LoadTLSClientConfig :: "'cert tls_env \<Rightarrow> tls_settings \<Rightarrow> 'cert tls_config result" where
  "LoadTLSClientConfig env cfg =
     (case check_files cfg of
        Some err \<Rightarrow> Inl err
      | None \<Rightarrow>
        (case load_material env cfg of
           Inl err \<Rightarrow> Inl err
         | Inr (pool, certificate) \<Rightarrow> Inr \<lparr>MinVersion = VersionTLS13, Certificates = [certificate], RootCAs = Some pool, ClientCAs = Some pool,
             ClientAuth = RequireAndVerifyClientCert, ServerName = [], VerifyConnection = None\<rparr>))"

definition LoadTLSKVServerConfig :: "'cert tls_env \<Rightarrow> tls_settings \<Rightarrow> 'cert tls_config result" where
  "LoadTLSKVServerConfig env cfg =
     (case check_files cfg of
        Some err \<Rightarrow> Inl err
      | None \<Rightarrow>
        (case load_material env cfg of
           Inl err \<Rightarrow> Inl err
         | Inr (pool, certificate) \<Rightarrow> Inr \<lparr>MinVersion = VersionTLS13, Certificates = [certificate], RootCAs = None, ClientCAs = Some pool,
             ClientAuth = RequireAndVerifyClientCert, ServerName = [], VerifyConnection = None\<rparr>))"

definition verifyPeerSAN :: "string \<Rightarrow> string list list \<Rightarrow> go_error option" where
  "verifyPeerSAN expectedSAN state =
     (if expectedSAN = [] then Some ErrTLSInvalidPeerName
      else case state of
        [] \<Rightarrow> Some ErrTLSInvalidPeerSAN
      | cert # _ \<Rightarrow> if expectedSAN \<in> set cert then None else Some (Wrapf ''TLS peer SAN validation failed'' [ErrTLSInvalidPeerSAN]))"

definition verifyPeerSANs :: "string set \<Rightarrow> string list list \<Rightarrow> go_error option" where
  "verifyPeerSANs allowedSANs state =
     (case state of
        [] \<Rightarrow> Some ErrTLSInvalidPeerSAN
      | cert # _ \<Rightarrow> if list_ex (\<lambda>san. san \<in> allowedSANs) cert then None else Some ErrTLSInvalidPeerSAN)"

definition LoadTLSServerConfig :: "'cert tls_env \<Rightarrow> tls_settings \<Rightarrow> string set \<Rightarrow> 'cert tls_config result" where
  "LoadTLSServerConfig env cfg allowedPeerSANs =
     (case check_files cfg of
        Some err \<Rightarrow> Inl err
      | None \<Rightarrow>
          if allowedPeerSANs = {} then Inl ErrTLSInvalidPeerName
          else case load_material env cfg of
            Inl err \<Rightarrow> Inl err
          | Inr (pool, certificate) \<Rightarrow> Inr \<lparr>MinVersion = VersionTLS13, Certificates = [certificate], RootCAs = Some pool, ClientCAs = Some pool,
              ClientAuth = RequireAndVerifyClientCert, ServerName = [], VerifyConnection = Some (verifyPeerSANs allowedPeerSANs)\<rparr>)"

section \<open>The node's configurations\<close>

record 'cert node_tls =
  clientTLS :: "'cert tls_config"
  serverTLS :: "'cert tls_config"
  kvServerTLS :: "'cert tls_config"

definition tls_settings_of :: "config \<Rightarrow> tls_settings" where
  "tls_settings_of cfg = \<lparr>CAFile = cfg_tlsCA cfg, CertFile = cfg_tlsCert cfg, KeyFile = cfg_tlsKey cfg, PeerServerName = []\<rparr>"

definition allowedPeerSANs :: "config \<Rightarrow> string set" where
  "allowedPeerSANs cfg = set (map peerServerName (filter (\<lambda>i. i \<noteq> cfg_nodeID cfg) (map fst (map_range (cfg_peers cfg)))))"

definition initializeTLS :: "'cert tls_env \<Rightarrow> config \<Rightarrow> 'cert node_tls result" where
  "initializeTLS env cfg =
     (case LoadTLSClientConfig env (tls_settings_of cfg) of
        Inl err \<Rightarrow> Inl (Wrapf ''load Raft client TLS configuration'' [err])
      | Inr client \<Rightarrow>
        (case LoadTLSServerConfig env (tls_settings_of cfg) (allowedPeerSANs cfg) of
           Inl err \<Rightarrow> Inl (Wrapf ''load Raft server TLS configuration'' [err])
         | Inr server \<Rightarrow>
           (case LoadTLSKVServerConfig env (tls_settings_of cfg) of
              Inl err \<Rightarrow> Inl (Wrapf ''load KV server TLS configuration'' [err])
            | Inr kv \<Rightarrow> Inr \<lparr>clientTLS = client, serverTLS = server, kvServerTLS = kv\<rparr>)))"

lemma allowedPeerSANs_iff:
  "san \<in> allowedPeerSANs cfg \<longleftrightarrow> (\<exists>i a. fmlookup (cfg_peers cfg) i = Some a \<and> i \<noteq> cfg_nodeID cfg \<and> san = peerServerName i)"
  by (force simp: allowedPeerSANs_def set_map_range image_iff)

lemma check_files_valid: "validateConfig cfg = None \<Longrightarrow> check_files (tls_settings_of cfg) = None"
  by (auto simp: validateConfig_ok check_files_def tls_settings_of_def dest: blank_Nil)

section \<open>Who is admitted\<close>

text \<open>C39.  Who may speak to a node.  Take a command line that passes validation and files that load.  If it names a peer other than the
  node itself, the node gets its TLS configurations; every server demands a verified client certificate; and its Raft server
  admits a connection exactly when the first certificate carries the name under which one of those other peers is dialled.  If
  the only peer is the node itself, which validation accepts, the node does not start: the empty list of names is an error.\<close>

theorem tls_admits_peers:
  assumes "validateConfig cfg = None" "is_ok (load_material env (tls_settings_of cfg))"
  shows "if \<exists>i. i \<noteq> cfg_nodeID cfg \<and> fmlookup (cfg_peers cfg) i \<noteq> None
    then \<exists>t verify. initializeTLS env cfg = Inr t \<and> ClientAuth (serverTLS t) = RequireAndVerifyClientCert \<and>
      ClientAuth (kvServerTLS t) = RequireAndVerifyClientCert \<and> VerifyConnection (serverTLS t) = Some verify \<and>
      (\<forall>state. verify state = None \<longleftrightarrow> state \<noteq> [] \<and>
        (\<exists>i. i \<noteq> cfg_nodeID cfg \<and> fmlookup (cfg_peers cfg) i \<noteq> None \<and> peerServerName i \<in> set (hd state)))
    else initializeTLS env cfg = Inl (Wrapf ''load Raft server TLS configuration'' [ErrTLSInvalidPeerName])"
proof -
  from assms(2) obtain pool cert where m: "load_material env (tls_settings_of cfg) = Inr (pool, cert)"
    by (cases "load_material env (tls_settings_of cfg)") auto
  note files = check_files_valid [OF assms(1)]
  have empty: "allowedPeerSANs cfg = {} \<longleftrightarrow> \<not> (\<exists>i. i \<noteq> cfg_nodeID cfg \<and> fmlookup (cfg_peers cfg) i \<noteq> None)"
    using allowedPeerSANs_iff [of _ cfg] by blast
  have admits: "verifyPeerSANs (allowedPeerSANs cfg) state = None \<longleftrightarrow> state \<noteq> [] \<and>
      (\<exists>i. i \<noteq> cfg_nodeID cfg \<and> fmlookup (cfg_peers cfg) i \<noteq> None \<and> peerServerName i \<in> set (hd state))" for state
    by (cases state) (force simp: verifyPeerSANs_def list_ex_iff allowedPeerSANs_iff)+
  show ?thesis
    using m files empty admits
    by (simp add: initializeTLS_def LoadTLSClientConfig_def LoadTLSServerConfig_def LoadTLSKVServerConfig_def)
qed

definition demo_config :: config where
  "demo_config = defaultConfig\<lparr>cfg_nodeID := ''a'', cfg_peers := fmap_of_list [(''a'', ''h:1''), (''b'', ''h:2'')], cfg_workers := [''w''],
     cfg_tlsCA := ''ca'', cfg_tlsCert := ''cert'', cfg_tlsKey := ''key''\<rparr>"

definition demo_env :: "string tls_env" where
  "demo_env = \<lparr>te_ReadFile = (\<lambda>f. Inr f), te_AppendCertsFromPEM = (\<lambda>_. True), te_LoadX509KeyPair = (\<lambda>c k. Inr c)\<rparr>"

lemma demo_config_valid:
  "validateConfig demo_config = None" "validateConfig (demo_config\<lparr>cfg_peers := fmap_of_list [(''a'', ''h:1'')]\<rparr>) = None"
  by code_simp+

lemma demo_material: "load_material demo_env cfg = Inr (CAFile cfg, CertFile cfg)"
  by (simp add: load_material_def demo_env_def)

theorem tls_admits_peers_witness:
  "(\<exists>t verify. initializeTLS demo_env demo_config = Inr t \<and> VerifyConnection (serverTLS t) = Some verify \<and>
     verify [[''b.raftiq'']] = None \<and> verify [[''a.raftiq'']] \<noteq> None) \<and>
   initializeTLS demo_env (demo_config\<lparr>cfg_peers := fmap_of_list [(''a'', ''h:1'')]\<rparr>) =
     Inl (Wrapf ''load Raft server TLS configuration'' [ErrTLSInvalidPeerName])"
proof
  have peers: "cfg_nodeID demo_config = ''a''" "fmlookup (cfg_peers demo_config) i = (if i = ''a'' then Some ''h:1'' else if i = ''b'' then Some ''h:2'' else None)" for i
    by (simp_all add: demo_config_def fmlookup_of_list)
  have "\<exists>i. i \<noteq> ''a'' \<and> fmlookup (cfg_peers demo_config) i \<noteq> None" by (intro exI [of _ "''b''"]) (simp add: peers)
  with tls_admits_peers [OF demo_config_valid(1), of demo_env] obtain t verify where
    t: "initializeTLS demo_env demo_config = Inr t" "VerifyConnection (serverTLS t) = Some verify"
      "\<And>state. verify state = None \<longleftrightarrow> state \<noteq> [] \<and>
        (\<exists>i. i \<noteq> ''a'' \<and> fmlookup (cfg_peers demo_config) i \<noteq> None \<and> peerServerName i \<in> set (hd state))"
    by (auto simp: demo_material peers(1))
  have "verify [[''b.raftiq'']] = None" unfolding t(3) by (intro conjI exI [of _ "''b''"]) (simp_all add: peers peerServerName_def)
  moreover have "verify [[''a.raftiq'']] \<noteq> None" unfolding t(3) by (auto simp: peers peerServerName_def split: if_splits)
  ultimately show "\<exists>t verify. initializeTLS demo_env demo_config = Inr t \<and> VerifyConnection (serverTLS t) = Some verify \<and>
     verify [[''b.raftiq'']] = None \<and> verify [[''a.raftiq'']] \<noteq> None" using t(1,2) by blast
  show "initializeTLS demo_env (demo_config\<lparr>cfg_peers := fmap_of_list [(''a'', ''h:1'')]\<rparr>) =
     Inl (Wrapf ''load Raft server TLS configuration'' [ErrTLSInvalidPeerName])"
    using tls_admits_peers [OF demo_config_valid(2), of demo_env] by (simp add: demo_material peers(1) fmlookup_of_list split: if_splits)
qed

end
