(* ===== verification/KV_Service.thy ===== *)
theory KV_Service
  imports Local_Cluster
begin

text \<open>
  The client-facing service (\<^verbatim>\<open>internal/transport/kv_service.go\<close>) and the client library (\<^verbatim>\<open>client/\<close>).  The service runs over
  the server; the client's calls go through generated stubs, a parameter with the contract \<open>kv_network\<close>, or straight to
  a backend in the same process.
\<close>

section \<open>The interfaces\<close>

text \<open>\<^verbatim>\<open>kvRPC\<close> and \<^verbatim>\<open>client.KV\<close>, and \<^verbatim>\<open>jobRPC\<close>, which a backend may have or not.  A nil job is \<open>None\<close>.\<close>

record 'w kv_ops =
  kv_Get :: "string \<Rightarrow> 'w \<Rightarrow> (bytes \<times> bool) result \<times> 'w"
  kv_Put :: "string \<Rightarrow> bytes \<Rightarrow> 'w \<Rightarrow> go_error option \<times> 'w"
  kv_Delete :: "string \<Rightarrow> 'w \<Rightarrow> go_error option \<times> 'w"

type_synonym 'w job_backend = "string \<Rightarrow> bytes \<Rightarrow> int \<Rightarrow> 'w \<Rightarrow> (job option \<times> log_index) result \<times> 'w"

text \<open>The server as a backend.\<close>

definition server_kv :: "'w cluster_env \<Rightarrow> 'w kv_ops" where
  "server_kv env = \<lparr>kv_Get = (\<lambda>key w. case server_Get env key w of
       (Inl err, w') \<Rightarrow> (Inl err, w') | (Inr None, w') \<Rightarrow> (Inr ([], False), w') | (Inr (Some v), w') \<Rightarrow> (Inr (v, True), w')),
     kv_Put = server_Put env, kv_Delete = server_Delete env\<rparr>"

definition server_jobs :: "'w cluster_env \<Rightarrow> 'w job_backend" where
  "server_jobs env jobID payload scheduledAt w =
     (case server_CreateJob env jobID payload scheduledAt w of
        ((Inl err, index), w') \<Rightarrow> (Inl err, w') | ((Inr j, index), w') \<Rightarrow> (Inr (Some j, index), w'))"

section \<open>The service\<close>

record get_request = gq_key :: string
record get_response = gs_value :: bytes  gs_found :: bool
record put_request = pq_key :: string  pq_value :: bytes
record delete_request = dq_key :: string
record create_job_request = cq_job_id :: string  cq_payload :: bytes  cq_scheduled_at :: int
record create_job_response = cs_index :: nat

text \<open>A status of gRPC is its code and its message.\<close>

definition status_error :: "string \<Rightarrow> string \<Rightarrow> go_error" where
  "status_error code msg = Wrapf code [Message msg]"

record 'w kv_service =
  ks_store :: "'w kv_ops"
  ks_jobs :: "'w job_backend option"

definition NewKVService :: "'w kv_ops option \<Rightarrow> 'w job_backend option \<Rightarrow> 'w kv_service result" where
  "NewKVService store jobs =
     (case store of None \<Rightarrow> Inl (Message ''kv store is required'') | Some s \<Rightarrow> Inr \<lparr>ks_store = s, ks_jobs = jobs\<rparr>)"

definition svc_Get :: "'w kv_service \<Rightarrow> get_request option \<Rightarrow> 'w \<Rightarrow> get_response result \<times> 'w" where
  "svc_Get s req w =
     (case req of
        None \<Rightarrow> (Inl (Message ''get request is required''), w)
      | Some q \<Rightarrow>
        (case kv_Get (ks_store s) (gq_key q) w of
           (Inl err, w') \<Rightarrow> (Inl err, w')
         | (Inr (v, found), w') \<Rightarrow> (Inr \<lparr>gs_value = v, gs_found = found\<rparr>, w')))"

definition svc_Put :: "'w kv_service \<Rightarrow> put_request option \<Rightarrow> 'w \<Rightarrow> unit result \<times> 'w" where
  "svc_Put s req w =
     (case req of
        None \<Rightarrow> (Inl (Message ''put request is required''), w)
      | Some q \<Rightarrow>
        (case kv_Put (ks_store s) (pq_key q) (pq_value q) w of
           (Some err, w') \<Rightarrow> (Inl err, w')
         | (None, w') \<Rightarrow> (Inr (), w')))"

definition svc_Delete :: "'w kv_service \<Rightarrow> delete_request option \<Rightarrow> 'w \<Rightarrow> unit result \<times> 'w" where
  "svc_Delete s req w =
     (case req of
        None \<Rightarrow> (Inl (Message ''delete request is required''), w)
      | Some q \<Rightarrow>
        (case kv_Delete (ks_store s) (dq_key q) w of
           (Some err, w') \<Rightarrow> (Inl err, w')
         | (None, w') \<Rightarrow> (Inr (), w')))"

definition svc_CreateJob :: "'w kv_service \<Rightarrow> create_job_request option \<Rightarrow> 'w \<Rightarrow> create_job_response result \<times> 'w" where
  "svc_CreateJob s req w =
     (case req of
        None \<Rightarrow> (Inl (status_error ''InvalidArgument'' ''create job request is required''), w)
      | Some q \<Rightarrow>
        (case ks_jobs s of
           None \<Rightarrow> (Inl (status_error ''Unimplemented'' ''job operations are not supported''), w)
         | Some create \<Rightarrow>
           (case create (cq_job_id q) (cq_payload q) (cq_scheduled_at q) w of
              (Inl err, w') \<Rightarrow> (Inl err, w')
            | (Inr (None, index), w') \<Rightarrow> (Inl (status_error ''Internal'' ''job creation returned no job''), w')
            | (Inr (Some j, index), w') \<Rightarrow> (Inr \<lparr>cs_index = index\<rparr>, w'))))"

section \<open>The client\<close>

definition ErrClientClosed :: go_error where "ErrClientClosed = Sentinel ''client is closed''"
definition ErrGRPCClientClosed :: go_error where "ErrGRPCClientClosed = Sentinel ''grpc client is closed''"

text \<open>The generated stub of the service.\<close>

record 'w kv_stub =
  stub_Get :: "get_request \<Rightarrow> 'w \<Rightarrow> get_response result \<times> 'w"
  stub_Put :: "put_request \<Rightarrow> 'w \<Rightarrow> unit result \<times> 'w"
  stub_Delete :: "delete_request \<Rightarrow> 'w \<Rightarrow> unit result \<times> 'w"
  stub_CreateJob :: "create_job_request \<Rightarrow> 'w \<Rightarrow> create_job_response result \<times> 'w"

type_synonym 'w job_ops = "string \<Rightarrow> bytes \<Rightarrow> int \<Rightarrow> 'w \<Rightarrow> nat result \<times> 'w"

definition grpc_Get :: "'w kv_stub option \<Rightarrow> string \<Rightarrow> 'w \<Rightarrow> (bytes \<times> bool) result \<times> 'w" where
  "grpc_Get c key w =
     (case c of
        None \<Rightarrow> (Inl ErrGRPCClientClosed, w)
      | Some stub \<Rightarrow>
        (case stub_Get stub \<lparr>gq_key = key\<rparr> w of
           (Inl err, w') \<Rightarrow> (Inl err, w')
         | (Inr m, w') \<Rightarrow> (Inr (gs_value m, gs_found m), w')))"

definition grpc_Put :: "'w kv_stub option \<Rightarrow> string \<Rightarrow> bytes \<Rightarrow> 'w \<Rightarrow> go_error option \<times> 'w" where
  "grpc_Put c key v w =
     (case c of
        None \<Rightarrow> (Some ErrGRPCClientClosed, w)
      | Some stub \<Rightarrow> (case stub_Put stub \<lparr>pq_key = key, pq_value = v\<rparr> w of (Inl err, w') \<Rightarrow> (Some err, w') | (Inr _, w') \<Rightarrow> (None, w')))"

definition grpc_Delete :: "'w kv_stub option \<Rightarrow> string \<Rightarrow> 'w \<Rightarrow> go_error option \<times> 'w" where
  "grpc_Delete c key w =
     (case c of
        None \<Rightarrow> (Some ErrGRPCClientClosed, w)
      | Some stub \<Rightarrow> (case stub_Delete stub \<lparr>dq_key = key\<rparr> w of (Inl err, w') \<Rightarrow> (Some err, w') | (Inr _, w') \<Rightarrow> (None, w')))"

definition grpc_CreateJob :: "'w kv_stub option \<Rightarrow> 'w job_ops" where
  "grpc_CreateJob c jobID payload scheduledAt w =
     (case c of
        None \<Rightarrow> (Inl ErrGRPCClientClosed, w)
      | Some stub \<Rightarrow>
        (case stub_CreateJob stub \<lparr>cq_job_id = jobID, cq_payload = payload, cq_scheduled_at = scheduledAt\<rparr> w of
           (Inl err, w') \<Rightarrow> (Inl err, w')
         | (Inr m, w') \<Rightarrow> (Inr (cs_index m), w')))"

definition newGRPCKV :: "'w kv_stub option \<Rightarrow> 'w kv_ops result" where
  "newGRPCKV c = (if c = None then Inl (Message ''kv grpc client is required'')
     else Inr \<lparr>kv_Get = grpc_Get c, kv_Put = grpc_Put c, kv_Delete = grpc_Delete c\<rparr>)"

definition newGRPCJob :: "'w kv_stub option \<Rightarrow> 'w job_ops result" where
  "newGRPCJob c = (if c = None then Inl (Message ''job grpc client is required'') else Inr (grpc_CreateJob c))"

definition local_CreateJob :: "'w job_backend option \<Rightarrow> 'w job_ops" where
  "local_CreateJob backend jobID payload scheduledAt w =
     (case backend of
        None \<Rightarrow> (Inl ErrClientClosed, w)
      | Some create \<Rightarrow>
        (case create jobID payload scheduledAt w of
           (Inl err, w') \<Rightarrow> (Inl err, w')
         | (Inr (_, index), w') \<Rightarrow> (Inr index, w')))"

definition newLocalJob :: "'w job_backend option \<Rightarrow> 'w job_ops result" where
  "newLocalJob backend = (if backend = None then Inl ErrClientClosed else Inr (local_CreateJob backend))"

text \<open>A nil client is \<open>None\<close>; \<open>cl_conn\<close> is the outcome of closing its connection, if it has one.\<close>

record 'w client =
  cl_kv :: "'w kv_ops option"
  cl_job :: "'w job_ops option"
  cl_conn :: "go_error option option"
  cl_closed :: bool

definition client_New :: "'w kv_ops option \<Rightarrow> 'w job_backend option \<Rightarrow> 'w client" where
  "client_New kv backend = \<lparr>cl_kv = kv,
     cl_job = (if backend = None then None else case newLocalJob backend of Inl _ \<Rightarrow> None | Inr job \<Rightarrow> Some job),
     cl_conn = None, cl_closed = False\<rparr>"

definition newWithConnection :: "go_error option option \<Rightarrow> 'w kv_stub \<Rightarrow> 'w client result" where
  "newWithConnection conn stub =
     (case conn of
        None \<Rightarrow> Inl (Message ''grpc client connection is required'')
      | Some _ \<Rightarrow>
        (case newGRPCKV (Some stub) of
           Inl err \<Rightarrow> Inl err
         | Inr kv \<Rightarrow> (case newGRPCJob (Some stub) of Inl err \<Rightarrow> Inl err
             | Inr job \<Rightarrow> Inr \<lparr>cl_kv = Some kv, cl_job = Some job, cl_conn = conn, cl_closed = False\<rparr>)))"

text \<open>\<open>dial\<close> is the outcome of \<^verbatim>\<open>grpc.NewClient\<close>: a connection, with what closing it returns, and the stub on it.\<close>

definition client_Dial :: "(string \<Rightarrow> (go_error option \<times> 'w kv_stub) result) \<Rightarrow> string \<Rightarrow> 'w client result" where
  "client_Dial dial address =
     (if address = [] then Inl (Message ''client address is required'')
      else case dial address of
        Inl err \<Rightarrow> Inl (Wrapf ''dial'' [err])
      | Inr (closing, stub) \<Rightarrow>
        (case newWithConnection (Some closing) stub of
           Inl err \<Rightarrow> Inl (Wrapf (if closing = None then ''create client'' else ''create client; close connection'') [err])
         | Inr c \<Rightarrow> Inr c))"

definition client_backend :: "'w client option \<Rightarrow> 'w kv_ops result" where
  "client_backend c =
     (case c of
        None \<Rightarrow> Inl ErrClientClosed
      | Some c \<Rightarrow> if cl_closed c then Inl ErrClientClosed else case cl_kv c of None \<Rightarrow> Inl ErrClientClosed | Some kv \<Rightarrow> Inr kv)"

definition client_Get :: "'w client option \<Rightarrow> string \<Rightarrow> 'w \<Rightarrow> (bytes \<times> bool) result \<times> 'w" where
  "client_Get c key w = (case client_backend c of Inl err \<Rightarrow> (Inl err, w) | Inr kv \<Rightarrow> kv_Get kv key w)"

definition client_Put :: "'w client option \<Rightarrow> string \<Rightarrow> bytes \<Rightarrow> 'w \<Rightarrow> go_error option \<times> 'w" where
  "client_Put c key v w = (case client_backend c of Inl err \<Rightarrow> (Some err, w) | Inr kv \<Rightarrow> kv_Put kv key v w)"

definition client_Delete :: "'w client option \<Rightarrow> string \<Rightarrow> 'w \<Rightarrow> go_error option \<times> 'w" where
  "client_Delete c key w = (case client_backend c of Inl err \<Rightarrow> (Some err, w) | Inr kv \<Rightarrow> kv_Delete kv key w)"

definition client_CreateJob :: "'w client option \<Rightarrow> 'w job_ops" where
  "client_CreateJob c jobID payload scheduledAt w =
     (case c of
        None \<Rightarrow> (Inl ErrClientClosed, w)
      | Some c \<Rightarrow>
          if cl_closed c then (Inl ErrClientClosed, w)
          else case cl_job c of None \<Rightarrow> (Inl ErrClientClosed, w) | Some job \<Rightarrow> job jobID payload scheduledAt w)"

definition client_Close :: "'w client option \<Rightarrow> go_error option \<times> 'w client option" where
  "client_Close c =
     (case c of
        None \<Rightarrow> (None, None)
      | Some c \<Rightarrow>
          if cl_closed c then (None, Some c)
          else (case cl_conn c of None \<Rightarrow> None | Some closing \<Rightarrow> closing, Some (c\<lparr>cl_closed := True\<rparr>)))"

section \<open>The contract of the stub\<close>

text \<open>A response is the response of one run of the handler; a call that fails has run it once or not at all.\<close>

definition one_run :: "('w \<Rightarrow> 'm result \<times> 'w) \<Rightarrow> ('w \<Rightarrow> 'm result \<times> 'w) \<Rightarrow> bool" where
  "one_run call handler \<longleftrightarrow> (\<forall>w r w'. call w = (r, w') \<longrightarrow>
     (case r of Inl _ \<Rightarrow> w' = w \<or> w' = snd (handler w) | Inr m \<Rightarrow> handler w = (Inr m, w')))"

locale kv_network =
  fixes stub :: "'w kv_stub" and service :: "'w kv_service"
  assumes Get_run: "one_run (stub_Get stub gq) (svc_Get service (Some gq))"
    and Put_run: "one_run (stub_Put stub pq) (svc_Put service (Some pq))"
    and Delete_run: "one_run (stub_Delete stub dq) (svc_Delete service (Some dq))"
    and CreateJob_run: "one_run (stub_CreateJob stub cq) (svc_CreateJob service (Some cq))"

lemma one_run_ok: "one_run call handler \<Longrightarrow> call w = (Inr m, w') \<Longrightarrow> handler w = (Inr m, w')"
  by (fastforce simp: one_run_def)

lemma one_run_error: "one_run call handler \<Longrightarrow> call w = (Inl err, w') \<Longrightarrow> w' = w \<or> w' = snd (handler w)"
  by (fastforce simp: one_run_def)

lemma svc_Put_simp: "svc_Put s (Some \<lparr>pq_key = key, pq_value = v\<rparr>) w = (case kv_Put (ks_store s) key v w of
    (Some err, w') \<Rightarrow> (Inl err, w') | (None, w') \<Rightarrow> (Inr (), w'))"
  by (simp add: svc_Put_def)

context kv_network
begin

text \<open>What the client is told is what the backend answered, and an error does not say whether a write has taken effect.\<close>

lemma put_acknowledged:
  assumes "grpc_Put (Some stub) key v w = (None, w')"
  shows "kv_Put (ks_store service) key v w = (None, w')"
proof -
  from assms have "stub_Put stub \<lparr>pq_key = key, pq_value = v\<rparr> w = (Inr (), w')" by (auto simp: grpc_Put_def split: prod.splits sum.splits)
  from one_run_ok [OF Put_run this] show ?thesis by (auto simp: svc_Put_simp split: prod.splits option.splits)
qed

lemma put_failed:
  assumes "grpc_Put (Some stub) key v w = (Some err, w')"
  shows "w' = w \<or> w' = snd (kv_Put (ks_store service) key v w)"
proof -
  from assms have "stub_Put stub \<lparr>pq_key = key, pq_value = v\<rparr> w = (Inl err, w')" by (auto simp: grpc_Put_def split: prod.splits sum.splits)
  from one_run_error [OF Put_run this] show ?thesis by (auto simp: svc_Put_simp split: prod.splits option.splits)
qed

lemma get_answered:
  assumes "grpc_Get (Some stub) key w = (Inr (v, found), w')"
  shows "kv_Get (ks_store service) key w = (Inr (v, found), w')"
proof -
  from assms obtain m where m: "stub_Get stub \<lparr>gq_key = key\<rparr> w = (Inr m, w')" "v = gs_value m" "found = gs_found m"
    by (auto simp: grpc_Get_def split: prod.splits sum.splits)
  from one_run_ok [OF Get_run m(1)] m(2,3) show ?thesis by (auto simp: svc_Get_def split: prod.splits sum.splits)
qed

lemma delete_acknowledged:
  assumes "grpc_Delete (Some stub) key w = (None, w')"
  shows "kv_Delete (ks_store service) key w = (None, w')"
proof -
  from assms have "stub_Delete stub \<lparr>dq_key = key\<rparr> w = (Inr (), w')" by (auto simp: grpc_Delete_def split: prod.splits sum.splits)
  from one_run_ok [OF Delete_run this] show ?thesis by (auto simp: svc_Delete_def split: prod.splits option.splits)
qed

lemma job_created:
  assumes "grpc_CreateJob (Some stub) jobID payload t w = (Inr index, w')"
  obtains create j where "ks_jobs service = Some create" "create jobID payload t w = (Inr (Some j, index), w')"
proof -
  from assms obtain m where m: "stub_CreateJob stub \<lparr>cq_job_id = jobID, cq_payload = payload, cq_scheduled_at = t\<rparr> w = (Inr m, w')" "index = cs_index m"
    by (auto simp: grpc_CreateJob_def split: prod.splits sum.splits)
  from one_run_ok [OF CreateJob_run m(1)] m(2) that show thesis by (auto simp: svc_CreateJob_def split: prod.splits sum.splits option.splits)
qed

end

section \<open>A connection without faults of its own\<close>

definition direct_stub :: "'w kv_service \<Rightarrow> 'w kv_stub" where
  "direct_stub s = \<lparr>stub_Get = (\<lambda>q. svc_Get s (Some q)), stub_Put = (\<lambda>q. svc_Put s (Some q)),
     stub_Delete = (\<lambda>q. svc_Delete s (Some q)), stub_CreateJob = (\<lambda>q. svc_CreateJob s (Some q))\<rparr>"

lemma one_run_refl: "one_run f f"
  by (auto simp: one_run_def split: sum.split)

interpretation ds: kv_network "direct_stub s" s for s
  by unfold_locales (simp_all add: direct_stub_def one_run_refl)

definition server_service :: "'w cluster_env \<Rightarrow> 'w kv_service" where
  "server_service env = \<lparr>ks_store = server_kv env, ks_jobs = Some (server_jobs env)\<rparr>"

lemma dialled_client:
  "client_Dial (\<lambda>_. Inr (None, direct_stub (server_service env))) (a # as) =
     Inr \<lparr>cl_kv = Some \<lparr>kv_Get = grpc_Get (Some (direct_stub (server_service env))), kv_Put = grpc_Put (Some (direct_stub (server_service env))),
         kv_Delete = grpc_Delete (Some (direct_stub (server_service env)))\<rparr>,
       cl_job = Some (grpc_CreateJob (Some (direct_stub (server_service env)))), cl_conn = Some None, cl_closed = False\<rparr>"
  by (simp add: client_Dial_def newWithConnection_def newGRPCKV_def newGRPCJob_def)

text \<open>Through a client that was dialled, on a single-node cluster: what was put is what is read.\<close>

lemma client_reads_writes:
  assumes "local_ok low high (Suc n) w" "utf8_ok key"
    and "client_Dial (\<lambda>_. Inr (None, direct_stub (server_service (local_env memory_ops)))) (a # as) = Inr c"
  shows "\<exists>w1 w2. client_Put (Some c) key v w = (None, w1) \<and> client_Get (Some c) key w1 = (Inr (v, True), w2) \<and>
    a_store (lw_applier w2) = store_Put (a_store (lw_applier w)) key v"
proof -
  from lc.put_then_get [OF assms(1,2), of v] obtain w1 w2 where
    "server_Put (local_env memory_ops) key v w = (None, w1)" "server_Get (local_env memory_ops) key w1 = (Inr (Some v), w2)"
    "a_store (lw_applier w2) = store_Put (a_store (lw_applier w)) key v" by (auto simp: local_env_def)
  then show ?thesis using assms(3) unfolding dialled_client
    by (intro exI [of _ w1] exI [of _ w2]) (auto simp: client_Put_def client_Get_def client_backend_def grpc_Put_def grpc_Get_def direct_stub_def
      svc_Put_def svc_Get_def server_service_def server_kv_def)
qed

lemma closed_client_refuses:
  assumes "client_Close (Some c) = (err, c')"
  shows "client_Put c' key v w = (Some ErrClientClosed, w) \<and> client_Get c' key w = (Inl ErrClientClosed, w) \<and>
    client_CreateJob c' jobID payload t w = (Inl ErrClientClosed, w) \<and> client_Close c' = (None, c')"
  using assms by (auto simp: client_Close_def client_Put_def client_Get_def client_CreateJob_def client_backend_def split: if_splits)

end
