(* ===== verification/Node_Servers.thy ===== *)
theory Node_Servers
  imports Raft_Drive
begin

text \<open>
  The servers of a node: the gRPC server (\<^verbatim>\<open>internal/transport/server.go\<close>) and the health and metrics servers of
  \<^verbatim>\<open>internal/observability\<close>.  What a listener, the gRPC server or \<^verbatim>\<open>net/http\<close> answers is a parameter.  A nil receiver is \<open>None\<close>.
\<close>

section \<open>The gRPC server\<close>

definition ErrServerClosed :: go_error where "ErrServerClosed = Sentinel ''transport server is closed''"

record transport_server =
  ts_address :: string
  ts_listener :: "string option"
  ts_grpc :: bool
  ts_services :: "string list"

definition transport_NewServer :: "(string \<Rightarrow> string result) \<Rightarrow> string \<Rightarrow> transport_server result" where
  "transport_NewServer listen address =
     (if address = [] then Inl (Message ''transport server address is required'')
      else case listen address of
        Inl err \<Rightarrow> Inl (Wrapf ''listen on'' [err])
      | Inr bound \<Rightarrow> Inr \<lparr>ts_address = address, ts_listener = Some bound, ts_grpc = True, ts_services = []\<rparr>)"

text \<open>\<open>outcome\<close> is what \<^verbatim>\<open>grpc.Server.Serve\<close> returns in the end.\<close>

definition transport_Serve :: "go_error option \<Rightarrow> transport_server option \<Rightarrow> go_error option" where
  "transport_Serve outcome srv =
     (case srv of
        None \<Rightarrow> Some ErrServerClosed
      | Some s \<Rightarrow>
          if \<not> ts_grpc s \<or> ts_listener s = None then Some ErrServerClosed
          else case outcome of Some err \<Rightarrow> Some (Wrapf ''serve gRPC'' [err]) | None \<Rightarrow> None)"

text \<open>How a stopping server and its context end: the graceful stop first, or the context with its error, after which the server is stopped
  at once.  \<open>None\<close> is a nil context.\<close>

datatype stop_race = StoppedGracefully | ContextEnded go_error

definition transport_Shutdown :: "stop_race option \<Rightarrow> transport_server option \<Rightarrow> go_error option" where
  "transport_Shutdown race srv =
     (case srv of
        None \<Rightarrow> None
      | Some s \<Rightarrow>
          if \<not> ts_grpc s then None
          else case race of
            None \<Rightarrow> Some (Message ''shutdown context is nil'')
          | Some StoppedGracefully \<Rightarrow> None
          | Some (ContextEnded err) \<Rightarrow> Some (Wrapf ''graceful shutdown'' [err]))"

definition transport_Address :: "transport_server option \<Rightarrow> string" where
  "transport_Address srv = (case srv of None \<Rightarrow> [] | Some s \<Rightarrow> (case ts_listener s of None \<Rightarrow> [] | Some bound \<Rightarrow> bound))"

definition RegisterRaftService :: "'a option \<Rightarrow> transport_server option \<Rightarrow> go_error option \<times> transport_server option" where
  "RegisterRaftService service srv =
     (case srv of
        None \<Rightarrow> (Some ErrServerClosed, srv)
      | Some s \<Rightarrow>
          if \<not> ts_grpc s then (Some ErrServerClosed, srv)
          else if service = None then (Some (Message ''raft service is required''), srv)
          else (None, Some (s\<lparr>ts_services := ts_services s @ [''RaftService'']\<rparr>)))"

definition RegisterKVService :: "'a option \<Rightarrow> transport_server option \<Rightarrow> go_error option \<times> transport_server option" where
  "RegisterKVService service srv =
     (case srv of
        None \<Rightarrow> (Some ErrServerClosed, srv)
      | Some s \<Rightarrow>
          if \<not> ts_grpc s then (Some ErrServerClosed, srv)
          else if service = None then (Some (Message ''kv service is required''), srv)
          else (None, Some (s\<lparr>ts_services := ts_services s @ [''KVService'']\<rparr>)))"

section \<open>Health and readiness\<close>

definition ErrHealthServerClosed :: go_error where "ErrHealthServerClosed = Sentinel ''health server is closed''"

text \<open>A probe reads the state \<open>'w\<close> of the program.  In a response a check that passed is \<open>None\<close>, for the text \<open>ok\<close>, and one that failed is its error.\<close>

type_synonym 'w health_probe = "'w \<Rightarrow> go_error option"

record 'w health_server =
  hs_probes :: "(string, 'w health_probe) fmap"
  hs_listener :: string

record health_response =
  hr_code :: nat
  hr_Status :: string
  hr_Checks :: "(string \<times> go_error option) list"

definition NewHealthServer :: "(string \<Rightarrow> string result) \<Rightarrow> string \<Rightarrow> 'w health_server result" where
  "NewHealthServer listen address =
     (if address = [] then Inl (Message ''health server address is required'')
      else case listen address of
        Inl err \<Rightarrow> Inl (Wrapf ''listen for health server'' [err])
      | Inr bound \<Rightarrow> Inr \<lparr>hs_probes = fmempty, hs_listener = bound\<rparr>)"

definition RegisterReadinessProbe ::
  "string \<Rightarrow> 'w health_probe option \<Rightarrow> 'w health_server option \<Rightarrow> go_error option \<times> 'w health_server option" where
  "RegisterReadinessProbe name probe srv =
     (case srv of
        None \<Rightarrow> (Some ErrHealthServerClosed, srv)
      | Some s \<Rightarrow>
          if name = [] then (Some (Message ''readiness probe name is required''), srv)
          else case probe of
            None \<Rightarrow> (Some (Message ''readiness probe is required''), srv)
          | Some p \<Rightarrow> (None, Some (s\<lparr>hs_probes := fmupd name p (hs_probes s)\<rparr>)))"

definition UnregisterReadinessProbe :: "string \<Rightarrow> 'w health_server option \<Rightarrow> 'w health_server option" where
  "UnregisterReadinessProbe name srv =
     (case srv of None \<Rightarrow> srv | Some s \<Rightarrow> if name = [] then srv else Some (s\<lparr>hs_probes := fmdrop name (hs_probes s)\<rparr>))"

definition handleHealth :: health_response where
  "handleHealth = \<lparr>hr_code = 200, hr_Status = ''ok'', hr_Checks = []\<rparr>"

definition handleReadiness :: "'w health_server option \<Rightarrow> 'w \<Rightarrow> health_response" where
  "handleReadiness srv w =
     (case srv of
        None \<Rightarrow> \<lparr>hr_code = 503, hr_Status = ''not_ready'', hr_Checks = []\<rparr>
      | Some s \<Rightarrow>
          let checks = map (\<lambda>(name, probe). (name, probe w)) (map_range (hs_probes s))
          in if list_ex (\<lambda>(name, err). err \<noteq> None) checks then \<lparr>hr_code = 503, hr_Status = ''not_ready'', hr_Checks = checks\<rparr>
             else \<lparr>hr_code = 200, hr_Status = ''ready'', hr_Checks = checks\<rparr>)"

text \<open>\<open>outcome\<close> is what \<^verbatim>\<open>http.Server.Serve\<close> returns in the end.\<close>

definition ErrHTTPServerClosed :: go_error where "ErrHTTPServerClosed = Sentinel ''http: Server closed''"

definition health_Serve :: "go_error \<Rightarrow> 'w health_server option \<Rightarrow> go_error option" where
  "health_Serve outcome srv =
     (case srv of
        None \<Rightarrow> Some ErrHealthServerClosed
      | Some s \<Rightarrow> if errors_is outcome ErrHTTPServerClosed then None else Some (Wrapf ''serve health'' [outcome]))"

definition health_Shutdown :: "go_error option \<Rightarrow> 'w health_server option \<Rightarrow> go_error option" where
  "health_Shutdown outcome srv = (case srv of None \<Rightarrow> None | Some _ \<Rightarrow> outcome)"

definition health_Address :: "'w health_server option \<Rightarrow> string" where
  "health_Address srv = (case srv of None \<Rightarrow> [] | Some s \<Rightarrow> hs_listener s)"

text \<open>The probe of the Raft node; \<open>node\<close> reads the node's run state.\<close>

definition RaftReadinessProbe :: "('w \<Rightarrow> run_state option) \<Rightarrow> 'w health_probe" where
  "RaftReadinessProbe node w =
     (case node w of
        None \<Rightarrow> Some (Message ''raft node is nil'')
      | Some rs \<Rightarrow> if \<not> node_IsRunning (Some rs) then Some (Message ''raft node is not running'') else None)"

lemma handleReadiness_ready:
  "hr_code (handleReadiness (Some s) w) = 200 \<longleftrightarrow> (\<forall>name p. fmlookup (hs_probes s) name = Some p \<longrightarrow> p w = None)"
proof -
  have "list_ex (\<lambda>(name, err). err \<noteq> None) (map (\<lambda>(name, probe). (name, probe w)) (map_range (hs_probes s))) \<longleftrightarrow>
      (\<exists>name p. fmlookup (hs_probes s) name = Some p \<and> p w \<noteq> None)"
    by (fastforce simp: list_ex_iff set_map_range)
  then show ?thesis by (auto simp: handleReadiness_def Let_def)
qed

section \<open>The metrics server\<close>

definition ErrMetricsServerClosed :: go_error where "ErrMetricsServerClosed = Sentinel ''metrics server is closed''"

text \<open>A metrics server is the address of its listener.\<close>

definition NewMetricsServer :: "(string \<Rightarrow> string result) \<Rightarrow> string \<Rightarrow> bool \<Rightarrow> string result" where
  "NewMetricsServer listen address hasGatherer =
     (if address = [] then Inl (Message ''metrics server address is required'')
      else if \<not> hasGatherer then Inl (Message ''metrics gatherer is required'')
      else case listen address of Inl err \<Rightarrow> Inl (Wrapf ''listen for metrics server'' [err]) | Inr bound \<Rightarrow> Inr bound)"

definition metrics_Serve :: "go_error \<Rightarrow> string option \<Rightarrow> go_error option" where
  "metrics_Serve outcome srv =
     (case srv of
        None \<Rightarrow> Some ErrMetricsServerClosed
      | Some _ \<Rightarrow> if errors_is outcome ErrHTTPServerClosed then None else Some (Wrapf ''serve metrics'' [outcome]))"

definition metrics_Shutdown :: "bool \<Rightarrow> go_error option \<Rightarrow> string option \<Rightarrow> go_error option" where
  "metrics_Shutdown hasContext outcome srv =
     (case srv of
        None \<Rightarrow> None
      | Some _ \<Rightarrow>
          if \<not> hasContext then Some (Message ''shutdown context is required'')
          else case outcome of None \<Rightarrow> None | Some err \<Rightarrow> Some (Wrapf ''shutdown metrics server'' [err]))"

end
