(* ===== verification/WAL_Codec.thy ===== *)
theory WAL_Codec
  imports Storage_Iface Json_Decode "HOL-Library.Word"
begin

text \<open>
  The byte format of the write-ahead log: records with a length and a CRC-32 checksum
  (\<^verbatim>\<open>wal_record.go\<close>), and their payloads, the persistent state with its membership
  (\<^verbatim>\<open>wal_state.go\<close>, \<^verbatim>\<open>wal_membership.go\<close>), log entries and suffix replacements (\<^verbatim>\<open>wal_entries.go\<close>) and
  snapshots (\<^verbatim>\<open>wal_snapshot.go\<close>).

  Numbers are natural here; an encoder that is given one outside the width of its Go type reports an
  error, a case that does not arise in the program.
\<close>

section \<open>CRC-32\<close>

definition crc_bit :: "32 word \<Rightarrow> 32 word" where
  "crc_bit c = (if bit c 0 then Bit_Operations.xor (drop_bit 1 c) 0xEDB88320 else drop_bit 1 c)"

definition crc_byte :: "32 word \<Rightarrow> char \<Rightarrow> 32 word" where
  "crc_byte c b = (crc_bit ^^ 8) (Bit_Operations.xor c (word_of_nat (byte b)))"

definition ChecksumIEEE :: "bytes \<Rightarrow> nat" where
  "ChecksumIEEE bs = unat (Bit_Operations.xor (foldl crc_byte 0xFFFFFFFF bs) 0xFFFFFFFF)"

lemma ChecksumIEEE_bound: "ChecksumIEEE bs < 256 ^ 4"
proof -
  have "unat w < 2 ^ 32" for w :: "32 word" using unsigned_less [of w] by simp
  then show ?thesis by (simp add: ChecksumIEEE_def)
qed

text \<open>The check value of the checksum's specification.\<close>

lemma crc_byte_steps:
  "crc_byte c b = crc_bit (crc_bit (crc_bit (crc_bit (crc_bit (crc_bit (crc_bit (crc_bit
     (Bit_Operations.xor c (word_of_nat (byte b))))))))))"
  by (simp add: crc_byte_def eval_nat_numeral)

lemma ChecksumIEEE_check: "ChecksumIEEE ''123456789'' = 0xCBF43926"
  by (simp add: ChecksumIEEE_def crc_byte_steps crc_bit_def)

section \<open>Records\<close>

definition recordState :: char where "recordState = CHR 0x01"
definition recordEntries :: char where "recordEntries = CHR 0x02"
definition recordSnapshot :: char where "recordSnapshot = CHR 0x03"
definition recordReplaceSuffix :: char where "recordReplaceSuffix = CHR 0x04"
definition maxRecordPayloadSize :: nat where "maxRecordPayloadSize = 16777216"

definition encodeRecord :: "char \<Rightarrow> bytes \<Rightarrow> bytes result" where
  "encodeRecord recordType payload =
     (if length payload > maxRecordPayloadSize then Inl (Message ''record payload too large'')
      else let record' = recordType # put_uint32 (length payload) @ payload
           in Inr (record' @ put_uint32 (ChecksumIEEE record')))"

text \<open>Inside a record the end of the file is an incomplete record.\<close>

definition unexpected_eof :: "'a result \<Rightarrow> 'a result" where
  "unexpected_eof r = (case r of
      Inl err \<Rightarrow> Inl (if errors_is err io_EOF then io_ErrUnexpectedEOF else err) | Inr x \<Rightarrow> Inr x)"

definition decodeRecord :: "(char \<times> bytes) reader" where
  "decodeRecord bs =
     bind_result (read_byte bs) (\<lambda>(recordType, bs1).
     bind_result (unexpected_eof (read_uint32 bs1)) (\<lambda>(payloadLength, bs2).
       if payloadLength > maxRecordPayloadSize then Inl (Message ''WAL record payload too large'')
       else bind_result (unexpected_eof (read_full payloadLength bs2)) (\<lambda>(payload, bs3).
         bind_result (unexpected_eof (read_uint32 bs3)) (\<lambda>(storedChecksum, bs4).
           if storedChecksum \<noteq> ChecksumIEEE (recordType # put_uint32 payloadLength @ payload)
           then Inl (Message ''WAL checksum mismatch'')
           else Inr ((recordType, payload), bs4)))))"

section \<open>Log entries\<close>

definition put64 :: "nat \<Rightarrow> bytes result" where
  "put64 n = (if n < 2 ^ 64 then Inr (put_uint64 n) else Inl (Message ''not an unsigned 64-bit integer''))"

text \<open>A length field: the source compares with \<^verbatim>\<open>^uint32(0)\<close>.\<close>

definition put_len :: "string \<Rightarrow> nat \<Rightarrow> bytes result" where
  "put_len msg n = (if n > 4294967295 then Inl (Message msg) else Inr (put_uint32 n))"

definition encodeEntry :: "log_entry \<Rightarrow> bytes result" where
  "encodeEntry entry =
     bind_result (put64 (Index entry)) (\<lambda>i.
     bind_result (put64 (Term entry)) (\<lambda>t.
     bind_result (put_len ''entry data too large'' (length (Data entry))) (\<lambda>l.
       Inr (i @ t @ l @ Data entry))))"

fun encode_entries :: "string \<Rightarrow> log_entry list \<Rightarrow> bytes result" where
  "encode_entries msg [] = Inr []"
| "encode_entries msg (entry # rest) =
     bind_result (wrap_error msg (encodeEntry entry)) (\<lambda>b.
     bind_result (encode_entries msg rest) (\<lambda>bs. Inr (b @ bs)))"

definition encodeEntriesRecord :: "log_entry list \<Rightarrow> bytes result" where
  "encodeEntriesRecord entries =
     bind_result (put_len ''too many entries'' (length entries)) (\<lambda>c.
     bind_result (encode_entries ''encode entry'' entries) (\<lambda>es. encodeRecord recordEntries (c @ es)))"

definition encodeReplaceSuffixRecord :: "log_index \<Rightarrow> log_entry list \<Rightarrow> bytes result" where
  "encodeReplaceSuffixRecord from entries =
     bind_result (put64 from) (\<lambda>f.
     bind_result (put_len ''too many replacement entries'' (length entries)) (\<lambda>c.
     bind_result (encode_entries ''encode replacement entry'' entries) (\<lambda>es.
       encodeRecord recordReplaceSuffix (f @ c @ es))))"

definition decodeEntry :: "log_entry reader" where
  "decodeEntry bs =
     bind_result (wrap_error ''decode entry index'' (read_uint64 bs)) (\<lambda>(index, bs1).
     bind_result (wrap_error ''decode entry term'' (read_uint64 bs1)) (\<lambda>(term, bs2).
     bind_result (wrap_error ''decode entry data length'' (read_uint32 bs2)) (\<lambda>(dataLength, bs3).
       if dataLength > length bs3 then Inl (Message ''invalid entry data length'')
       else bind_result (wrap_error ''decode entry data'' (read_full dataLength bs3)) (\<lambda>(data, bs4).
         Inr (\<lparr>Index = index, Term = term, Data = data\<rparr>, bs4)))))"

fun decode_entries :: "string \<Rightarrow> nat \<Rightarrow> log_entry list reader" where
  "decode_entries msg 0 bs = Inr ([], bs)"
| "decode_entries msg (Suc k) bs =
     bind_result (wrap_error msg (decodeEntry bs)) (\<lambda>(entry, bs1).
     bind_result (decode_entries msg k bs1) (\<lambda>(rest, bs2). Inr (entry # rest, bs2)))"

definition minimumEntrySize :: nat where "minimumEntrySize = 20"

definition decodeEntriesPayload :: "bytes \<Rightarrow> log_entry list result" where
  "decodeEntriesPayload payload =
     bind_result (wrap_error ''decode entry count'' (read_uint32 payload)) (\<lambda>(entryCount, bs).
       if entryCount > length bs div minimumEntrySize then Inl (Message ''invalid entry count'')
       else bind_result (decode_entries ''decode entry'' entryCount bs) (\<lambda>(entries, rest).
         if rest \<noteq> [] then Inl (Message ''unexpected trailing entry data'')
         else case validateEntries entries of
           Some err \<Rightarrow> Inl (Wrapf ''validate decoded entries'' [err])
         | None \<Rightarrow> Inr entries))"

definition decodeReplaceSuffixPayload :: "bytes \<Rightarrow> (log_index \<times> log_entry list) result" where
  "decodeReplaceSuffixPayload payload =
     bind_result (wrap_error ''decode replacement index'' (read_uint64 payload)) (\<lambda>(from, bs).
     bind_result (wrap_error ''decode replacement entry count'' (read_uint32 bs)) (\<lambda>(entryCount, bs1).
       if entryCount > length bs1 div minimumEntrySize then Inl (Message ''invalid replacement entry count'')
       else bind_result (decode_entries ''decode replacement entry'' entryCount bs1) (\<lambda>(entries, rest).
         if rest \<noteq> [] then Inl (Message ''unexpected trailing replacement data'')
         else Inr (from, entries))))"

section \<open>Membership and persistent state\<close>

definition stateMembershipMagic :: nat where "stateMembershipMagic = 1380009556"
definition stateMembershipVersion :: char where "stateMembershipVersion = CHR 0x01"
definition maxWALConfigurationVoters :: nat where "maxWALConfigurationVoters = 1024"
definition maxWALConfigurationNodeID :: nat where "maxWALConfigurationNodeID = 1024"

fun encode_voters :: "node_id list \<Rightarrow> bytes result" where
  "encode_voters [] = Inr []"
| "encode_voters (voter # rest) =
     bind_result (put_len ''voter ID too large'' (length voter)) (\<lambda>l.
     bind_result (encode_voters rest) (\<lambda>bs. Inr (l @ voter @ bs)))"

definition encodeConfiguration :: "configuration \<Rightarrow> bytes result" where
  "encodeConfiguration c =
     bind_result (put_len ''too many configuration voters'' (length (Voters c))) (\<lambda>l.
     bind_result (encode_voters (Voters c)) (\<lambda>bs. Inr (l @ bs)))"

definition encodeMembership :: "membership \<Rightarrow> bytes result" where
  "encodeMembership m =
     bind_result (wrap_error ''encode current configuration'' (encodeConfiguration (Current m))) (\<lambda>current.
       let head = put_uint32 stateMembershipMagic @ stateMembershipVersion # current
       in case Joint m of
            None \<Rightarrow> Inr (head @ [CHR 0x00])
          | Some j \<Rightarrow>
              bind_result (wrap_error ''encode joint old configuration'' (encodeConfiguration (Old j))) (\<lambda>old.
              bind_result (wrap_error ''encode joint new configuration'' (encodeConfiguration (New j))) (\<lambda>new.
                Inr (head @ CHR 0x01 # old @ new))))"

fun decode_voters :: "nat \<Rightarrow> node_id list \<Rightarrow> node_id list reader" where
  "decode_voters 0 voters bs = Inr (voters, bs)"
| "decode_voters (Suc k) voters bs =
     bind_result (wrap_error ''decode voter length'' (read_uint32 bs)) (\<lambda>(len, bs1).
       if len = 0 then Inl (Message ''voter has empty ID'')
       else if len > maxWALConfigurationNodeID then Inl (Message ''voter ID is too long'')
       else if len > length bs1 then Inl (Message ''voter ID is truncated'')
       else bind_result (wrap_error ''decode voter'' (read_full len bs1)) (\<lambda>(voterID, bs2).
         if voterID \<in> set voters then Inl (Message ''duplicate voter ID'')
         else decode_voters k (voters @ [voterID]) bs2))"

definition decodeConfiguration :: "configuration reader" where
  "decodeConfiguration bs =
     bind_result (wrap_error ''decode voter count'' (read_uint32 bs)) (\<lambda>(voterCount, bs1).
       if voterCount > maxWALConfigurationVoters then Inl (Message ''configuration contains too many voters'')
       else if voterCount = 0 then Inr (\<lparr>Voters = []\<rparr>, bs1)
       else bind_result (decode_voters voterCount [] bs1) (\<lambda>(voters, bs2). Inr (\<lparr>Voters = voters\<rparr>, bs2)))"

definition decodeMembership :: "membership reader" where
  "decodeMembership bs =
     bind_result (wrap_error ''decode membership magic'' (read_uint32 bs)) (\<lambda>(magic, bs1).
       if magic \<noteq> stateMembershipMagic then Inl (Message ''invalid membership magic'')
       else bind_result (wrap_error ''decode membership version'' (read_byte bs1)) (\<lambda>(version, bs2).
         if version \<noteq> stateMembershipVersion then Inl (Wrapf ''membership version'' [ErrWALVersion])
         else bind_result (wrap_error ''decode current configuration'' (decodeConfiguration bs2)) (\<lambda>(current, bs3).
           bind_result (wrap_error ''decode joint configuration flag'' (read_byte bs3)) (\<lambda>(jointFlag, bs4).
             if jointFlag = CHR 0x00 then Inr (\<lparr>Current = current, Joint = None\<rparr>, bs4)
             else if jointFlag = CHR 0x01 then
               bind_result (wrap_error ''decode joint old configuration'' (decodeConfiguration bs4)) (\<lambda>(old, bs5).
               bind_result (wrap_error ''decode joint new configuration'' (decodeConfiguration bs5)) (\<lambda>(new, bs6).
                 Inr (\<lparr>Current = current, Joint = Some \<lparr>Old = old, New = new\<rparr>\<rparr>, bs6)))
             else Inl (Message ''invalid joint configuration flag'')))))"

definition encode_state :: "persistent_state \<Rightarrow> bytes result" where
  "encode_state p =
     bind_result (put64 (CurrentTerm p)) (\<lambda>t.
     bind_result (put_len ''voted-for value too large'' (length (VotedFor p))) (\<lambda>l.
     bind_result (wrap_error ''encode membership'' (encodeMembership (Membership p))) (\<lambda>m.
       Inr (t @ l @ VotedFor p @ m))))"

definition encodeStateRecord :: "persistent_state \<Rightarrow> bytes result" where
  "encodeStateRecord p = bind_result (encode_state p) (encodeRecord recordState)"

definition decodeStatePayload :: "bytes \<Rightarrow> persistent_state result" where
  "decodeStatePayload payload =
     bind_result (wrap_error ''decode current term'' (read_uint64 payload)) (\<lambda>(term, bs1).
     bind_result (wrap_error ''decode voted-for length'' (read_uint32 bs1)) (\<lambda>(votedForLength, bs2).
       if votedForLength > length bs2 then Inl (Message ''invalid voted-for length'')
       else bind_result (wrap_error ''decode voted-for'' (read_full votedForLength bs2)) (\<lambda>(votedFor, bs3).
         let state = zero_persistent_state\<lparr>CurrentTerm := term, VotedFor := votedFor\<rparr>
         in if bs3 = [] then Inr state
            else bind_result (wrap_error ''decode membership'' (decodeMembership bs3)) (\<lambda>(m, bs4).
              if bs4 \<noteq> [] then Inl (Message ''unexpected trailing state data'')
              else Inr (state\<lparr>Membership := m\<rparr>)))))"

section \<open>Snapshots\<close>

definition snapshot_json :: "snapshot \<Rightarrow> json" where
  "snapshot_json sn = JObject [(''LastIncludedIndex'', json_nat (LastIncludedIndex sn)),
     (''LastIncludedTerm'', json_nat (LastIncludedTerm sn)), (''Data'', json_bytes (SnapData sn))]"

definition encodeSnapshotPayload :: "snapshot \<Rightarrow> bytes result" where
  "encodeSnapshotPayload sn =
     (let data = json_print (snapshot_json sn)
      in if length data > maxRecordPayloadSize then Inl (Message ''snapshot payload too large'') else Inr data)"

definition set_snapshot_field :: "string \<Rightarrow> json \<Rightarrow> snapshot \<Rightarrow> snapshot result" where
  "set_snapshot_field name v sn =
     (if name = ''LastIncludedIndex''
      then bind_result (dec_uint 64 (LastIncludedIndex sn) v) (\<lambda>x. Inr (sn\<lparr>LastIncludedIndex := x\<rparr>))
      else if name = ''LastIncludedTerm''
      then bind_result (dec_uint 64 (LastIncludedTerm sn) v) (\<lambda>x. Inr (sn\<lparr>LastIncludedTerm := x\<rparr>))
      else bind_result (dec_bytes v) (\<lambda>x. Inr (sn\<lparr>SnapData := x\<rparr>)))"

definition decodeSnapshotPayload :: "bytes \<Rightarrow> snapshot result" where
  "decodeSnapshotPayload payload =
     wrap_error ''decode snapshot payload'' (bind_result (json_parse payload)
       (dec_struct [''LastIncludedIndex'', ''LastIncludedTerm'', ''Data''] set_snapshot_field zero_snapshot))"

end
