(* ===== verification/WAL_Roundtrip.thy ===== *)
theory WAL_Roundtrip
  imports WAL_Codec
begin

text \<open>
  Decoding the write-ahead log: a complete record is read back, a proper prefix of one is reported as
  the unexpected end of the file, and a payload decodes to the value it was made from or to an error.
\<close>

section \<open>Records\<close>

lemma errors_is_eof: "errors_is io_ErrUnexpectedEOF io_EOF = False"
  by simp

lemma unexpected_eof_simps [simp]:
  "unexpected_eof (Inr x) = Inr x" "unexpected_eof (Inl io_EOF) = Inl io_ErrUnexpectedEOF"
  "unexpected_eof (Inl io_ErrUnexpectedEOF) = Inl io_ErrUnexpectedEOF"
  by (simp_all add: unexpected_eof_def)

lemma unexpected_eof_Inr: "unexpected_eof r = Inr x \<longleftrightarrow> r = Inr x"
  by (cases r) (simp_all add: unexpected_eof_def)

lemma read_full_torn: "length bs < k \<Longrightarrow> unexpected_eof (read_full k bs) = Inl io_ErrUnexpectedEOF"
  by (auto simp: read_full_def)

lemma read_uint_torn: "length bs < k \<Longrightarrow> unexpected_eof (read_uint k bs) = Inl io_ErrUnexpectedEOF"
  by (auto simp: read_uint_def read_full_def)

lemma encodeRecord_Inr:
  "encodeRecord t p = Inr r \<longleftrightarrow> length p \<le> maxRecordPayloadSize \<and>
     r = t # put_uint32 (length p) @ p @ put_uint32 (ChecksumIEEE (t # put_uint32 (length p) @ p))"
  by (auto simp: encodeRecord_def Let_def)

lemma payload_length: "length p \<le> maxRecordPayloadSize \<Longrightarrow> length p < 256 ^ 4"
  by (simp add: maxRecordPayloadSize_def)

lemma decodeRecord_encode:
  assumes "encodeRecord t p = Inr r"
  shows "decodeRecord (r @ rest) = Inr ((t, p), rest)"
proof -
  from assms have p: "length p \<le> maxRecordPayloadSize"
    and r: "r = t # put_uint32 (length p) @ p @ put_uint32 (ChecksumIEEE (t # put_uint32 (length p) @ p))"
    by (simp_all add: encodeRecord_Inr)
  have "read_uint32 (put_uint32 (length p) @ x) = Inr (length p, x)" for x
    by (rule read_uint_put [OF payload_length [OF p]])
  moreover have "read_uint32 (put_uint32 (ChecksumIEEE y) @ x) = Inr (ChecksumIEEE y, x)" for x y
    by (rule read_uint_put [OF ChecksumIEEE_bound])
  ultimately show ?thesis using p by (simp add: decodeRecord_def r read_full_append)
qed

lemma take_append_cases:
  assumes "k < length (xs @ ys)"
  obtains (left) "k < length xs" "take k (xs @ ys) = take k xs"
  | (right) j where "j < length ys" "take k (xs @ ys) = xs @ take j ys"
proof (cases "k < length xs")
  case True
  then show thesis by (intro left) simp_all
next
  case False
  with assms have "k - length xs < length ys" "take k (xs @ ys) = xs @ take (k - length xs) ys" by auto
  then show thesis by (rule right)
qed

text \<open>A crash in the middle of a record.\<close>

lemma decodeRecord_torn:
  assumes "encodeRecord t p = Inr r" "0 < k" "k < length r"
  shows "decodeRecord (take k r) = Inl io_ErrUnexpectedEOF"
proof -
  let ?l = "put_uint32 (length p)" and ?c = "put_uint32 (ChecksumIEEE (t # put_uint32 (length p) @ p))"
  from assms have p: "length p \<le> maxRecordPayloadSize" and r: "r = t # ?l @ p @ ?c" by (simp_all add: encodeRecord_Inr)
  obtain k' where k: "k = Suc k'" using assms(2) by (cases k) auto
  with assms(3) r have k': "k' < length (?l @ p @ ?c)" by simp
  have len: "read_uint32 (?l @ x) = Inr (length p, x)" for x by (rule read_uint_put [OF payload_length [OF p]])
  from k' show ?thesis
  proof (cases rule: take_append_cases)
    case left
    with read_uint_torn [of "take k' ?l" 4] show ?thesis by (simp add: r k decodeRecord_def)
  next
    case (right j)
    have "decodeRecord (take k r) = bind_result (unexpected_eof (read_full (length p) (take j (p @ ?c)))) (\<lambda>(payload, bs3).
         bind_result (unexpected_eof (read_uint32 bs3)) (\<lambda>(storedChecksum, bs4).
           if storedChecksum \<noteq> ChecksumIEEE (t # ?l @ payload) then Inl (Message ''WAL checksum mismatch'')
           else Inr ((t, payload), bs4)))"
      using right p len by (simp add: r k decodeRecord_def)
    also from right(1) have "\<dots> = Inl io_ErrUnexpectedEOF"
    proof (cases rule: take_append_cases)
      case left
      then show ?thesis by (simp add: read_full_torn)
    next
      case (right i)
      then show ?thesis using read_uint_torn [of "take i ?c" 4] by (simp add: read_full_append)
    qed
    finally show ?thesis .
  qed
qed

lemma decodeRecord_shorter: "decodeRecord bs = Inr (x, rest) \<Longrightarrow> length rest < length bs"
  by (auto simp: decodeRecord_def bind_result_Inr unexpected_eof_Inr read_byte_Inr read_uint_Inr read_full_Inr
      split: if_splits)

lemma decodeRecord_Nil [simp]: "decodeRecord [] = Inl io_EOF"
  by (simp add: decodeRecord_def read_byte_def)

section \<open>Log entries\<close>

lemma put64_Inr: "put64 n = Inr b \<longleftrightarrow> n < 256 ^ 8 \<and> b = put_uint64 n"
  by (auto simp: put64_def)

lemma put_len_Inr: "put_len m n = Inr b \<longleftrightarrow> n < 256 ^ 4 \<and> b = put_uint32 n"
  by (auto simp: put_len_def)

lemmas put_iffs = bind_result_Inr wrap_error_Inr put64_Inr put_len_Inr

lemma encodeEntry_Inr:
  "encodeEntry e = Inr b \<longleftrightarrow> Index e < 256 ^ 8 \<and> Term e < 256 ^ 8 \<and> length (Data e) < 256 ^ 4 \<and>
     b = put_uint64 (Index e) @ put_uint64 (Term e) @ put_uint32 (length (Data e)) @ Data e"
  unfolding encodeEntry_def put_iffs by auto

lemma decodeEntry_encode: "encodeEntry e = Inr b \<Longrightarrow> decodeEntry (b @ rest) = Inr (e, rest)"
  unfolding encodeEntry_Inr decodeEntry_def by (simp add: read_uint_put read_full_append del: power_numeral)

lemma decode_entries_encode:
  "encode_entries m es = Inr b \<Longrightarrow> decode_entries m' (length es) (b @ rest) = Inr (es, rest)"
  by (induction es arbitrary: b) (auto simp: put_iffs decodeEntry_encode)

lemma encode_entries_length: "encode_entries m es = Inr b \<Longrightarrow> minimumEntrySize * length es \<le> length b"
  by (induction es arbitrary: b) (fastforce simp: put_iffs encodeEntry_Inr minimumEntrySize_def)+

lemma entry_count_ok: "encode_entries m es = Inr b \<Longrightarrow> \<not> length es > length b div minimumEntrySize"
  using encode_entries_length [of m es b] by (simp add: minimumEntrySize_def not_less less_eq_div_iff_mult_less_eq)

lemma decodeEntriesPayload_encode:
  assumes "put_len m (length es) = Inr c" "encode_entries m' es = Inr b" "decodeEntriesPayload (c @ b) = Inr es'"
  shows "es' = es"
  using assms entry_count_ok [OF assms(2)] decode_entries_encode [OF assms(2), of _ "[]"]
  by (auto simp: decodeEntriesPayload_def put_len_Inr read_uint_put split: option.splits)

lemma decodeEntriesPayload_valid:
  assumes "put_len m (length es) = Inr c" "encode_entries m' es = Inr b" "validateEntries es = None"
  shows "decodeEntriesPayload (c @ b) = Inr es"
  using assms entry_count_ok [OF assms(2)] decode_entries_encode [OF assms(2), of _ "[]"]
  by (auto simp: decodeEntriesPayload_def put_len_Inr read_uint_put)

lemma decodeReplaceSuffixPayload_encode:
  assumes "put64 i = Inr f" "put_len m (length es) = Inr c" "encode_entries m' es = Inr b"
  shows "decodeReplaceSuffixPayload (f @ c @ b) = Inr (i, es)"
  using assms entry_count_ok [OF assms(3)] decode_entries_encode [OF assms(3), of _ "[]"]
  by (auto simp: decodeReplaceSuffixPayload_def put_len_Inr put64_Inr read_uint_put)

section \<open>Membership and state\<close>

definition voters_recoverable :: "node_id list \<Rightarrow> bool" where
  "voters_recoverable vs \<longleftrightarrow> length vs \<le> maxWALConfigurationVoters \<and> distinct vs \<and>
     (\<forall>v \<in> set vs. v \<noteq> [] \<and> length v \<le> maxWALConfigurationNodeID)"

lemma decode_voters_encode:
  "encode_voters vs = Inr b \<Longrightarrow> decode_voters (length vs) acc (b @ rest) = Inr (vs', rest') \<Longrightarrow>
     vs' = acc @ vs \<and> rest' = rest"
proof (induction vs arbitrary: acc b)
  case (Cons v vs)
  from Cons.prems(1) obtain b' where "length v < 256 ^ 4" "encode_voters vs = Inr b'" "b = put_uint32 (length v) @ v @ b'"
    by (auto simp: put_iffs)
  with Cons.prems(2) Cons.IH [of b' "acc @ [v]"] show ?case
    by (auto simp: read_uint_put read_full_append split: if_splits)
qed simp

lemma decode_voters_ok:
  "encode_voters vs = Inr b \<Longrightarrow> distinct (acc @ vs) \<Longrightarrow> (\<forall>v \<in> set vs. v \<noteq> [] \<and> length v \<le> maxWALConfigurationNodeID) \<Longrightarrow>
     decode_voters (length vs) acc (b @ rest) = Inr (acc @ vs, rest)"
proof (induction vs arbitrary: acc b)
  case (Cons v vs)
  from Cons.prems(1) obtain b' where "length v < 256 ^ 4" "encode_voters vs = Inr b'" "b = put_uint32 (length v) @ v @ b'"
    by (auto simp: put_iffs)
  with Cons.prems(2,3) Cons.IH [of b' "acc @ [v]"] show ?case by (auto simp: read_uint_put read_full_append)
qed simp

lemma encodeConfiguration_Inr:
  "encodeConfiguration c = Inr b \<longleftrightarrow> length (Voters c) < 256 ^ 4 \<and>
     (\<exists>b'. encode_voters (Voters c) = Inr b' \<and> b = put_uint32 (length (Voters c)) @ b')"
  unfolding encodeConfiguration_def put_iffs by auto

lemma decodeConfiguration_encode:
  assumes "encodeConfiguration c = Inr b" "decodeConfiguration (b @ rest) = Inr (c', rest')"
  shows "c' = c \<and> rest' = rest"
proof -
  from assms(1) obtain b' where b: "length (Voters c) < 256 ^ 4" "encode_voters (Voters c) = Inr b'"
    "b = put_uint32 (length (Voters c)) @ b'"
    by (auto simp: encodeConfiguration_Inr)
  show ?thesis
  proof (cases "Voters c = []")
    case True
    with b assms(2) show ?thesis
      by (cases c) (auto simp: decodeConfiguration_def read_uint_put split: if_splits)
  next
    case False
    with b(1,3) assms(2) obtain vs where "decode_voters (length (Voters c)) [] (b' @ rest) = Inr (vs, rest')" "c' = \<lparr>Voters = vs\<rparr>"
      by (auto simp: decodeConfiguration_def read_uint_put bind_result_Inr split: if_splits)
    with decode_voters_encode [OF b(2), of "[]" rest vs rest'] show ?thesis by (cases c) simp
  qed
qed

lemma decodeConfiguration_ok:
  assumes "encodeConfiguration c = Inr b" "voters_recoverable (Voters c)"
  shows "decodeConfiguration (b @ rest) = Inr (c, rest)"
proof -
  from assms(1) obtain b' where b: "length (Voters c) < 256 ^ 4" "encode_voters (Voters c) = Inr b'"
    "b = put_uint32 (length (Voters c)) @ b'"
    by (auto simp: encodeConfiguration_Inr)
  from assms(2) decode_voters_ok [OF b(2), of "[]"] b show ?thesis
    by (cases c) (auto simp: decodeConfiguration_def read_uint_put voters_recoverable_def)
qed

definition membership_recoverable :: "membership \<Rightarrow> bool" where
  "membership_recoverable m \<longleftrightarrow> voters_recoverable (Voters (Current m)) \<and>
     (\<forall>j. Joint m = Some j \<longrightarrow> voters_recoverable (Voters (Old j)) \<and> voters_recoverable (Voters (New j)))"

lemma encodeMembership_Inr:
  "encodeMembership m = Inr b \<longleftrightarrow> (\<exists>c t. encodeConfiguration (Current m) = Inr c \<and>
     b = put_uint32 stateMembershipMagic @ stateMembershipVersion # c @ t \<and>
     (case Joint m of
        None \<Rightarrow> t = [CHR 0x00]
      | Some j \<Rightarrow> \<exists>x y. encodeConfiguration (Old j) = Inr x \<and> encodeConfiguration (New j) = Inr y \<and> t = CHR 0x01 # x @ y))"
  unfolding encodeMembership_def put_iffs Let_def by (auto simp: put_iffs split: option.splits)

lemma decodeMembership_head:
  assumes "encodeConfiguration c = Inr b" "decodeMembership (put_uint32 stateMembershipMagic @ stateMembershipVersion # b @ rest) = Inr (m, rest')"
  shows "bind_result (wrap_error ''decode joint configuration flag'' (read_byte rest)) (\<lambda>(jointFlag, bs4).
       if jointFlag = CHR 0x00 then Inr (\<lparr>Current = c, Joint = None\<rparr>, bs4)
       else if jointFlag = CHR 0x01 then
         bind_result (wrap_error ''decode joint old configuration'' (decodeConfiguration bs4)) (\<lambda>(old, bs5).
         bind_result (wrap_error ''decode joint new configuration'' (decodeConfiguration bs5)) (\<lambda>(new, bs6).
           Inr (\<lparr>Current = c, Joint = Some \<lparr>Old = old, New = new\<rparr>\<rparr>, bs6)))
       else Inl (Message ''invalid joint configuration flag'')) = Inr (m, rest')"
proof -
  have magic: "read_uint32 (put_uint32 stateMembershipMagic @ x) = Inr (stateMembershipMagic, x)" for x
    by (rule read_uint_put) (simp add: stateMembershipMagic_def)
  from assms(2) obtain c' r where d: "decodeConfiguration (b @ rest) = Inr (c', r)"
    by (auto simp: decodeMembership_def magic put_iffs)
  with decodeConfiguration_encode [OF assms(1) d] assms(2) show ?thesis
    by (simp add: decodeMembership_def magic)
qed

lemma decodeMembership_encode:
  assumes "encodeMembership m = Inr b" "decodeMembership (b @ rest) = Inr (m', rest')"
  shows "m' = m \<and> rest' = rest"
proof -
  from assms(1) obtain c t where c: "encodeConfiguration (Current m) = Inr c"
    and b: "b = put_uint32 stateMembershipMagic @ stateMembershipVersion # c @ t"
    and t: "case Joint m of None \<Rightarrow> t = [CHR 0x00]
      | Some j \<Rightarrow> \<exists>x y. encodeConfiguration (Old j) = Inr x \<and> encodeConfiguration (New j) = Inr y \<and> t = CHR 0x01 # x @ y"
    by (auto simp: encodeMembership_Inr)
  from assms(2) b have "decodeMembership (put_uint32 stateMembershipMagic @ stateMembershipVersion # c @ t @ rest) = Inr (m', rest')"
    by simp
  note h = decodeMembership_head [OF c this]
  show ?thesis
  proof (cases "Joint m")
    case None
    with h t show ?thesis by (cases m) simp
  next
    case (Some j)
    with t obtain x y where xy: "encodeConfiguration (Old j) = Inr x" "encodeConfiguration (New j) = Inr y" "t = CHR 0x01 # x @ y"
      by auto
    with h obtain o' r n' where o: "decodeConfiguration (x @ y @ rest) = Inr (o', r)" and n: "decodeConfiguration r = Inr (n', rest')"
      and m': "m' = \<lparr>Current = Current m, Joint = Some \<lparr>Old = o', New = n'\<rparr>\<rparr>"
      by (auto simp: put_iffs)
    from decodeConfiguration_encode [OF xy(1) o] have "o' = Old j" "r = y @ rest" by simp_all
    moreover from decodeConfiguration_encode [OF xy(2), of rest n' rest'] n \<open>r = y @ rest\<close> have "n' = New j" "rest' = rest" by simp_all
    ultimately show ?thesis using m' Some by (cases m; cases j) simp
  qed
qed

lemma decodeMembership_ok:
  assumes "encodeMembership m = Inr b" "membership_recoverable m"
  shows "decodeMembership (b @ rest) = Inr (m, rest)"
proof -
  have magic: "read_uint32 (put_uint32 stateMembershipMagic @ x) = Inr (stateMembershipMagic, x)" for x
    by (rule read_uint_put) (simp add: stateMembershipMagic_def)
  from assms show ?thesis
    by (cases m; cases "Joint m")
      (auto simp: encodeMembership_Inr decodeMembership_def magic membership_recoverable_def decodeConfiguration_ok)
qed

lemma encode_state_Inr:
  "encode_state p = Inr b \<longleftrightarrow> CurrentTerm p < 256 ^ 8 \<and> length (VotedFor p) < 256 ^ 4 \<and>
     (\<exists>m. encodeMembership (Membership p) = Inr m \<and>
        b = put_uint64 (CurrentTerm p) @ put_uint32 (length (VotedFor p)) @ VotedFor p @ m)"
  unfolding encode_state_def put_iffs by auto

lemma encodeMembership_nonempty: "encodeMembership m = Inr b \<Longrightarrow> b \<noteq> []"
  by (auto simp: encodeMembership_Inr)

lemma decodeStatePayload_encode:
  assumes "encode_state p = Inr b" "decodeStatePayload b = Inr p'"
  shows "p' = p"
proof -
  from assms(1) obtain m where m: "CurrentTerm p < 256 ^ 8" "length (VotedFor p) < 256 ^ 4" "encodeMembership (Membership p) = Inr m"
    "b = put_uint64 (CurrentTerm p) @ put_uint32 (length (VotedFor p)) @ VotedFor p @ m"
    by (auto simp: encode_state_Inr)
  with assms(2) encodeMembership_nonempty [OF m(3)] obtain m' where "decodeMembership m = Inr (m', [])"
    "p' = \<lparr>CurrentTerm = CurrentTerm p, VotedFor = VotedFor p, Membership = m'\<rparr>"
    by (auto simp: decodeStatePayload_def read_uint_put read_full_append put_iffs zero_persistent_state_def split: if_splits)
  with decodeMembership_encode [OF m(3), of "[]" m' "[]"] show ?thesis by (cases p) simp
qed

lemma decodeStatePayload_ok:
  assumes "encode_state p = Inr b" "membership_recoverable (Membership p)"
  shows "decodeStatePayload b = Inr p"
proof -
  from assms(1) obtain m where m: "CurrentTerm p < 256 ^ 8" "length (VotedFor p) < 256 ^ 4" "encodeMembership (Membership p) = Inr m"
    "b = put_uint64 (CurrentTerm p) @ put_uint32 (length (VotedFor p)) @ VotedFor p @ m"
    by (auto simp: encode_state_Inr)
  with encodeMembership_nonempty [OF m(3)] decodeMembership_ok [OF m(3) assms(2), of "[]"] show ?thesis
    by (cases p) (auto simp: decodeStatePayload_def read_uint_put read_full_append zero_persistent_state_def)
qed

section \<open>Snapshots\<close>

lemma snapshot_json_ok: "json_ok (snapshot_json sn)"
proof -
  have "utf8_ok ''LastIncludedIndex''" "utf8_ok ''LastIncludedTerm''" "utf8_ok ''Data''"
    by (simp_all add: utf8_take_def)
  then show ?thesis by (simp add: snapshot_json_def number_ok_show_nat)
qed

lemma dec_snapshot_fields:
  "dec_struct [''LastIncludedIndex'', ''LastIncludedTerm'', ''Data''] set_snapshot_field zero_snapshot (snapshot_json sn) =
     bind_result (dec_uint 64 0 (json_nat (LastIncludedIndex sn))) (\<lambda>i.
     bind_result (dec_uint 64 0 (json_nat (LastIncludedTerm sn))) (\<lambda>t.
       Inr \<lparr>LastIncludedIndex = i, LastIncludedTerm = t, SnapData = SnapData sn\<rparr>))"
  by (simp add: dec_struct_def snapshot_json_def set_snapshot_field_def zero_snapshot_def dec_bytes_bytes bind_result_def
      split: sum.split)

lemma dec_uint_only: "dec_uint b old (json_nat n) = Inr x \<Longrightarrow> x = n"
  by (auto simp: dec_uint_def ParseUint_def split: if_splits)

lemma decodeSnapshotPayload_encode:
  "encodeSnapshotPayload sn = Inr b \<Longrightarrow> decodeSnapshotPayload b = Inr sn' \<Longrightarrow> sn' = sn"
  by (cases sn) (auto simp: encodeSnapshotPayload_def decodeSnapshotPayload_def Let_def json_parse_print snapshot_json_ok
      dec_snapshot_fields put_iffs dest!: dec_uint_only split: if_splits)

lemma decodeSnapshotPayload_ok:
  "encodeSnapshotPayload sn = Inr b \<Longrightarrow> LastIncludedIndex sn < 2 ^ 64 \<Longrightarrow> LastIncludedTerm sn < 2 ^ 64 \<Longrightarrow>
     decodeSnapshotPayload b = Inr sn"
  by (cases sn) (auto simp: encodeSnapshotPayload_def decodeSnapshotPayload_def Let_def json_parse_print snapshot_json_ok
      dec_snapshot_fields dec_uint_nat split: if_splits)

end
