(* ===== verification/WAL_Storage.thy ===== *)
theory WAL_Storage
  imports WAL_Roundtrip
begin

text \<open>
  \<^verbatim>\<open>WALStorage\<close>: the storage backed by an append-only file.  The file is its content, the length known
  to be on stable storage and the offset of the descriptor; \<open>w_prev\<close> is the content and stable length
  of the file that a rename has replaced, as long as the directory is not synced.

  The operating system is a parameter: \<open>w_writes\<close> lists the outcomes of the coming \<^verbatim>\<open>write\<close> calls on the
  log and \<open>w_calls\<close> those of every other call that may fail; once a list is exhausted, calls succeed.
  Reading and asking for the current offset do not fail.
\<close>

section \<open>State\<close>

datatype write_outcome = Wrote nat | WriteError nat go_error

record wal_storage =
  w_open :: bool
  w_data :: bytes
  w_synced :: nat
  w_offset :: nat
  w_prev :: "(bytes \<times> nat) option"
  w_state :: persistent_state
  w_entries :: "log_entry list"
  w_snapshot :: "snapshot option"
  w_writes :: "write_outcome list"
  w_calls :: "go_error option list"

abbreviation ENOSPC :: go_error where "ENOSPC \<equiv> Sentinel ''no space left on device''"
abbreviation ErrShortWrite :: go_error where "ErrShortWrite \<equiv> Sentinel ''short write''"

definition wal_view :: "wal_storage \<Rightarrow> disk" where
  "wal_view s = \<lparr>d_state = w_state s, d_entries = w_entries s, d_snapshot = w_snapshot s\<rparr>"

section \<open>System calls\<close>

definition syscall :: "wal_storage \<Rightarrow> go_error option \<times> wal_storage" where
  "syscall s = (case w_calls s of [] \<Rightarrow> (None, s) | r # rs \<Rightarrow> (r, s\<lparr>w_calls := rs\<rparr>))"

definition file_write :: "bytes \<Rightarrow> write_outcome list \<Rightarrow> (nat \<times> go_error option) \<times> write_outcome list" where
  "file_write data ws =
     (case ws of
        [] \<Rightarrow> ((length data, None), [])
      | Wrote n # ws' \<Rightarrow> ((min n (length data), None), ws')
      | WriteError n err # ws' \<Rightarrow> ((min n (length data), Some err), ws'))"

text \<open>The loop of \<^verbatim>\<open>writeFull\<close> on a file opened for appending.\<close>

function writeFull :: "bytes \<Rightarrow> bytes \<Rightarrow> write_outcome list \<Rightarrow> go_error option \<times> bytes \<times> write_outcome list" where
  "writeFull data file ws =
     (if data = [] then (None, file, ws)
      else case file_write data ws of ((n, err), ws') \<Rightarrow>
        let file' = file @ take n data
        in case err of
             Some e \<Rightarrow> (Some e, file', ws')
           | None \<Rightarrow> if n = 0 then (Some ErrShortWrite, file', ws') else writeFull (drop n data) file' ws')"
  by pat_completeness auto
termination by (relation "measure (\<lambda>(data, file, ws). length data)") auto

declare writeFull.simps [simp del]

text \<open>A failed write is undone by truncating the file to the offset it had before.\<close>

definition appendRecord :: "bytes \<Rightarrow> wal_storage \<Rightarrow> go_error option \<times> wal_storage" where
  "appendRecord rec s =
     (let startOffset = w_offset s
      in case writeFull rec (w_data s) (w_writes s) of
        (None, file, ws) \<Rightarrow> (None, s\<lparr>w_data := file, w_offset := length file, w_writes := ws\<rparr>)
      | (Some err, file, ws) \<Rightarrow>
          let writeErr = (if errors_is err ENOSPC then Wrapf ''wal disk full'' [ErrWALDiskFull, err] else err);
              s1 = s\<lparr>w_data := file, w_offset := length file, w_writes := ws\<rparr>
          in case syscall s1 of
            (Some rollbackErr, s2) \<Rightarrow>
              (case syscall s2 of
                 (Some closeErr, s3) \<Rightarrow>
                   (Some (Wrapf ''WAL write failed; rollback failed; close failed'' [writeErr, rollbackErr, closeErr]), s3\<lparr>w_open := False\<rparr>)
               | (None, s3) \<Rightarrow> (Some (Wrapf ''WAL write failed; rollback failed'' [writeErr, rollbackErr]), s3\<lparr>w_open := False\<rparr>))
          | (None, s2) \<Rightarrow>
              let s3 = s2\<lparr>w_data := take startOffset file, w_synced := min (w_synced s2) startOffset\<rparr>
              in case syscall s3 of
                (Some seekErr, s4) \<Rightarrow>
                  (case syscall s4 of
                     (Some closeErr, s5) \<Rightarrow>
                       (Some (Wrapf ''WAL write failed; restore position failed; close failed'' [writeErr, seekErr, closeErr]), s5\<lparr>w_open := False\<rparr>)
                   | (None, s5) \<Rightarrow> (Some (Wrapf ''WAL write failed; restore position failed'' [writeErr, seekErr]), s5\<lparr>w_open := False\<rparr>))
              | (None, s4) \<Rightarrow> (Some writeErr, s4\<lparr>w_offset := length (w_data s4)\<rparr>))"

text \<open>The common shape of the operations that append one record and then change the memory.\<close>

definition append_then ::
  "string \<Rightarrow> string \<Rightarrow> bytes result \<Rightarrow> (wal_storage \<Rightarrow> wal_storage) \<Rightarrow> wal_storage \<Rightarrow> go_error option \<times> wal_storage" where
  "append_then enc_msg write_msg rec f s =
     (case rec of
        Inl err \<Rightarrow> (Some (Wrapf enc_msg [err]), s)
      | Inr r \<Rightarrow>
          (case appendRecord r s of
             (Some err, s') \<Rightarrow> (Some (Wrapf write_msg [err]), s')
           | (None, s') \<Rightarrow> (None, f s')))"

section \<open>Operations\<close>

definition wal_SaveState :: "persistent_state \<Rightarrow> wal_storage \<Rightarrow> go_error option \<times> wal_storage" where
  "wal_SaveState state s =
     (if \<not> w_open s then (Some ErrClosedStorage, s)
      else append_then ''encode state record'' ''write state record'' (encodeStateRecord state)
             (\<lambda>s'. s'\<lparr>w_state := state\<rparr>) s)"

definition wal_LoadState :: "wal_storage \<Rightarrow> persistent_state result" where
  "wal_LoadState s = (if \<not> w_open s then Inl ErrClosedStorage else Inr (w_state s))"

definition wal_AppendEntries :: "log_entry list \<Rightarrow> wal_storage \<Rightarrow> go_error option \<times> wal_storage" where
  "wal_AppendEntries entries s =
     (if \<not> w_open s then (Some ErrClosedStorage, s)
      else if entries = [] then (None, s)
      else case validateEntries entries of
        Some err \<Rightarrow> (Some (Wrapf ''validate entries'' [err]), s)
      | None \<Rightarrow>
        (case validateAppend (w_entries s) entries of
           Some err \<Rightarrow> (Some err, s)
         | None \<Rightarrow> append_then ''encode entries record'' ''write entries record'' (encodeEntriesRecord entries)
             (\<lambda>s'. s'\<lparr>w_entries := appendEntriesCopy (w_entries s') entries\<rparr>) s))"

definition wal_ReplaceSuffix :: "log_index \<Rightarrow> log_entry list \<Rightarrow> wal_storage \<Rightarrow> go_error option \<times> wal_storage" where
  "wal_ReplaceSuffix from entries s =
     (if \<not> w_open s then (Some ErrClosedStorage, s)
      else case validateReplaceSuffix (w_snapshot s) from entries of
        Some err \<Rightarrow> (Some err, s)
      | None \<Rightarrow> append_then ''encode suffix replacement'' ''write suffix replacement record''
          (encodeReplaceSuffixRecord from entries)
          (\<lambda>s'. s'\<lparr>w_entries := replaceSuffixCopy (w_entries s') from entries\<rparr>) s)"

definition wal_LoadEntries :: "wal_storage \<Rightarrow> log_entry list result" where
  "wal_LoadEntries s = (if \<not> w_open s then Inl ErrClosedStorage else Inr (w_entries s))"

definition snapshot_record :: "snapshot \<Rightarrow> bytes result" where
  "snapshot_record sn = bind_result (encodeSnapshotPayload sn) (encodeRecord recordSnapshot)"

definition wal_SaveSnapshot :: "snapshot \<Rightarrow> wal_storage \<Rightarrow> go_error option \<times> wal_storage" where
  "wal_SaveSnapshot sn s =
     (if \<not> w_open s then (Some ErrClosedStorage, s)
      else append_then ''encode snapshot'' ''write snapshot record'' (snapshot_record sn)
             (\<lambda>s'. s'\<lparr>w_snapshot := Some sn\<rparr>) s)"

definition wal_LoadSnapshot :: "wal_storage \<Rightarrow> snapshot result" where
  "wal_LoadSnapshot s =
     (if \<not> w_open s then Inl ErrClosedStorage
      else case w_snapshot s of None \<Rightarrow> Inr zero_snapshot | Some sn \<Rightarrow> Inr sn)"

definition wal_Sync :: "wal_storage \<Rightarrow> go_error option \<times> wal_storage" where
  "wal_Sync s =
     (if \<not> w_open s then (Some ErrClosedStorage, s)
      else case syscall s of
        (Some err, s') \<Rightarrow>
          (Some (if errors_is err ENOSPC then Wrapf ''wal disk full'' [ErrWALDiskFull, err] else Wrapf ''sync WAL'' [err]), s')
      | (None, s') \<Rightarrow> (None, s'\<lparr>w_synced := length (w_data s')\<rparr>))"

definition wal_Close :: "wal_storage \<Rightarrow> go_error option \<times> wal_storage" where
  "wal_Close s =
     (if \<not> w_open s then (None, s)
      else case syscall s of
        (Some err, s') \<Rightarrow> (Some (Wrapf ''close WAL'' [err]), s')
      | (None, s') \<Rightarrow> (None, s'\<lparr>w_open := False\<rparr>))"

section \<open>Compaction\<close>

text \<open>Run the next step when a call succeeds, return its error otherwise.\<close>

definition attempt ::
  "string \<Rightarrow> (wal_storage \<Rightarrow> go_error option \<times> wal_storage) \<Rightarrow> wal_storage \<Rightarrow> go_error option \<times> wal_storage" where
  "attempt msg k s = (case syscall s of (Some err, s') \<Rightarrow> (Some (Wrapf msg [err]), s') | (None, s') \<Rightarrow> k s')"

text \<open>\<^verbatim>\<open>syncDirectory\<close>: once the directory is synced, the replaced file is gone.\<close>

definition syncDirectory :: "wal_storage \<Rightarrow> go_error option \<times> wal_storage" where
  "syncDirectory =
     attempt ''open WAL directory'' (attempt ''sync WAL directory'' (\<lambda>s.
       attempt ''close WAL directory'' (\<lambda>s'. (None, s')) (s\<lparr>w_prev := None\<rparr>)))"

text \<open>After the rename.\<close>

definition compact_reopen :: "log_entry list \<Rightarrow> snapshot \<Rightarrow> wal_storage \<Rightarrow> go_error option \<times> wal_storage" where
  "compact_reopen entries sn s =
     (case syncDirectory s of
        (Some err, s') \<Rightarrow> (Some (Wrapf ''sync WAL directory after rename'' [err]), s')
      | (None, s') \<Rightarrow>
          attempt ''reopen compacted WAL'' (\<lambda>s''.
            (None, s''\<lparr>w_open := True, w_offset := 0, w_entries := entries, w_snapshot := Some sn\<rparr>)) s')"

text \<open>Replacing the file, once the new content is written and synced under a temporary name.\<close>

definition compact_replace :: "bytes \<Rightarrow> log_entry list \<Rightarrow> snapshot \<Rightarrow> wal_storage \<Rightarrow> go_error option \<times> wal_storage" where
  "compact_replace content entries sn s =
     (case syscall s of
        (Some closeErr, s1) \<Rightarrow> (Some (Wrapf ''close current WAL before compaction'' [closeErr]), s1\<lparr>w_open := False\<rparr>)
      | (None, s1) \<Rightarrow>
        (case syscall (s1\<lparr>w_open := False\<rparr>) of
           (Some err, s2) \<Rightarrow>
             (case syscall s2 of
                (Some reopenErr, s3) \<Rightarrow> (Some (Wrapf ''rename compacted WAL; reopen original WAL'' [err, reopenErr]), s3)
              | (None, s3) \<Rightarrow> (Some (Wrapf ''rename compacted WAL'' [err]), s3\<lparr>w_open := True, w_offset := 0\<rparr>))
         | (None, s2) \<Rightarrow>
             compact_reopen entries sn
               (s2\<lparr>w_data := content, w_synced := length content, w_prev := Some (w_data s2, w_synced s2)\<rparr>)))"

definition wal_Compact :: "snapshot \<Rightarrow> wal_storage \<Rightarrow> go_error option \<times> wal_storage" where
  "wal_Compact sn s =
     (if \<not> w_open s then (Some ErrClosedStorage, s)
      else if LastIncludedIndex sn = 0 then (Some (Message ''cannot compact at snapshot index 0''), s)
      else case w_snapshot s of
        None \<Rightarrow> (Some (Message ''cannot compact without persisted snapshot''), s)
      | Some current \<Rightarrow>
          if LastIncludedIndex current \<noteq> LastIncludedIndex sn then (Some (Message ''snapshot index mismatch''), s)
          else if LastIncludedTerm current \<noteq> LastIncludedTerm sn then (Some (Message ''snapshot term mismatch''), s)
          else let entries = filter (\<lambda>e. \<not> Index e \<le> LastIncludedIndex sn) (w_entries s)
               in case encodeStateRecord (w_state s) of
                 Inl err \<Rightarrow> (Some (Wrapf ''encode state for compaction'' [err]), s)
               | Inr stateRecord \<Rightarrow>
                 (case snapshot_record sn of
                    Inl err \<Rightarrow> (Some (Wrapf ''encode snapshot for compaction'' [err]), s)
                  | Inr snapshotRecord \<Rightarrow>
                    (case encodeEntriesRecord entries of
                       Inl err \<Rightarrow> (Some (Wrapf ''encode entries for compaction'' [err]), s)
                     | Inr entriesRecord \<Rightarrow>
                         let content = stateRecord @ snapshotRecord @ (if entries \<noteq> [] then entriesRecord else []);
                             write_entries = (if entries \<noteq> [] then attempt ''write compacted entries record'' else id)
                         in attempt ''create WAL compaction temporary file''
                              (attempt ''write compacted state record''
                              (attempt ''write compacted snapshot record''
                              (write_entries
                              (attempt ''sync compacted WAL''
                              (attempt ''close compacted WAL'' (compact_replace content entries sn)))))) s)))"

section \<open>Recovery\<close>

definition replay_record :: "char \<Rightarrow> bytes \<Rightarrow> disk \<Rightarrow> disk result" where
  "replay_record recordType payload d =
     (if recordType = recordState then
        bind_result (wrap_error ''decode state'' (decodeStatePayload payload)) (\<lambda>state. Inr (d\<lparr>d_state := state\<rparr>))
      else if recordType = recordEntries then
        bind_result (wrap_error ''decode entries'' (decodeEntriesPayload payload)) (\<lambda>entries.
          case validateRecoveredAppend (d_entries d) entries of
            Some err \<Rightarrow> Inl (Wrapf ''validate recovered entries'' [err])
          | None \<Rightarrow> Inr (d\<lparr>d_entries := appendEntriesCopy (d_entries d) entries\<rparr>))
      else if recordType = recordSnapshot then
        bind_result (wrap_error ''decode snapshot'' (decodeSnapshotPayload payload)) (\<lambda>sn.
          case validateRecoveredSnapshot (d_snapshot d) sn of
            Some err \<Rightarrow> Inl (Wrapf ''validate recovered snapshot'' [err])
          | None \<Rightarrow> Inr (d\<lparr>d_snapshot := Some sn\<rparr>))
      else if recordType = recordReplaceSuffix then
        bind_result (wrap_error ''decode suffix replacement'' (decodeReplaceSuffixPayload payload)) (\<lambda>(from, entries).
          case validateReplaceSuffix (d_snapshot d) from entries of
            Some err \<Rightarrow> Inl (Wrapf ''validate recovered suffix replacement'' [err])
          | None \<Rightarrow>
              let entries' = replaceSuffixCopy (d_entries d) from entries
              in case validateLog entries' of
                Some err \<Rightarrow> Inl (Wrapf ''validate recovered log after replacement'' [err])
              | None \<Rightarrow> Inr (d\<lparr>d_entries := entries'\<rparr>))
      else Inl (Message ''unknown WAL record type''))"

text \<open>
  The loop of \<^verbatim>\<open>recover\<close> over the unread bytes.  It returns what was rebuilt and the bytes of an
  incomplete last record; every record before it has been accepted.
\<close>

function recover_loop :: "bytes \<Rightarrow> disk \<Rightarrow> (disk \<times> bytes) result" where
  "recover_loop rest d =
     (case decodeRecord rest of
        Inl err \<Rightarrow>
          if errors_is err io_EOF then Inr (d, [])
          else if errors_is err io_ErrUnexpectedEOF then Inr (d, rest)
          else Inl (Wrapf ''decode WAL record at offset'' [err])
      | Inr ((recordType, payload), rest') \<Rightarrow>
          (case replay_record recordType payload d of
             Inl err \<Rightarrow> Inl err
           | Inr d' \<Rightarrow> recover_loop rest' d'))"
  by pat_completeness auto
termination by (relation "measure (\<lambda>(rest, d). length rest)") (auto dest: decodeRecord_shorter)

declare recover_loop.simps [simp del]

definition empty_disk :: disk where
  "empty_disk = \<lparr>d_state = zero_persistent_state, d_entries = [], d_snapshot = None\<rparr>"

text \<open>The outcomes of the calls \<^verbatim>\<open>OpenWAL\<close> makes itself.\<close>

record open_errors =
  oe_open :: "go_error option"
  oe_seek :: "go_error option"
  oe_truncate :: "go_error option"
  oe_end :: "go_error option"

definition wal_recover :: "open_errors \<Rightarrow> bytes \<Rightarrow> (disk \<times> bytes) result" where
  "wal_recover e data =
     (case oe_seek e of
        Some err \<Rightarrow> Inl (Wrapf ''seek WAL start'' [err])
      | None \<Rightarrow>
        bind_result (recover_loop data empty_disk) (\<lambda>(d, tail).
          case (if tail = [] then None else oe_truncate e) of
            Some err \<Rightarrow> Inl (Wrapf ''truncate incomplete WAL tail'' [err])
          | None \<Rightarrow>
            (case oe_end e of
               Some err \<Rightarrow> Inl (Wrapf ''seek WAL end'' [err])
             | None \<Rightarrow> Inr (d, take (length data - length tail) data))))"

definition OpenWAL :: "open_errors \<Rightarrow> write_outcome list \<Rightarrow> go_error option list \<Rightarrow> bytes \<Rightarrow> wal_storage result" where
  "OpenWAL e outs calls data =
     (case oe_open e of
        Some err \<Rightarrow> Inl (Wrapf ''open WAL'' [err])
      | None \<Rightarrow>
        bind_result (wrap_error ''recover WAL'' (wal_recover e data)) (\<lambda>(d, data').
          Inr \<lparr>w_open = True, w_data = data', w_synced = length data', w_offset = length data', w_prev = None,
               w_state = d_state d, w_entries = d_entries d, w_snapshot = d_snapshot d,
               w_writes = outs, w_calls = calls\<rparr>))"

definition wal_ops :: "wal_storage storage_ops" where
  "wal_ops = \<lparr>op_SaveState = wal_SaveState, op_LoadState = wal_LoadState,
     op_AppendEntries = wal_AppendEntries, op_ReplaceSuffix = wal_ReplaceSuffix,
     op_LoadEntries = wal_LoadEntries, op_SaveSnapshot = wal_SaveSnapshot,
     op_LoadSnapshot = wal_LoadSnapshot, op_Compact = wal_Compact, op_Sync = wal_Sync\<rparr>"

end
