(* ===== verification/WAL_Contract.thy ===== *)
theory WAL_Contract
  imports WAL_Recovery
begin

text \<open>
  \<^verbatim>\<open>WALStorage\<close> meets the storage contract of the Raft node, crashes included: whatever prefix of the
  unsynced part of the file survives, reopening it gives a state the contract allows, or an error.

  The invariant excludes \<^verbatim>\<open>write\<close> calls on the log that fail (short writes are allowed): a failed
  write after a compaction is not undone correctly, as \<open>WAL_Properties\<close> shows.  Every other call may fail.
\<close>

section \<open>Crashes\<close>

text \<open>The contents a crash may leave: any prefix that is at least as long as the synced part.\<close>

definition crash_files :: "wal_storage \<Rightarrow> bytes set" where
  "crash_files s = {take k f |f n k. (f = w_data s \<and> n = w_synced s \<or> w_prev s = Some (f, n)) \<and> n \<le> k}"

definition wal_durable :: "wal_storage \<Rightarrow> disk set" where
  "wal_durable s = insert (wal_view s) {d. \<exists>f \<in> crash_files s. \<exists>t. recover_loop f empty_disk = Inr (d, t)}"

definition only_short :: "write_outcome list \<Rightarrow> bool" where
  "only_short ws \<longleftrightarrow> (\<forall>x \<in> set ws. \<exists>n. x = Wrote (Suc n))"

text \<open>Replaying the file gives the memory, if it is accepted at all.\<close>

definition file_agrees :: "wal_storage \<Rightarrow> bool" where
  "file_agrees s \<longleftrightarrow> (\<forall>d t. recover_loop (w_data s) empty_disk = Inr (d, t) \<longrightarrow> t = [] \<and> d = wal_view s)"

definition wal_sinv :: "wal_storage \<Rightarrow> bool" where
  "wal_sinv s \<longleftrightarrow> only_short (w_writes s) \<and>
     (w_open s \<longrightarrow> w_prev s = None \<and> w_synced s \<le> length (w_data s) \<and> file_agrees s)"

definition wal_recovers :: "wal_storage \<Rightarrow> wal_storage \<Rightarrow> bool" where
  "wal_recovers s s' \<longleftrightarrow>
     (\<exists>f \<in> crash_files s. \<exists>e outs calls. only_short outs \<and> OpenWAL e outs calls f = Inr s')"

text \<open>A node that has never run opens a file that is created empty.\<close>

definition wal_fresh :: "wal_storage \<Rightarrow> bool" where
  "wal_fresh s \<longleftrightarrow> (\<exists>e outs calls. only_short outs \<and> OpenWAL e outs calls [] = Inr s)"

definition no_open_errors :: open_errors where
  "no_open_errors = \<lparr>oe_open = None, oe_seek = None, oe_truncate = None, oe_end = None\<rparr>"

section \<open>Appending a record\<close>

lemma writeFull_only_short:
  "only_short ws \<Longrightarrow> \<exists>ws'. writeFull dat fl ws = (None, fl @ dat, ws') \<and> only_short ws'"
proof (induction dat fl ws rule: writeFull.induct)
  case (1 dat fl ws)
  show ?case
  proof (cases "dat = [] \<or> ws = []")
    case True
    with 1(2) show ?thesis
      by (auto simp: writeFull.simps [of dat] writeFull.simps [of "[]"] file_write_def Let_def)
  next
    case False
    with 1(2) obtain n ws1 where ws: "ws = Wrote (Suc n) # ws1" "only_short ws1"
      by (cases ws) (auto simp: only_short_def)
    let ?n = "min (Suc n) (length dat)"
    from False have n: "?n \<noteq> 0" by simp
    have w: "file_write dat ws = ((?n, None), ws1)" by (simp add: ws file_write_def)
    from False n ws(2) 1(1) [OF _ w [symmetric] refl refl] obtain ws' where
      "writeFull (drop ?n dat) (fl @ take ?n dat) ws1 = (None, fl @ dat, ws')" "only_short ws'"
      by auto
    with False n show ?thesis by (simp add: writeFull.simps [of dat] w Let_def)
  qed
qed

lemma appendRecord_only_short:
  assumes "only_short (w_writes s)"
  shows "\<exists>ws'. only_short ws' \<and>
    appendRecord r s = (None, s\<lparr>w_data := w_data s @ r, w_offset := length (w_data s @ r), w_writes := ws'\<rparr>)"
  using writeFull_only_short [OF assms, of r "w_data s"] by (auto simp: appendRecord_def)

lemma replay_prefix:
  assumes "file_agrees s" "record_effect f r" "recover_loop (w_data s @ take j r) empty_disk = Inr (d, t)"
  shows "if j < length r then d = wal_view s else d = f (wal_view s) \<and> t = []"
proof -
  from assms(3) recover_loop_append_error obtain d0 t0 where "recover_loop (w_data s) empty_disk = Inr (d0, t0)"
    by (cases "recover_loop (w_data s) empty_disk") fastforce+
  with assms(1) have "recover_loop (w_data s) empty_disk = Inr (wal_view s, [])" by (auto simp: file_agrees_def)
  from recover_loop_append [OF this] assms(3) have *: "recover_loop (take j r) (wal_view s) = Inr (d, t)" by simp
  then show ?thesis
    using recover_torn [OF assms(2), of j "wal_view s"] recover_record [OF assms(2), of "[]" "wal_view s"] by auto
qed

lemma crash_files_open: "w_prev s = None \<Longrightarrow> crash_files s = {take k (w_data s) |k. w_synced s \<le> k}"
  by (auto simp: crash_files_def)

lemma append_then_spec:
  assumes s: "wal_sinv s" "w_open s"
    and effect: "\<And>r. rec = Inr r \<Longrightarrow> record_effect f r"
    and g: "\<And>x. wal_view (g x) = f (wal_view x)"
      "\<And>x. w_open (g x) = w_open x" "\<And>x. w_data (g x) = w_data x" "\<And>x. w_synced (g x) = w_synced x"
      "\<And>x. w_prev (g x) = w_prev x" "\<And>x. w_writes (g x) = w_writes x"
  shows "wal_sinv (snd (append_then m1 m2 rec g s)) \<and>
    writes wal_view wal_durable s (f (wal_view s)) (append_then m1 m2 rec g s)"
proof (cases rec)
  case (Inl err)
  with s show ?thesis by (auto simp: append_then_def writes_def)
next
  case (Inr r)
  from s have inv: "only_short (w_writes s)" "w_prev s = None" "w_synced s \<le> length (w_data s)" "file_agrees s"
    by (simp_all add: wal_sinv_def)
  obtain ws' where ws': "only_short ws'"
    and a: "appendRecord r s = (None, s\<lparr>w_data := w_data s @ r, w_offset := length (w_data s @ r), w_writes := ws'\<rparr>)"
    using appendRecord_only_short [OF inv(1)] by blast
  let ?s = "g (s\<lparr>w_data := w_data s @ r, w_offset := length (w_data s @ r), w_writes := ws'\<rparr>)"
  have v: "wal_view ?s = f (wal_view s)" by (simp add: g(1)) (simp add: wal_view_def)
  note replay = replay_prefix [OF inv(4) effect [OF Inr]]
  have "file_agrees ?s"
    using replay [of "length r"] unfolding file_agrees_def v by (simp add: g)
  with s inv ws' have "wal_sinv ?s" by (simp add: wal_sinv_def g)
  moreover have "wal_durable ?s \<subseteq> insert (f (wal_view s)) (wal_durable s)"
  proof
    fix d assume "d \<in> wal_durable ?s"
    then consider "d = f (wal_view s)"
      | k t where "w_synced s \<le> k" "recover_loop (take k (w_data s @ r)) empty_disk = Inr (d, t)"
      using inv(2) unfolding wal_durable_def v by (auto simp: crash_files_open g(2-))
    then show "d \<in> insert (f (wal_view s)) (wal_durable s)"
    proof cases
      case (2 k t)
      show ?thesis
      proof (cases "k \<le> length (w_data s)")
        case True
        with 2 inv(2) show ?thesis by (auto simp: wal_durable_def crash_files_open)
      next
        case False
        with 2 replay [of "k - length (w_data s)" d t] show ?thesis
          by (auto simp: wal_durable_def split: if_splits)
      qed
    qed simp
  qed
  ultimately show ?thesis using v by (simp add: append_then_def Inr a writes_def)
qed

section \<open>Compaction\<close>

lemma recover_compacted:
  assumes "encodeStateRecord p = Inr a" "snapshot_record sn = Inr b" "encodeEntriesRecord es = Inr c"
    "recover_loop (a @ b @ (if es \<noteq> [] then c else [])) empty_disk = Inr (d, t)"
  shows "d = \<lparr>d_state = p, d_entries = es, d_snapshot = Some sn\<rparr> \<and> t = []"
proof -
  let ?c = "if es \<noteq> [] then c else []"
  have "recover_loop ?c \<lparr>d_state = p, d_entries = [], d_snapshot = Some sn\<rparr> = Inr (d, t)"
    using recover_record [OF snapshot_record_effect [OF assms(2)]
        recover_record [OF encodeStateRecord_effect [OF assms(1)] assms(4)]]
    by (simp add: empty_disk_def)
  then show ?thesis
    using recover_record [OF encodeEntriesRecord_effect [OF assms(3)], of "[]" "\<lparr>d_state = p, d_entries = [], d_snapshot = Some sn\<rparr>"]
    by (cases "es = []") auto
qed

definition same_but_calls :: "wal_storage \<Rightarrow> wal_storage \<Rightarrow> bool" where
  "same_but_calls s s' \<longleftrightarrow> (\<exists>cs. s' = s\<lparr>w_calls := cs\<rparr>)"

lemma same_but_calls_refl [simp]: "same_but_calls s s"
  unfolding same_but_calls_def by (rule exI [of _ "w_calls s"]) simp

lemma syscall_same: "syscall s = (r, s') \<Longrightarrow> same_but_calls s0 s \<Longrightarrow> same_but_calls s0 s'"
  by (auto simp: syscall_def same_but_calls_def split: list.splits)

lemma attempt_rule:
  assumes "same_but_calls s0 s"
    and "\<And>err s'. same_but_calls s0 s' \<Longrightarrow> Q (Some err, s')" "\<And>s'. same_but_calls s0 s' \<Longrightarrow> Q (k s')"
  shows "Q (attempt msg k s)"
  using syscall_same [OF _ assms(1)] assms(2,3) by (auto simp: attempt_def split: prod.split option.split)

lemma same_but_calls_prev: "same_but_calls s s' \<Longrightarrow> same_but_calls (s\<lparr>w_prev := p\<rparr>) (s'\<lparr>w_prev := p\<rparr>)"
  unfolding same_but_calls_def by (elim exE, rule_tac x = cs in exI) simp

lemma syncDirectory_result:
  assumes "same_but_calls s0 s" "syncDirectory s = (r, x)"
  shows "same_but_calls s0 x \<and> r \<noteq> None \<or> same_but_calls (s0\<lparr>w_prev := None\<rparr>) x"
proof -
  obtain r1 s1 where 1: "syscall s = (r1, s1)" by fastforce
  obtain r2 s2 where 2: "syscall s1 = (r2, s2)" by fastforce
  obtain r3 s3 where 3: "syscall (s2\<lparr>w_prev := None\<rparr>) = (r3, s3)" by fastforce
  have s1: "same_but_calls s0 s1" by (rule syscall_same [OF 1 assms(1)])
  have s2: "same_but_calls s0 s2" by (rule syscall_same [OF 2 s1])
  have s3: "same_but_calls (s0\<lparr>w_prev := None\<rparr>) s3" by (rule syscall_same [OF 3 same_but_calls_prev [OF s2]])
  show ?thesis using assms(2) s1 s2 s3 by (auto simp: syncDirectory_def attempt_def 1 2 3 split: option.splits)
qed

lemma same_but_calls_fields:
  "same_but_calls s s' \<Longrightarrow> w_open s' = w_open s \<and> w_data s' = w_data s \<and> w_synced s' = w_synced s \<and> w_prev s' = w_prev s \<and>
     w_writes s' = w_writes s \<and> w_state s' = w_state s \<and> w_entries s' = w_entries s \<and> w_snapshot s' = w_snapshot s"
  by (auto simp: same_but_calls_def)

lemma wal_durable_cong:
  "w_data s' = w_data s \<Longrightarrow> w_synced s' = w_synced s \<Longrightarrow> w_prev s' = w_prev s \<Longrightarrow> wal_view s' = wal_view s \<Longrightarrow>
     wal_durable s' = wal_durable s"
  by (simp add: wal_durable_def crash_files_def)

lemma compact_error:
  assumes "wal_sinv s" "same_but_calls s s'" "s'' \<in> {s', s'\<lparr>w_open := False\<rparr>, s'\<lparr>w_open := w_open s, w_offset := 0\<rparr>}"
  shows "wal_sinv s'' \<and> writes wal_view wal_durable s d (Some err, s'')"
proof -
  note f = same_but_calls_fields [OF assms(2)]
  have "wal_view s'' = wal_view s" using f assms(3) by (auto simp: wal_view_def)
  moreover from this f assms(3) have "wal_durable s'' = wal_durable s" by (intro wal_durable_cong) auto
  moreover have "file_agrees s'' = file_agrees s" using \<open>wal_view s'' = wal_view s\<close> f assms(3) by (auto simp: file_agrees_def)
  ultimately show ?thesis using assms(1,3) f by (auto simp: wal_sinv_def writes_def)
qed

lemma compact_reopen_spec:
  assumes s: "wal_sinv s" "w_open s"
    and content: "\<And>d t. recover_loop content empty_disk = Inr (d, t) \<Longrightarrow>
        d = \<lparr>d_state = w_state s, d_entries = es, d_snapshot = Some sn\<rparr> \<and> t = []"
    and s1: "same_but_calls (s\<lparr>w_open := False, w_data := content, w_synced := length content,
        w_prev := Some (w_data s, w_synced s)\<rparr>) s1"
    and d: "d = \<lparr>d_state = w_state s, d_entries = es, d_snapshot = Some sn\<rparr>"
  shows "wal_sinv (snd (compact_reopen es sn s1)) \<and> writes wal_view wal_durable s d (compact_reopen es sn s1)"
proof -
  let ?s = "s\<lparr>w_open := False, w_data := content, w_synced := length content, w_prev := Some (w_data s, w_synced s)\<rparr>"
  let ?t = "?s\<lparr>w_prev := None\<rparr>"
  let ?Q = "\<lambda>rs. wal_sinv (snd rs) \<and> writes wal_view wal_durable s d rs"
  from s have inv: "only_short (w_writes s)" "w_prev s = None" by (simp_all add: wal_sinv_def)
  have old: "wal_view x = wal_view s \<and> wal_durable x \<subseteq> insert d (wal_durable s) \<and> wal_sinv x"
    if "same_but_calls ?s x \<or> same_but_calls ?t x" for x
  proof -
    from that have "wal_view x = wal_view s" by (auto simp: same_but_calls_def wal_view_def)
    moreover from that have "crash_files x \<subseteq> insert content (crash_files s)"
      unfolding crash_files_open [OF inv(2)] by (auto simp: same_but_calls_def crash_files_def)
    then have "wal_durable x \<subseteq> insert d (wal_durable s)"
      unfolding wal_durable_def \<open>wal_view x = wal_view s\<close> d using content by blast
    moreover have "wal_sinv x" using that inv by (auto simp: same_but_calls_def wal_sinv_def)
    ultimately show ?thesis by blast
  qed
  have err: "?Q (Some e, x)" if "same_but_calls ?s x \<or> same_but_calls ?t x" for e x
    using old [OF that] by (simp add: writes_def)
  have ok: "?Q (None, x\<lparr>w_open := True, w_offset := 0, w_entries := es, w_snapshot := Some sn\<rparr>)"
    if "same_but_calls ?t x" for x
  proof -
    let ?x = "x\<lparr>w_open := True, w_offset := 0, w_entries := es, w_snapshot := Some sn\<rparr>"
    note f = same_but_calls_fields [OF that]
    have v: "wal_view ?x = d" using f by (simp add: wal_view_def d)
    have "file_agrees ?x" using f content by (simp add: file_agrees_def v d)
    moreover have "wal_durable ?x \<subseteq> insert d (wal_durable s)"
      using f content by (auto simp: wal_durable_def v d crash_files_def)
    ultimately show ?thesis using f v inv by (simp add: wal_sinv_def writes_def)
  qed
  obtain r x where x: "syncDirectory s1 = (r, x)" by fastforce
  from syncDirectory_result [OF s1 x] have x': "same_but_calls ?s x \<or> same_but_calls ?t x" "r = None \<Longrightarrow> same_but_calls ?t x"
    by auto
  obtain r' y where y: "syscall x = (r', y)" by fastforce
  with x'(2) have y': "r = None \<Longrightarrow> same_but_calls ?t y" using syscall_same by blast
  show ?thesis
    using err [OF x'(1)] err [of y] ok [of y] y' by (auto simp: compact_reopen_def x attempt_def y split: option.split)
qed

lemma compact_replace_spec:
  assumes s: "wal_sinv s" "w_open s" "same_but_calls s s0"
    and content: "\<And>d t. recover_loop content empty_disk = Inr (d, t) \<Longrightarrow>
        d = \<lparr>d_state = w_state s, d_entries = es, d_snapshot = Some sn\<rparr> \<and> t = []"
    and d: "d = \<lparr>d_state = w_state s, d_entries = es, d_snapshot = Some sn\<rparr>"
  shows "wal_sinv (snd (compact_replace content es sn s0)) \<and>
    writes wal_view wal_durable s d (compact_replace content es sn s0)"
proof -
  note err = compact_error [OF s(1)]
  obtain r1 s1 where 1: "syscall s0 = (r1, s1)" by fastforce
  then have s1: "same_but_calls s s1" by (rule syscall_same) (rule s(3))
  obtain r2 s2 where 2: "syscall (s1\<lparr>w_open := False\<rparr>) = (r2, s2)" by fastforce
  then have s2: "same_but_calls (s1\<lparr>w_open := False\<rparr>) s2" by (rule syscall_same) simp
  then obtain c2 where c2: "s2 = s1\<lparr>w_open := False, w_calls := c2\<rparr>" by (auto simp: same_but_calls_def)
  obtain r3 s3 where 3: "syscall s2 = (r3, s3)" by fastforce
  then have "same_but_calls s2 s3" by (rule syscall_same) simp
  with c2 obtain c3 where c3: "s3 = s1\<lparr>w_open := False, w_calls := c3\<rparr>" by (auto simp: same_but_calls_def)
  have s3: "same_but_calls s (s1\<lparr>w_calls := c3\<rparr>)" using s1 by (auto simp: same_but_calls_def)
  have s2': "same_but_calls (s\<lparr>w_open := False, w_data := content, w_synced := length content,
      w_prev := Some (w_data s, w_synced s)\<rparr>)
      (s2\<lparr>w_data := content, w_synced := length content, w_prev := Some (w_data s2, w_synced s2)\<rparr>)"
  proof -
    obtain c1 where "s1 = s\<lparr>w_calls := c1\<rparr>" using s1 by (auto simp: same_but_calls_def)
    then show ?thesis unfolding same_but_calls_def by (intro exI [of _ c2]) (simp add: c2)
  qed
  have s3': "s3\<lparr>w_open := True, w_offset := 0\<rparr> = (s1\<lparr>w_calls := c3\<rparr>)\<lparr>w_open := w_open s, w_offset := 0\<rparr>"
    using s(2) by (simp add: c3)
  have s3'': "s3 = (s1\<lparr>w_calls := c3\<rparr>)\<lparr>w_open := False\<rparr>" by (simp add: c3)
  show ?thesis
    using err [OF s1, of "s1\<lparr>w_open := False\<rparr>" d] err [OF s3, of s3 d] err [OF s3, of "s3\<lparr>w_open := True, w_offset := 0\<rparr>" d]
      compact_reopen_spec [OF s(1,2) content s2' d] s(2)
    by (auto simp: compact_replace_def 1 2 3 s3' s3'' split: option.split)
qed

lemma compacted_view:
  "compacted sn ((wal_view s)\<lparr>d_snapshot := Some sn\<rparr>) =
     \<lparr>d_state = w_state s, d_entries = filter (\<lambda>e. \<not> Index e \<le> LastIncludedIndex sn) (w_entries s), d_snapshot = Some sn\<rparr>"
  by (simp add: compacted_def wal_view_def not_le)

definition compact_result :: "wal_storage \<Rightarrow> disk \<Rightarrow> go_error option \<times> wal_storage \<Rightarrow> bool" where
  "compact_result s d rs \<longleftrightarrow> wal_sinv (snd rs) \<and> writes wal_view wal_durable s d rs"

lemma compact_attempt:
  assumes "wal_sinv s" "same_but_calls s s1" "\<And>s'. same_but_calls s s' \<Longrightarrow> compact_result s d (k s')"
  shows "compact_result s d (attempt msg k s1)"
  using assms(2) _ assms(3)
proof (rule attempt_rule)
  show "compact_result s d (Some err, s')" if "same_but_calls s s'" for err s'
    unfolding compact_result_def snd_conv by (rule compact_error [OF assms(1) that]) simp
qed

lemma wal_Compact_spec:
  assumes "wal_sinv s"
  shows "compact_result s (compacted sn ((wal_view s)\<lparr>d_snapshot := Some sn\<rparr>)) (wal_Compact sn s)"
proof -
  let ?Q = "compact_result s (compacted sn ((wal_view s)\<lparr>d_snapshot := Some sn\<rparr>))"
  let ?es = "filter (\<lambda>e. \<not> Index e \<le> LastIncludedIndex sn) (w_entries s)"
  have err: "?Q (Some e, s)" for e
    using assms by (auto simp: compact_result_def writes_def)
  have body: "?Q (attempt m1 (attempt m2 (attempt m3 ((if ?es \<noteq> [] then attempt m4 else id) (attempt m5 (attempt m6
      (compact_replace (a @ b @ (if ?es \<noteq> [] then c else [])) ?es sn)))))) s)"
    if "w_open s" "encodeStateRecord (w_state s) = Inr a" "snapshot_record sn = Inr b" "encodeEntriesRecord ?es = Inr c"
    for a b c m1 m2 m3 m4 m5 m6
  proof -
    have *: "?Q (compact_replace (a @ b @ (if ?es \<noteq> [] then c else [])) ?es sn s')" if "same_but_calls s s'" for s'
      unfolding compact_result_def
      by (rule compact_replace_spec [OF assms \<open>w_open s\<close> that recover_compacted [OF \<open>_ = Inr a\<close> \<open>_ = Inr b\<close> \<open>_ = Inr c\<close>] compacted_view])
    have **: "?Q (attempt m5 (attempt m6 (compact_replace (a @ b @ (if ?es \<noteq> [] then c else [])) ?es sn)) s')"
      if "same_but_calls s s'" for s'
      by (intro compact_attempt assms that *)
    have "?Q ((if ?es \<noteq> [] then attempt m4 else id) (attempt m5 (attempt m6
        (compact_replace (a @ b @ (if ?es \<noteq> [] then c else [])) ?es sn))) s')" if "same_but_calls s s'" for s'
      using ** [OF that] compact_attempt [OF assms that **, where msg = m4] by (cases "?es = []") simp_all
    then show ?thesis by (intro compact_attempt assms same_but_calls_refl)
  qed
  show ?thesis
    unfolding wal_Compact_def Let_def
    using err body by (auto split: option.split sum.split)
qed

section \<open>Reopening\<close>

lemma recover_loop_tail:
  "recover_loop xs d = Inr (d', t) \<Longrightarrow> \<exists>ys. xs = ys @ t \<and> recover_loop ys d = Inr (d', [])"
proof (induction xs d rule: recover_loop.induct)
  case (1 xs d)
  show ?case
  proof (cases "decodeRecord xs")
    case (Inl err)
    show ?thesis
    proof (cases "errors_is err io_EOF")
      case True
      with Inl 1(2) have "xs = [] \<and> t = [] \<and> d' = d"
        using decodeRecord_error [OF Inl, of "[]"] by (cases "err = io_ErrUnexpectedEOF"; cases "xs = []") (auto simp: recover_loop.simps [of xs])
      then show ?thesis by auto
    next
      case False
      with Inl 1(2) have "t = xs \<and> d' = d" by (auto simp: recover_loop.simps [of xs] split: if_splits)
      then show ?thesis by auto
    qed
  next
    case (Inr x)
    then obtain ty p rest where x: "decodeRecord xs = Inr ((ty, p), rest)" by (cases x) auto
    with 1(2) obtain d1 where d1: "replay_record ty p d = Inr d1" "recover_loop rest d1 = Inr (d', t)"
      by (auto simp: recover_loop.simps [of xs d] split: sum.splits)
    from 1(1) [OF x refl refl d1] obtain ys where ys: "rest = ys @ t" "recover_loop ys d1 = Inr (d', [])" by blast
    from x obtain r where r: "encodeRecord ty p = Inr r" "xs = r @ rest" by (auto simp: decodeRecord_Inr)
    with ys d1 have "recover_loop (r @ ys) d = Inr (d', [])"
      by (simp add: recover_loop.simps [of "r @ ys"] decodeRecord_encode)
    with r ys show ?thesis by (intro exI [of _ "r @ ys"]) simp
  qed
qed

lemma OpenWAL_result:
  assumes "OpenWAL e outs calls f = Inr s"
  shows "\<exists>t. recover_loop f empty_disk = Inr (wal_view s, t) \<and> f = w_data s @ t"
    "recover_loop (w_data s) empty_disk = Inr (wal_view s, [])"
    "w_open s" "w_prev s = None" "w_synced s = length (w_data s)" "w_offset s = length (w_data s)" "w_writes s = outs"
    "w_calls s = calls"
proof -
  from assms obtain d t where r: "recover_loop f empty_disk = Inr (d, t)"
    and s: "s = \<lparr>w_open = True, w_data = take (length f - length t) f, w_synced = length (take (length f - length t) f),
      w_offset = length (take (length f - length t) f), w_prev = None, w_state = d_state d, w_entries = d_entries d,
      w_snapshot = d_snapshot d, w_writes = outs, w_calls = calls\<rparr>"
    by (auto simp: OpenWAL_def wal_recover_def bind_result_Inr wrap_error_Inr split: option.splits)
  from recover_loop_tail [OF r] obtain ys where ys: "f = ys @ t" "recover_loop ys empty_disk = Inr (d, [])" by blast
  have v: "wal_view s = d" by (simp add: s wal_view_def)
  show "\<exists>t. recover_loop f empty_disk = Inr (wal_view s, t) \<and> f = w_data s @ t"
    "recover_loop (w_data s) empty_disk = Inr (wal_view s, [])"
    unfolding v using r ys by (auto simp: s)
  show "w_open s" "w_prev s = None" "w_synced s = length (w_data s)" "w_offset s = length (w_data s)" "w_writes s = outs"
    "w_calls s = calls"
    by (simp_all add: s)
qed

lemma wal_durable_synced:
  assumes "w_prev s = None" "w_synced s = length (w_data s)" "file_agrees s"
  shows "wal_durable s = {wal_view s}"
  using assms by (auto simp: wal_durable_def crash_files_open file_agrees_def)

section \<open>The contract\<close>

lemmas wal_ops_simps = wal_ops_def

lemma writes_error [simp]: "writes v dur s d (Some err, s)"
  by (auto simp: writes_def)

lemma wal_view_synced [simp]: "wal_view (s\<lparr>w_synced := n\<rparr>) = wal_view s"
  by (simp add: wal_view_def)

lemma wal_Sync_spec:
  assumes "wal_sinv s"
  shows "wal_sinv (snd (wal_Sync s)) \<and> wal_view (snd (wal_Sync s)) = wal_view s \<and>
    (if fst (wal_Sync s) = None then wal_durable (snd (wal_Sync s)) = {wal_view s}
     else wal_durable (snd (wal_Sync s)) \<subseteq> wal_durable s)"
proof (cases "w_open s")
  case True
  obtain r s' where r: "syscall s = (r, s')" by fastforce
  then have "same_but_calls s s'" by (rule syscall_same) simp
  note f = same_but_calls_fields [OF this]
  let ?t = "s'\<lparr>w_synced := length (w_data s')\<rparr>"
  have v: "wal_view s' = wal_view s" "wal_view ?t = wal_view s" using f by (simp_all add: wal_view_def)
  have "file_agrees s'" "file_agrees ?t" using assms True f by (simp_all add: file_agrees_def v wal_sinv_def)
  moreover from this True assms f have "wal_durable ?t = {wal_view s}"
    by (subst wal_durable_synced) (simp_all add: v wal_sinv_def)
  moreover have "wal_durable s' = wal_durable s" using f v by (intro wal_durable_cong) simp_all
  ultimately show ?thesis using True assms f v by (simp add: wal_Sync_def r wal_sinv_def split: option.split)
qed (use assms in \<open>simp add: wal_Sync_def\<close>)

lemma wal_recovers_spec:
  assumes "wal_recovers s s'"
  shows "wal_sinv s' \<and> wal_view s' \<in> wal_durable s \<and> wal_durable s' = {wal_view s'}"
proof -
  from assms obtain f e outs calls where f: "f \<in> crash_files s" "only_short outs" and o: "OpenWAL e outs calls f = Inr s'"
    by (auto simp: wal_recovers_def)
  note r = OpenWAL_result [OF o]
  have a: "file_agrees s'" using r(2) by (simp add: file_agrees_def)
  from r(1) f have "wal_view s' \<in> wal_durable s" by (auto simp: wal_durable_def)
  with a r f(2) wal_durable_synced [OF r(4,5) a] show ?thesis by (simp add: wal_sinv_def)
qed

lemma wal_fresh_spec:
  assumes "wal_fresh s"
  shows "wal_sinv s \<and> wal_durable s = {wal_view s} \<and> wal_view s = empty_disk"
proof -
  from assms obtain e outs calls where o: "only_short outs" "OpenWAL e outs calls [] = Inr s" by (auto simp: wal_fresh_def)
  note r = OpenWAL_result [OF o(2)]
  have a: "file_agrees s" using r(2) by (simp add: file_agrees_def)
  from r(1) have "wal_view s = empty_disk" by simp
  with a r o(1) wal_durable_synced [OF r(4,5) a] show ?thesis by (simp add: wal_sinv_def)
qed

interpretation wal: crash_storage wal_ops wal_view wal_durable wal_sinv wal_recovers wal_fresh
proof
  fix s s' p es i sn
  assume s: "wal_sinv s"
  show "wal_view s \<in> wal_durable s" by (simp add: wal_durable_def)
  show "wal_sinv (snd (op_SaveState wal_ops p s)) \<and>
      writes wal_view wal_durable s ((wal_view s)\<lparr>d_state := p\<rparr>) (op_SaveState wal_ops p s)"
    using s append_then_spec [OF s _ encodeStateRecord_effect]
    by (simp add: wal_ops_simps wal_SaveState_def wal_view_def)
  show "wal_sinv (snd (op_AppendEntries wal_ops es s)) \<and>
      writes wal_view wal_durable s ((wal_view s)\<lparr>d_entries := d_entries (wal_view s) @ es\<rparr>) (op_AppendEntries wal_ops es s)"
    using s append_then_spec [OF s _ encodeEntriesRecord_effect]
    by (simp add: wal_ops_simps wal_AppendEntries_def wal_view_def appendEntriesCopy_def split: option.split) (simp add: writes_def wal_view_def subset_insertI)
  show "wal_sinv (snd (op_ReplaceSuffix wal_ops i es s)) \<and>
      writes wal_view wal_durable s ((wal_view s)\<lparr>d_entries := replaceSuffixCopy (d_entries (wal_view s)) i es\<rparr>)
        (op_ReplaceSuffix wal_ops i es s)"
    using s append_then_spec [OF s _ encodeReplaceSuffixRecord_effect]
    by (simp add: wal_ops_simps wal_ReplaceSuffix_def wal_view_def split: option.split)
  show "wal_sinv (snd (op_SaveSnapshot wal_ops sn s)) \<and>
      writes wal_view wal_durable s ((wal_view s)\<lparr>d_snapshot := Some sn\<rparr>) (op_SaveSnapshot wal_ops sn s)"
    using s append_then_spec [OF s _ snapshot_record_effect]
    by (simp add: wal_ops_simps wal_SaveSnapshot_def wal_view_def)
  show "wal_sinv (snd (op_Compact wal_ops sn s)) \<and>
      (\<exists>sn'. writes wal_view wal_durable s (compacted sn ((wal_view s)\<lparr>d_snapshot := sn'\<rparr>)) (op_Compact wal_ops sn s) \<and>
        sn' \<in> {d_snapshot (wal_view s), Some sn})"
    using wal_Compact_spec [OF s, of sn] by (auto simp: wal_ops_simps compact_result_def)
  show "wal_sinv (snd (op_Sync wal_ops s)) \<and> wal_view (snd (op_Sync wal_ops s)) = wal_view s \<and>
      (if fst (op_Sync wal_ops s) = None then wal_durable (snd (op_Sync wal_ops s)) = {wal_view s}
       else wal_durable (snd (op_Sync wal_ops s)) \<subseteq> wal_durable s)"
    using wal_Sync_spec [OF s] by (simp add: wal_ops_simps)
  show "wal_recovers s s' \<Longrightarrow> wal_sinv s' \<and> wal_view s' \<in> wal_durable s \<and> wal_durable s' = {wal_view s'}"
    by (rule wal_recovers_spec)
qed (use wal_fresh_spec in \<open>auto simp: wal_ops_simps wal_LoadState_def wal_LoadEntries_def wal_LoadSnapshot_def wal_view_def disk_snapshot_def
      empty_disk_def split: if_splits option.splits\<close>)

end
