(* ===== verification/WAL_Properties.thy ===== *)
theory WAL_Properties
  imports WAL_Contract Storage_Memory
begin

text \<open>
  Properties of the write-ahead log: the contract, what a crash in the middle of a sequence of calls
  leaves, when reopening succeeds, what a failed write does to the file, and the compaction after which
  a failed write empties the file.
\<close>

section \<open>Sequences of calls\<close>

datatype storage_call =
    SaveStateCall persistent_state
  | AppendEntriesCall "log_entry list"
  | ReplaceSuffixCall log_index "log_entry list"
  | SaveSnapshotCall snapshot
  | CompactCall snapshot
  | SyncCall

fun call_result :: "'s storage_ops \<Rightarrow> storage_call \<Rightarrow> 's \<Rightarrow> go_error option \<times> 's" where
  "call_result ops (SaveStateCall p) s = op_SaveState ops p s"
| "call_result ops (AppendEntriesCall es) s = op_AppendEntries ops es s"
| "call_result ops (ReplaceSuffixCall i es) s = op_ReplaceSuffix ops i es s"
| "call_result ops (SaveSnapshotCall sn) s = op_SaveSnapshot ops sn s"
| "call_result ops (CompactCall sn) s = op_Compact ops sn s"
| "call_result ops SyncCall s = op_Sync ops s"

fun run_calls :: "'s storage_ops \<Rightarrow> storage_call list \<Rightarrow> 's \<Rightarrow> 's" where
  "run_calls ops [] s = s"
| "run_calls ops (c # cs) s = run_calls ops cs (snd (call_result ops c s))"

text \<open>No call of the sequence reports an error.\<close>

fun calls_succeed :: "'s storage_ops \<Rightarrow> storage_call list \<Rightarrow> 's \<Rightarrow> bool" where
  "calls_succeed ops [] s \<longleftrightarrow> True"
| "calls_succeed ops (c # cs) s \<longleftrightarrow>
     fst (call_result ops c s) = None \<and> calls_succeed ops cs (snd (call_result ops c s))"

lemma run_calls_append: "run_calls ops (cs @ ds) s = run_calls ops ds (run_calls ops cs s)"
  by (induction cs arbitrary: s) simp_all

lemma calls_succeed_append:
  "calls_succeed ops (cs @ ds) s \<longleftrightarrow> calls_succeed ops cs s \<and> calls_succeed ops ds (run_calls ops cs s)"
  by (induction cs arbitrary: s) simp_all

context raft_storage
begin

lemma call_inv: "sinv s \<Longrightarrow> sinv (snd (call_result ops c s))"
  by (cases c) (use SaveState AppendEntries ReplaceSuffix SaveSnapshot Compact Sync in auto)

lemma run_inv: "sinv s \<Longrightarrow> sinv (run_calls ops cs s)"
  by (induction cs arbitrary: s) (simp_all add: call_inv)

lemma writes_None: "writes view durable s d (None, s') \<Longrightarrow> durable s' \<subseteq> insert (view s') (durable s)"
  by (auto simp: writes_def)

lemma call_durable:
  assumes "sinv s" "fst (call_result ops c s) = None"
  shows "durable (snd (call_result ops c s)) \<subseteq> insert (view (snd (call_result ops c s))) (durable s)"
proof (cases "c = SyncCall")
  case True
  with assms Sync [OF assms(1)] show ?thesis by auto
next
  case False
  have *: "\<exists>d. writes view durable s d (op_SaveState ops p s)" "\<exists>d. writes view durable s d (op_AppendEntries ops es s)"
    "\<exists>d. writes view durable s d (op_ReplaceSuffix ops i es s)" "\<exists>d. writes view durable s d (op_SaveSnapshot ops sn s)"
    "\<exists>d. writes view durable s d (op_Compact ops sn s)" for p es i sn
    using SaveState [OF assms(1), of p] AppendEntries [OF assms(1), of es] ReplaceSuffix [OF assms(1), of i es]
      SaveSnapshot [OF assms(1), of sn] Compact [OF assms(1), of sn] by blast+
  have "\<exists>d. writes view durable s d (call_result ops c s)"
    using False by (cases c) (simp_all only: call_result.simps *, simp)
  then show ?thesis using writes_None [of s] assms(2) by (cases "call_result ops c s") auto
qed

text \<open>What a crash leaves after a sequence of calls is what was there after one of its prefixes.\<close>

lemma run_durable:
  assumes "sinv s" "durable s = {view s}" "calls_succeed ops cs s" "d \<in> durable (run_calls ops cs s)"
  shows "\<exists>k \<le> length cs. d = view (run_calls ops (take k cs) s)"
  using assms(3,4)
proof (induction cs rule: rev_induct)
  case Nil
  then show ?case using assms(2) by simp
next
  case (snoc c cs)
  let ?s = "run_calls ops cs s"
  from snoc.prems have c: "calls_succeed ops cs s" "fst (call_result ops c ?s) = None"
    "d \<in> durable (snd (call_result ops c ?s))"
    by (simp_all add: calls_succeed_append run_calls_append)
  with call_durable [OF run_inv [OF assms(1)] c(2)] consider "d = view (run_calls ops (cs @ [c]) s)" | "d \<in> durable ?s"
    by (auto simp: run_calls_append)
  then show ?case
  proof cases
    case 1
    then show ?thesis by (intro exI [of _ "length (cs @ [c])"]) simp
  next
    case 2
    with snoc.IH [OF c(1)] obtain k where "k \<le> length cs" "d = view (run_calls ops (take k cs) s)" by blast
    then show ?thesis by (intro exI [of _ k]) simp
  qed
qed

end

section \<open>Reopening\<close>

text \<open>
  The recovery repeats checks that the operations do not make: the sizes and names of a configuration,
  that snapshots do not move backwards, that a replaced suffix leaves no gap.
\<close>

definition recoverable_call :: "disk \<Rightarrow> storage_call \<Rightarrow> bool" where
  "recoverable_call d c = (case c of
      SaveStateCall p \<Rightarrow> membership_recoverable (Membership p)
    | ReplaceSuffixCall i es \<Rightarrow> validateLog (replaceSuffixCopy (d_entries d) i es) = None
    | SaveSnapshotCall sn \<Rightarrow> LastIncludedIndex sn < 2 ^ 64 \<and> LastIncludedTerm sn < 2 ^ 64 \<and>
        validateRecoveredSnapshot (d_snapshot d) sn = None
    | CompactCall sn \<Rightarrow> membership_recoverable (Membership (d_state d)) \<and> LastIncludedIndex sn < 2 ^ 64 \<and>
        LastIncludedTerm sn < 2 ^ 64 \<and> validateLog (d_entries (compacted sn d)) = None
    | _ \<Rightarrow> True)"

fun recoverable_calls :: "storage_call list \<Rightarrow> wal_storage \<Rightarrow> bool" where
  "recoverable_calls [] s \<longleftrightarrow> True"
| "recoverable_calls (c # cs) s \<longleftrightarrow> recoverable_call (wal_view s) c \<and> recoverable_calls cs (snd (call_result wal_ops c s))"

definition file_complete :: "wal_storage \<Rightarrow> bool" where
  "file_complete s \<longleftrightarrow> recover_loop (w_data s) empty_disk = Inr (wal_view s, [])"

lemma recover_one:
  assumes "encodeRecord t p = Inr r" "replay_record t p d = Inr d'"
  shows "recover_loop (r @ rest) d = recover_loop rest d'"
  using assms by (simp add: recover_loop.simps [of "r @ rest"] decodeRecord_encode)

lemma append_then_success:
  assumes "append_then m1 m2 rec g s = (None, s')" "only_short (w_writes s)"
  obtains r ws where "rec = Inr r" "only_short ws"
    "s' = g (s\<lparr>w_data := w_data s @ r, w_offset := length (w_data s @ r), w_writes := ws\<rparr>)"
proof (cases rec)
  case (Inl err)
  with assms(1) show ?thesis by (simp add: append_then_def)
next
  case (Inr r)
  obtain ws where "only_short ws"
    "appendRecord r s = (None, s\<lparr>w_data := w_data s @ r, w_offset := length (w_data s @ r), w_writes := ws\<rparr>)"
    using appendRecord_only_short [OF assms(2)] by blast
  with assms(1) Inr show ?thesis by (intro that [OF Inr]) (auto simp: append_then_def)
qed

lemma attempt_success:
  assumes "attempt msg k s = (None, s')" obtains s1 where "same_but_calls s s1" "k s1 = (None, s')"
proof -
  obtain r s1 where r: "syscall s = (r, s1)" by fastforce
  with assms have "k s1 = (None, s')" by (simp add: attempt_def split: option.splits)
  with syscall_same [OF r same_but_calls_refl] show thesis by (rule that)
qed

lemma same_but_calls_trans: "same_but_calls a b \<Longrightarrow> same_but_calls b c \<Longrightarrow> same_but_calls a c"
  by (auto simp: same_but_calls_def)

lemma compact_reopen_success:
  assumes "compact_reopen es sn s = (None, s')"
  shows "w_data s' = w_data s \<and> wal_view s' = \<lparr>d_state = w_state s, d_entries = es, d_snapshot = Some sn\<rparr> \<and>
    w_open s' \<and> w_offset s' = 0"
proof -
  obtain r x where x: "syncDirectory s = (r, x)" by fastforce
  from syncDirectory_result [OF same_but_calls_refl x] have "w_data x = w_data s" "w_state x = w_state s"
    by (auto simp: same_but_calls_def)
  with assms x show ?thesis
    by (auto simp: compact_reopen_def wal_view_def split: option.splits elim!: attempt_success dest: same_but_calls_fields)
qed

lemma compact_replace_success:
  assumes "compact_replace content es sn s = (None, s')"
  shows "w_data s' = content \<and> wal_view s' = \<lparr>d_state = w_state s, d_entries = es, d_snapshot = Some sn\<rparr> \<and>
    w_open s' \<and> w_offset s' = 0"
proof -
  obtain r1 s1 where 1: "syscall s = (r1, s1)" by fastforce
  obtain r2 s2 where 2: "syscall (s1\<lparr>w_open := False\<rparr>) = (r2, s2)" by fastforce
  from 1 2 have "w_state s2 = w_state s" by (auto simp: syscall_def split: list.splits)
  with assms 1 2 show ?thesis
    by (auto simp: compact_replace_def split: option.splits prod.splits dest: compact_reopen_success)
qed

lemma wal_Compact_success:
  assumes "wal_Compact sn s = (None, s')"
  obtains a b c es where "es = filter (\<lambda>e. \<not> Index e \<le> LastIncludedIndex sn) (w_entries s)"
    "encodeStateRecord (w_state s) = Inr a" "snapshot_record sn = Inr b" "encodeEntriesRecord es = Inr c"
    "w_data s' = a @ b @ (if es \<noteq> [] then c else [])"
    "wal_view s' = \<lparr>d_state = w_state s, d_entries = es, d_snapshot = Some sn\<rparr>"
    "LastIncludedIndex sn \<noteq> 0" "w_open s'" "w_offset s' = 0"
proof -
  let ?es = "filter (\<lambda>e. \<not> Index e \<le> LastIncludedIndex sn) (w_entries s)"
  from assms obtain a b c where abc: "encodeStateRecord (w_state s) = Inr a" "snapshot_record sn = Inr b" "encodeEntriesRecord ?es = Inr c"
    and i: "LastIncludedIndex sn \<noteq> 0"
    and run: "attempt ''create WAL compaction temporary file'' (attempt ''write compacted state record''
      (attempt ''write compacted snapshot record'' ((if ?es \<noteq> [] then attempt ''write compacted entries record'' else id)
      (attempt ''sync compacted WAL'' (attempt ''close compacted WAL''
        (compact_replace (a @ b @ (if ?es \<noteq> [] then c else [])) ?es sn)))))) s = (None, s')"
    by (auto simp: wal_Compact_def Let_def split: if_splits option.splits sum.splits)
  from run obtain s1 where s1: "same_but_calls s s1"
    "compact_replace (a @ b @ (if ?es \<noteq> [] then c else [])) ?es sn s1 = (None, s')"
    by (cases "?es = []") (auto elim!: attempt_success, (blast intro: same_but_calls_trans)+)
  from compact_replace_success [OF s1(2)] same_but_calls_fields [OF s1(1)] abc i show thesis by (intro that) simp_all
qed

lemma recordState_complete:
  assumes "encodeStateRecord p = Inr r" "membership_recoverable (Membership p)"
  shows "recover_loop (r @ rest) d = recover_loop rest (d\<lparr>d_state := p\<rparr>)"
proof -
  from assms(1) obtain b where b: "encode_state p = Inr b" "encodeRecord recordState b = Inr r"
    by (auto simp: encodeStateRecord_def put_iffs)
  show ?thesis
    by (rule recover_one [OF b(2)]) (simp add: replay_record_def decodeStatePayload_ok [OF b(1) assms(2)])
qed

lemma recordSnapshot_complete:
  assumes "snapshot_record sn = Inr r" "LastIncludedIndex sn < 2 ^ 64" "LastIncludedTerm sn < 2 ^ 64"
    "validateRecoveredSnapshot (d_snapshot d) sn = None"
  shows "recover_loop (r @ rest) d = recover_loop rest (d\<lparr>d_snapshot := Some sn\<rparr>)"
proof -
  from assms(1) obtain b where b: "encodeSnapshotPayload sn = Inr b" "encodeRecord recordSnapshot b = Inr r"
    by (auto simp: snapshot_record_def bind_result_Inr)
  show ?thesis
    by (rule recover_one [OF b(2)])
      (use assms(4) in \<open>simp add: replay_record_def record_types decodeSnapshotPayload_ok [OF b(1) assms(2,3)]\<close>)
qed

lemma recordEntries_complete:
  assumes "encodeEntriesRecord es = Inr r" "validateEntries es = None" "validateRecoveredAppend (d_entries d) es = None"
  shows "recover_loop (r @ rest) d = recover_loop rest (d\<lparr>d_entries := d_entries d @ es\<rparr>)"
proof -
  from assms(1) obtain c b where b: "put_len ''too many entries'' (length es) = Inr c" "encode_entries ''encode entry'' es = Inr b"
    "encodeRecord recordEntries (c @ b) = Inr r"
    by (auto simp: encodeEntriesRecord_def bind_result_Inr)
  show ?thesis
    by (rule recover_one [OF b(3)])
      (use assms(3) in \<open>simp add: replay_record_def record_types decodeEntriesPayload_valid [OF b(1,2) assms(2)] appendEntriesCopy_def\<close>)
qed

lemma recordReplaceSuffix_complete:
  assumes "encodeReplaceSuffixRecord i es = Inr r" "validateReplaceSuffix (d_snapshot d) i es = None"
    "validateLog (replaceSuffixCopy (d_entries d) i es) = None"
  shows "recover_loop (r @ rest) d = recover_loop rest (d\<lparr>d_entries := replaceSuffixCopy (d_entries d) i es\<rparr>)"
proof -
  from assms(1) obtain f c b where b: "put64 i = Inr f" "put_len ''too many replacement entries'' (length es) = Inr c"
    "encode_entries ''encode replacement entry'' es = Inr b" "encodeRecord recordReplaceSuffix (f @ c @ b) = Inr r"
    by (auto simp: encodeReplaceSuffixRecord_def bind_result_Inr)
  show ?thesis
    by (rule recover_one [OF b(4)])
      (use assms(2,3) in \<open>simp add: replay_record_def record_types decodeReplaceSuffixPayload_encode [OF b(1-3)] Let_def\<close>)
qed

lemma append_complete:
  assumes "wal_sinv s" "file_complete s" "append_then m1 m2 rec g s = (None, s')"
    and "\<And>r. rec = Inr r \<Longrightarrow> recover_loop (r @ []) (wal_view s) = recover_loop [] (f (wal_view s))"
    and "\<And>x. wal_view (g x) = f (wal_view x)" "\<And>x. w_data (g x) = w_data x"
  shows "file_complete s'"
proof -
  have "only_short (w_writes s)" using assms(1) by (simp add: wal_sinv_def)
  with assms(3) obtain r ws where r: "rec = Inr r"
    "s' = g (s\<lparr>w_data := w_data s @ r, w_offset := length (w_data s @ r), w_writes := ws\<rparr>)"
    by (rule append_then_success)
  have "wal_view s' = f (wal_view s)" "w_data s' = w_data s @ r" unfolding r(2) assms(5,6) by (simp_all add: wal_view_def)
  with assms(2,4) r(1) recover_loop_append [of "w_data s" empty_disk "wal_view s" r] show ?thesis
    by (simp add: file_complete_def)
qed

lemma compact_complete:
  assumes "encodeStateRecord p = Inr a" "snapshot_record sn = Inr b" "encodeEntriesRecord es = Inr c"
    "membership_recoverable (Membership p)" "LastIncludedIndex sn < 2 ^ 64" "LastIncludedTerm sn < 2 ^ 64"
    "LastIncludedIndex sn \<noteq> 0" "validateLog es = None"
  shows "recover_loop (a @ b @ (if es \<noteq> [] then c else [])) empty_disk =
    Inr (\<lparr>d_state = p, d_entries = es, d_snapshot = Some sn\<rparr>, [])"
  using recordEntries_complete [OF assms(3), of "\<lparr>d_state = p, d_entries = [], d_snapshot = Some sn\<rparr>" "[]"] assms(7,8)
  by (auto simp: recordState_complete [OF assms(1,4)] recordSnapshot_complete [OF assms(2,5,6)] empty_disk_def
      validateRecoveredSnapshot_def validateSnapshot_def validateLog_def validateRecoveredAppend_def validateAppend_def)

lemma call_complete:
  assumes inv: "wal_sinv s" "file_complete s" and c: "recoverable_call (wal_view s) c" "call_result wal_ops c s = (None, s')"
  shows "file_complete s'"
proof -
  note append = append_complete [OF inv]
  show ?thesis
  proof (cases c)
    case (SaveStateCall p)
    with c(2) have "append_then ''encode state record'' ''write state record'' (encodeStateRecord p) (\<lambda>s'. s'\<lparr>w_state := p\<rparr>) s = (None, s')"
      by (simp add: wal_ops_simps wal_SaveState_def split: if_splits)
    then show ?thesis
      by (rule append [where f = "\<lambda>d. d\<lparr>d_state := p\<rparr>"], intro recordState_complete) (use c(1) SaveStateCall in \<open>auto simp: recoverable_call_def wal_view_def\<close>)
  next
    case (AppendEntriesCall es)
    show ?thesis
    proof (cases "es = []")
      case True
      with c(2) AppendEntriesCall inv(2) show ?thesis by (auto simp: wal_ops_simps wal_AppendEntries_def split: if_splits)
    next
      case False
      with c(2) AppendEntriesCall have v: "validateEntries es = None" "validateAppend (w_entries s) es = None"
        and "append_then ''encode entries record'' ''write entries record'' (encodeEntriesRecord es)
          (\<lambda>s'. s'\<lparr>w_entries := appendEntriesCopy (w_entries s') es\<rparr>) s = (None, s')"
        by (auto simp: wal_ops_simps wal_AppendEntries_def split: if_splits option.splits)
      from this(3) show ?thesis
        by (rule append [where f = "\<lambda>d. d\<lparr>d_entries := d_entries d @ es\<rparr>"], intro recordEntries_complete) (use v in \<open>auto simp: validateRecoveredAppend_def wal_view_def appendEntriesCopy_def\<close>)
    qed
  next
    case (ReplaceSuffixCall i es)
    with c(2) have v: "validateReplaceSuffix (w_snapshot s) i es = None"
      and "append_then ''encode suffix replacement'' ''write suffix replacement record''
        (encodeReplaceSuffixRecord i es) (\<lambda>s'. s'\<lparr>w_entries := replaceSuffixCopy (w_entries s') i es\<rparr>) s = (None, s')"
      by (auto simp: wal_ops_simps wal_ReplaceSuffix_def split: if_splits option.splits)
    from this(2) show ?thesis
      by (rule append [where f = "\<lambda>d. d\<lparr>d_entries := replaceSuffixCopy (d_entries d) i es\<rparr>"], intro recordReplaceSuffix_complete)
        (use v c(1) ReplaceSuffixCall in \<open>auto simp: recoverable_call_def wal_view_def\<close>)
  next
    case (SaveSnapshotCall sn)
    with c(2) have "append_then ''encode snapshot'' ''write snapshot record'' (snapshot_record sn) (\<lambda>s'. s'\<lparr>w_snapshot := Some sn\<rparr>) s = (None, s')"
      by (simp add: wal_ops_simps wal_SaveSnapshot_def split: if_splits)
    then show ?thesis
      by (rule append [where f = "\<lambda>d. d\<lparr>d_snapshot := Some sn\<rparr>"], intro recordSnapshot_complete) (use c(1) SaveSnapshotCall in \<open>auto simp: recoverable_call_def wal_view_def\<close>)
  next
    case (CompactCall sn)
    with c(2) have "wal_Compact sn s = (None, s')" by (simp add: wal_ops_simps)
    then show ?thesis
      by (rule wal_Compact_success)
        (use c(1) CompactCall in \<open>auto simp: file_complete_def recoverable_call_def wal_view_def compacted_def not_le compact_complete\<close>)
  next
    case SyncCall
    obtain r s1 where "syscall s = (r, s1)" by fastforce
    with syscall_same [OF this same_but_calls_refl] c(2) SyncCall inv(2) show ?thesis
      by (auto simp: wal_ops_simps wal_Sync_def file_complete_def wal_view_def same_but_calls_def split: if_splits option.splits)
  qed
qed

lemma run_complete:
  "wal_sinv s \<Longrightarrow> file_complete s \<Longrightarrow> calls_succeed wal_ops cs s \<Longrightarrow> recoverable_calls cs s \<Longrightarrow>
     file_complete (run_calls wal_ops cs s)"
proof (induction cs arbitrary: s)
  case (Cons c cs)
  then obtain s1 where s1: "call_result wal_ops c s = (None, s1)" by (cases "call_result wal_ops c s") auto
  with Cons.prems call_complete [OF Cons.prems(1,2) _ s1] wal.call_inv [of s c] show ?case by (simp add: Cons.IH)
qed simp

lemma OpenWAL_complete:
  assumes "recover_loop f empty_disk = Inr (d, [])"
  shows "\<exists>s. OpenWAL no_open_errors outs calls f = Inr s \<and> wal_view s = d"
  using assms by (simp add: OpenWAL_def wal_recover_def no_open_errors_def wal_view_def)

definition wal_empty :: "write_outcome list \<Rightarrow> wal_storage" where
  "wal_empty outs = \<lparr>w_open = True, w_data = [], w_synced = 0, w_offset = 0, w_prev = None,
     w_state = zero_persistent_state, w_entries = [], w_snapshot = None, w_writes = outs, w_calls = []\<rparr>"

lemma OpenWAL_empty: "OpenWAL no_open_errors outs [] [] = Inr (wal_empty outs)"
  by (simp add: OpenWAL_def wal_recover_def no_open_errors_def wal_empty_def empty_disk_def)

definition demo_entry :: log_entry where "demo_entry = \<lparr>Index = 1, Term = 1, Data = ''x''\<rparr>"

lemma appendRecord_ok:
  "w_writes s = [] \<Longrightarrow> appendRecord r s =
     (None, s\<lparr>w_data := w_data s @ r, w_offset := length (w_data s @ r), w_writes := []\<rparr>)"
  by (cases "r = []") (simp_all add: appendRecord_def writeFull.simps [of r] writeFull.simps [of "[]"] file_write_def Let_def)

lemmas demo_evals = wal_ops_simps wal_AppendEntries_def wal_empty_def validateEntries_def demo_entry_def validateAppend_def
  append_then_def appendRecord_ok encodeEntriesRecord_def put_len_def encodeEntry_def put64_def encodeRecord_def Let_def
  maxRecordPayloadSize_def appendEntriesCopy_def wal_Sync_def syscall_def

lemma demo_succeeds:
  "calls_succeed wal_ops [AppendEntriesCall [demo_entry], SyncCall] (wal_empty [])"
  "calls_succeed wal_ops [SyncCall, AppendEntriesCall [demo_entry]] (wal_empty [])"
  by (simp_all add: demo_evals)

lemma demo_view:
  "d_entries (wal_view (run_calls wal_ops [AppendEntriesCall [demo_entry], SyncCall] (wal_empty []))) = [demo_entry]"
  by (simp add: demo_evals wal_view_def)

lemma put_uint32_bytes:
  "put_uint32 n = [char_of (n div 16777216), char_of (n div 65536), char_of (n div 256), char_of n]"
proof -
  have "(4 :: nat) = Suc (Suc (Suc (Suc 0)))" by simp
  then show ?thesis by (simp only: be_bytes.simps) simp
qed

lemma demo_torn_record: "take 3 (w_data (run_calls wal_ops [SyncCall, AppendEntriesCall [demo_entry]] (wal_empty []))) =
    [recordEntries, CHR 0x00, CHR 0x00]"
  by (simp add: demo_evals put_uint32_bytes char_of_def)

lemma demo_torn: "[recordEntries, CHR 0x00, CHR 0x00] \<in>
    crash_files (run_calls wal_ops [SyncCall, AppendEntriesCall [demo_entry]] (wal_empty []))"
proof -
  let ?s = "run_calls wal_ops [SyncCall, AppendEntriesCall [demo_entry]] (wal_empty [])"
  have "w_synced ?s = 0" "w_prev ?s = None" by (simp_all add: demo_evals)
  then have "take 3 (w_data ?s) \<in> crash_files ?s" by (auto simp: crash_files_open simp del: run_calls.simps)
  then show ?thesis by (simp only: demo_torn_record)
qed

lemma demo_torn_opens: "OpenWAL no_open_errors [] [] [recordEntries, CHR 0x00, CHR 0x00] = Inr (wal_empty [])"
  by (simp add: OpenWAL_def wal_recover_def no_open_errors_def wal_empty_def empty_disk_def
      recover_loop.simps [of "[recordEntries, CHR 0x00, CHR 0x00]"] decodeRecord_def read_uint_torn)

section \<open>Crashes\<close>


text \<open>C4.  Crash atomicity: open a log, make any sequence of calls that report success, and crash with any
  part of the unsynced bytes lost, even in the middle of a record.  If the file then opens, it
  holds the state after some prefix of those calls; every call up to the last successful Sync is in that prefix.\<close>

theorem wal_crash_prefix:
  assumes "OpenWAL e outs calls f = Inr s" and "only_short outs"
    and "calls_succeed wal_ops (cs @ SyncCall # ds) s"
    and "f' \<in> crash_files (run_calls wal_ops (cs @ SyncCall # ds) s)"
    and "OpenWAL e' outs' calls' f' = Inr s'"
  shows "\<exists>k \<le> length ds. wal_view s' = wal_view (run_calls wal_ops (cs @ SyncCall # take k ds) s)"
proof -
  let ?s = "run_calls wal_ops cs s" and ?t = "snd (call_result wal_ops SyncCall (run_calls wal_ops cs s))"
  note r = OpenWAL_result [OF assms(1)]
  have "wal_sinv s" using r assms(2) by (simp add: wal_sinv_def file_agrees_def)
  then have s: "wal_sinv ?s" by (rule wal.run_inv)
  from assms(3) have ok: "fst (op_Sync wal_ops ?s) = None" "calls_succeed wal_ops ds ?t" by (simp_all add: calls_succeed_append)
  from wal.Sync [OF s] ok(1) have t: "wal_sinv ?t" "wal_durable ?t = {wal_view ?t}" by simp_all
  from OpenWAL_result(1) [OF assms(5)] assms(4) have "wal_view s' \<in> wal_durable (run_calls wal_ops ds ?t)"
    by (auto simp: wal_durable_def run_calls_append)
  from wal.run_durable [OF t ok(2) this] show ?thesis by (simp add: run_calls_append)
qed

theorem wal_crash_prefix_witness:
  "\<exists>k \<le> length [AppendEntriesCall [demo_entry]].
     wal_view (wal_empty []) = wal_view (run_calls wal_ops ([] @ SyncCall # take k [AppendEntriesCall [demo_entry]]) (wal_empty []))"
  by (rule wal_crash_prefix [OF OpenWAL_empty _ _ _ demo_torn_opens])
    (use demo_succeeds(2) demo_torn in \<open>simp_all add: only_short_def\<close>)

section \<open>Restarts\<close>

text \<open>C11.  A restart finds everything: after any sequence of calls that report success, whose arguments pass
  the checks of the recovery, the file opens without error and holds exactly the state,
  the log and the snapshot that were in memory, byte for byte.\<close>

theorem wal_reopens:
  assumes "OpenWAL e outs calls f = Inr s" and "only_short outs"
    and "calls_succeed wal_ops cs s" and "recoverable_calls cs s"
  shows "\<exists>s'. OpenWAL no_open_errors outs' calls' (w_data (run_calls wal_ops cs s)) = Inr s' \<and>
    wal_view s' = wal_view (run_calls wal_ops cs s)"
proof -
  note r = OpenWAL_result [OF assms(1)]
  have "wal_sinv s" "file_complete s" using r assms(2) by (simp_all add: wal_sinv_def file_agrees_def file_complete_def)
  from run_complete [OF this assms(3,4)] show ?thesis by (intro OpenWAL_complete) (simp add: file_complete_def)
qed

theorem wal_reopens_witness:
  "\<exists>s'. OpenWAL no_open_errors [] [] (w_data (run_calls wal_ops [AppendEntriesCall [demo_entry], SyncCall] (wal_empty []))) = Inr s' \<and>
     d_entries (wal_view s') = [demo_entry]"
  using wal_reopens [OF OpenWAL_empty, of "[]" "[AppendEntriesCall [demo_entry], SyncCall]" "[]" "[]"] demo_succeeds(1) demo_view
  by (auto simp: only_short_def recoverable_call_def)

section \<open>Failed writes\<close>

lemma writeFull_error:
  "writeFull dat fl ws = (Some e, fl', ws') \<Longrightarrow> \<exists>k. fl' = fl @ take k dat"
proof (induction dat fl ws rule: writeFull.induct)
  case (1 dat fl ws)
  obtain n err ws1 where w: "file_write dat ws = ((n, err), ws1)" by (metis surj_pair)
  show ?case
  proof (cases "dat = [] \<or> err \<noteq> None \<or> n = 0")
    case True
    with 1(2) w show ?thesis by (auto simp: writeFull.simps [of dat] Let_def split: if_splits option.splits)
  next
    case False
    with 1(2) w have "writeFull (drop n dat) (fl @ take n dat) ws1 = (Some e, fl', ws')"
      by (simp add: writeFull.simps [of dat] Let_def)
    with False 1(1) [OF _ w [symmetric] refl refl] obtain k where "fl' = fl @ take n dat @ take k (drop n dat)" by auto
    then show ?thesis by (intro exI [of _ "n + k"]) (simp add: take_add)
  qed
qed

text \<open>C12.  A failed write is undone: when writing a record fails and the descriptor stands at the end of the
  file, the memory is unchanged; the storage stays open only if the file is back to what it was, and is
  closed otherwise, with at most a part of the record at the end of the file.  A full disk is reported as
  ErrWALDiskFull.\<close>

theorem failed_append_undone:
  assumes "appendRecord r s = (Some err, s')" and "w_offset s = length (w_data s)"
  shows "wal_view s' = wal_view s \<and>
    (w_open s' \<longrightarrow> w_data s' = w_data s \<and> w_offset s' = length (w_data s')) \<and>
    (\<exists>k. w_data s' = w_data s @ take k r) \<and>
    (\<exists>e fl ws. writeFull r (w_data s) (w_writes s) = (Some e, fl, ws) \<and> (errors_is e ENOSPC \<longrightarrow> errors_is err ErrWALDiskFull))"
proof -
  obtain o' fl ws where w': "writeFull r (w_data s) (w_writes s) = (o', fl, ws)" by (metis surj_pair)
  with assms(1) obtain e where w: "writeFull r (w_data s) (w_writes s) = (Some e, fl, ws)"
    by (cases o') (auto simp: appendRecord_def)
  from writeFull_error [OF w] obtain k where k: "fl = w_data s @ take k r" by blast
  show ?thesis
    using assms k
    by (auto simp: appendRecord_def w Let_def syscall_def wal_view_def split: option.splits list.splits if_splits)
qed

lemma demo_full_disk:
  "appendRecord ''ab'' (wal_empty [Wrote 1, WriteError 0 ENOSPC]) =
     (Some (Wrapf ''wal disk full'' [ErrWALDiskFull, ENOSPC]), wal_empty [])"
  by (simp add: appendRecord_def wal_empty_def writeFull.simps file_write_def syscall_def)

theorem failed_append_undone_witness:
  "w_data (wal_empty []) = w_data (wal_empty [Wrote 1, WriteError 0 ENOSPC]) \<and>
   errors_is (Wrapf ''wal disk full'' [ErrWALDiskFull, ENOSPC]) ErrWALDiskFull"
  using failed_append_undone [OF demo_full_disk] by (simp add: wal_empty_def)

text \<open>C13.  After a compaction a failed write empties the file: compaction reopens the file without seeking to its
  end, so the offset the next append remembers for its rollback is 0; if that write fails, the rollback
  truncates the whole file, although the storage stays open and keeps serving the state that is no longer
  on disk.  Reopening the file then gives the empty state.\<close>

theorem compaction_loses_log:
  assumes "wal_Compact sn s = (None, s1)" and "w_writes s1 = WriteError n err # ws" and "w_calls s1 = []"
    and "appendRecord r s1 = (res, s2)" and "r \<noteq> []"
  shows "res \<noteq> None \<and> w_open s2 \<and> wal_view s2 = wal_view s1 \<and> w_data s2 = [] \<and>
    (\<exists>s3. OpenWAL no_open_errors [] [] (w_data s2) = Inr s3 \<and> wal_view s3 = empty_disk)"
proof -
  have "w_open s1" "w_offset s1 = 0" by (rule wal_Compact_success [OF assms(1)], assumption)+
  with assms(2-5) have s2: "res \<noteq> None \<and> w_open s2 \<and> wal_view s2 = wal_view s1 \<and> w_data s2 = []"
    by (auto simp: appendRecord_def writeFull.simps [of r] file_write_def syscall_def wal_view_def)
  then show ?thesis using OpenWAL_complete [of "[]" empty_disk "[]" "[]"] by simp
qed

definition demo_snapshot :: snapshot where
  "demo_snapshot = \<lparr>LastIncludedIndex = 1, LastIncludedTerm = 1, SnapData = ''s''\<rparr>"

definition demo_before_compact :: wal_storage where
  "demo_before_compact = snd (wal_SaveSnapshot demo_snapshot (wal_empty [Wrote 1000, WriteError 0 ENOSPC]))"

lemma demo_snapshot_record: "\<exists>r. snapshot_record demo_snapshot = Inr r \<and> r \<noteq> [] \<and> length r \<le> 1000"
proof -
  have "length (json_print (snapshot_json demo_snapshot)) = 58" by code_simp
  then show ?thesis
    by (simp add: snapshot_record_def encodeSnapshotPayload_def Let_def maxRecordPayloadSize_def encodeRecord_def)
qed

lemma demo_records: "\<exists>a. encodeStateRecord zero_persistent_state = Inr a" "\<exists>c. encodeEntriesRecord [] = Inr c"
  by (simp_all add: encodeStateRecord_def encode_state_def encodeMembership_def encodeConfiguration_def zero_persistent_state_def
      put64_def put_len_def encodeRecord_def maxRecordPayloadSize_def Let_def encodeEntriesRecord_def)

lemma demo_compacts:
  "\<exists>s1. wal_Compact demo_snapshot demo_before_compact = (None, s1) \<and> w_writes s1 = [WriteError 0 ENOSPC] \<and> w_calls s1 = []"
proof -
  obtain r where r: "snapshot_record demo_snapshot = Inr r" "r \<noteq> []" "length r \<le> 1000" using demo_snapshot_record by blast
  obtain a c where ac: "encodeStateRecord zero_persistent_state = Inr a" "encodeEntriesRecord [] = Inr c" using demo_records by blast
  have b: "demo_before_compact = (wal_empty [WriteError 0 ENOSPC])\<lparr>w_data := r, w_offset := length r, w_snapshot := Some demo_snapshot\<rparr>"
    using r by (simp add: demo_before_compact_def wal_SaveSnapshot_def append_then_def appendRecord_def wal_empty_def
        writeFull.simps [of r] writeFull.simps [of "[]"] file_write_def Let_def)
  have i: "LastIncludedIndex demo_snapshot \<noteq> 0" by (simp add: demo_snapshot_def)
  show ?thesis unfolding b using r(1) ac i
    by (simp add: wal_Compact_def wal_empty_def attempt_def syscall_def compact_replace_def compact_reopen_def
        syncDirectory_def)
qed

theorem compaction_loses_log_witness:
  "\<exists>s1. wal_Compact demo_snapshot demo_before_compact = (None, s1) \<and> w_data (snd (appendRecord ''r'' s1)) = []"
proof -
  obtain s1 where s1: "wal_Compact demo_snapshot demo_before_compact = (None, s1)" "w_writes s1 = [WriteError 0 ENOSPC]"
    "w_calls s1 = []"
    using demo_compacts by blast
  with compaction_loses_log [OF s1 prod.collapse [symmetric], of "''r''"] show ?thesis by simp
qed

end
