(* ===== verification/Runtime.thy ===== *)
theory Runtime
  imports TLS_Config KV_Service Node_Servers Scheduler Worker WAL_Properties
begin

text \<open>
  The runtime of a node (\<^verbatim>\<open>cmd/raftiq/runtime.go\<close>): how the components are put together, started and shut down.  The
  background goroutines are not run here: starting one is recorded.
\<close>

section \<open>The state and what is outside\<close>

text \<open>
  The file system, the network and the certificates: \<open>en_disk\<close> gives for a path what opening and writing it answer and what the file
  holds, \<open>en_dial\<close> and \<open>en_close\<close> are those of \<open>gt_AddPeer\<close> and \<open>gt_Close\<close>, \<open>en_stop\<close> and \<open>en_http\<close> are how the gRPC and the HTTP servers stop.
\<close>

record 'cert process_env =
  en_tls :: "'cert tls_env"
  en_MkdirAll :: "string \<Rightarrow> go_error option"
  en_disk :: "string \<Rightarrow> open_errors \<times> write_outcome list \<times> go_error option list \<times> bytes"
  en_dial :: "string \<Rightarrow> string \<Rightarrow> go_error option"
  en_close :: "node_id \<Rightarrow> go_error option"
  en_listen :: "string \<Rightarrow> string result"
  en_stop :: "string \<Rightarrow> stop_race"
  en_http :: "string \<Rightarrow> go_error option"

text \<open>Once the node is there the storage is in it.  \<open>rt_background\<close> lists the goroutines that were started and not yet waited for.\<close>

record ('cert, 'w) runtime =
  rt_cfg :: config
  rt_tls :: "'cert node_tls option"
  rt_store :: "wal_storage option"
  rt_node :: "wal_storage raft_node option"
  rt_run :: run_state
  rt_server :: "server option"
  rt_applier :: "applier option"
  rt_serving :: bool
  rt_scheduler :: "scheduler option"
  rt_workers :: "'w worker list"
  rt_transport :: "grpc_transport option"
  rt_raftServer :: "transport_server option"
  rt_kvServer :: "transport_server option"
  rt_metricsServer :: "string option"
  rt_healthServer :: "run_state health_server option"
  rt_background :: "string list"
  rt_errors :: "go_error list"
  rt_shutdown :: bool

definition new_runtime :: "config \<Rightarrow> ('cert, 'w) runtime" where
  "new_runtime cfg = \<lparr>rt_cfg = cfg, rt_tls = None, rt_store = None, rt_node = None, rt_run = \<lparr>rs_running = False, rs_electionInFlight = False\<rparr>,
     rt_server = None, rt_applier = None, rt_serving = False, rt_scheduler = None, rt_workers = [], rt_transport = None, rt_raftServer = None,
     rt_kvServer = None, rt_metricsServer = None, rt_healthServer = None, rt_background = [], rt_errors = [], rt_shutdown = False\<rparr>"

type_synonym ('cert, 'w) init_step = "('cert, 'w) runtime \<Rightarrow> go_error option \<times> ('cert, 'w) runtime"

section \<open>Initialisation\<close>

text \<open>The steps run in the order of \<open>rt_initialize\<close>; the branches for a component that an earlier step has not built do not arise.\<close>

definition rt_initializeTLS :: "'cert process_env \<Rightarrow> ('cert, 'w) init_step" where
  "rt_initializeTLS en r =
     (case initializeTLS (en_tls en) (rt_cfg r) of Inl err \<Rightarrow> (Some err, r) | Inr t \<Rightarrow> (None, r\<lparr>rt_tls := Some t\<rparr>))"

definition wal_path :: "config \<Rightarrow> string" where
  "wal_path cfg = cfg_dataDir cfg @ ''/node-'' @ cfg_nodeID cfg @ ''.wal''"

definition initializeStorage :: "'cert process_env \<Rightarrow> ('cert, 'w) init_step" where
  "initializeStorage en r =
     (case en_MkdirAll en (cfg_dataDir (rt_cfg r)) of
        Some err \<Rightarrow> (Some (Wrapf ''create data directory'' [err]), r)
      | None \<Rightarrow>
        (case en_disk en (wal_path (rt_cfg r)) of (e, outs, calls, data) \<Rightarrow>
          (case OpenWAL e outs calls data of
             Inl err \<Rightarrow> (Some (Wrapf ''open WAL'' [err]), r)
           | Inr store \<Rightarrow> (None, r\<lparr>rt_store := Some store\<rparr>))))"

definition initializeRaft :: "('cert, 'w) init_step" where
  "initializeRaft r =
     (case rt_store r of
        None \<Rightarrow> (Some (Message ''storage is nil''), r)
      | Some store \<Rightarrow>
        (case NewRaftNodeWithStorage wal_ops (cfg_nodeID (rt_cfg r)) store of
           Inl err \<Rightarrow> (Some (Wrapf ''create Raft node'' [err]), r)
         | Inr n \<Rightarrow> (None, r\<lparr>rt_node := Some n\<rparr>)))"

definition initializeApplication :: "('cert, 'w) init_step" where
  "initializeApplication r =
     (case rt_node r of
        None \<Rightarrow> (None, r)
      | Some n \<Rightarrow>
        (case NewServer n NewStore of (srv, app, n') \<Rightarrow> (None, r\<lparr>rt_server := Some srv, rt_applier := Some app, rt_node := Some n'\<rparr>)))"

definition DefaultInterval :: int where "DefaultInterval = 100000000"
definition DefaultLease :: int where "DefaultLease = 30000000000"

definition initializeScheduler :: "('cert, 'w) init_step" where
  "initializeScheduler r =
     (case NewHashWorkerSelector (cfg_workers (rt_cfg r)) of
        Inl err \<Rightarrow> (Some (Wrapf ''create scheduler worker selector'' [err]), r)
      | Inr ids \<Rightarrow>
        (case NewScheduler (rt_node r) (map_option a_store (rt_applier r)) (rt_applier r) (Some (SelectWorker ids)) DefaultInterval DefaultLease of
           Inl err \<Rightarrow> (Some (Wrapf ''create scheduler'' [err]), r)
         | Inr sch \<Rightarrow> (None, r\<lparr>rt_scheduler := Some sch\<rparr>)))"

text \<open>The job handler of the program only logs.\<close>

fun add_workers :: "string list \<Rightarrow> ('cert, 'w) init_step" where
  "add_workers [] r = (None, r)"
| "add_workers (i # is) r =
     (case NewWorker i (Some (\<lambda>_ w. (None, w))) of
        Inl err \<Rightarrow> (Some (Wrapf ''create worker'' [err]), r)
      | Inr k \<Rightarrow>
        (case ConfigureLoop True DefaultInterval (rt_node r \<noteq> None) (rt_applier r \<noteq> None) k of
           (Some err, _) \<Rightarrow> (Some (Wrapf ''configure worker'' [err]), r)
         | (None, k') \<Rightarrow> add_workers is (r\<lparr>rt_workers := rt_workers r @ [k']\<rparr>)))"

definition initializeWorkers :: "('cert, 'w) init_step" where
  "initializeWorkers r = add_workers (cfg_workers (rt_cfg r)) (r\<lparr>rt_workers := []\<rparr>)"

text \<open>The peers that are dialled, in the order of the map; on an error the transport is closed and dropped.\<close>

fun dial_peers ::
  "(string \<Rightarrow> string \<Rightarrow> go_error option) \<Rightarrow> node_id \<Rightarrow> (node_id \<times> string) list \<Rightarrow> grpc_transport \<Rightarrow> go_error option \<times> node_id list \<times> grpc_transport" where
  "dial_peers dial self [] t = (None, [], t)"
| "dial_peers dial self ((i, address) # ps) t =
     (if i = self then dial_peers dial self ps t
      else case gt_AddPeer dial i address t of
        (Some err, t1) \<Rightarrow> (Some (Wrapf ''add Raft peer'' [err]), [], t1)
      | (None, t1) \<Rightarrow> (case dial_peers dial self ps t1 of (err, ids, t2) \<Rightarrow> (err, i # ids, t2)))"

definition initializeTransport :: "'cert process_env \<Rightarrow> ('cert, 'w) init_step" where
  "initializeTransport en r =
     (case SetTLSConfig (rt_tls r \<noteq> None) NewGRPCTransport of
        (Some err, _) \<Rightarrow> (Some (Wrapf ''configure Raft transport TLS'' [err]), r)
      | (None, t) \<Rightarrow>
        (case dial_peers (en_dial en) (cfg_nodeID (rt_cfg r)) (map_range (cfg_peers (rt_cfg r))) t of
           (Some err, _, _) \<Rightarrow> (Some err, r)
         | (None, peerIDs, t1) \<Rightarrow>
           (case rt_node r of
              None \<Rightarrow> (Some (Message ''node is nil''), r)
            | Some n \<Rightarrow>
              (case BootstrapMembership wal_ops (SetTransport n peerIDs) of
                 (Some err, n') \<Rightarrow> (Some (Wrapf ''bootstrap Raft membership'' [err]), r\<lparr>rt_node := Some n'\<rparr>)
               | (None, n') \<Rightarrow> (None, r\<lparr>rt_node := Some n', rt_transport := Some t1\<rparr>)))))"

definition initializeRaftGRPCServer :: "'cert process_env \<Rightarrow> ('cert, 'w) init_step" where
  "initializeRaftGRPCServer en r =
     (case transport_NewServer (en_listen en) (cfg_raftAddr (rt_cfg r)) of
        Inl err \<Rightarrow> (Some (Wrapf ''create Raft gRPC server'' [err]), r)
      | Inr srv \<Rightarrow>
          if rt_node r = None then (Some (Wrapf ''create Raft gRPC service'' [Message ''raft node is required'']), r)
          else case RegisterRaftService (rt_node r) (Some srv) of
            (Some err, _) \<Rightarrow> (Some (Wrapf ''register Raft gRPC service'' [err]), r)
          | (None, srv') \<Rightarrow> (None, r\<lparr>rt_raftServer := srv'\<rparr>))"

definition initializeKVGRPCServer :: "'cert process_env \<Rightarrow> ('cert, 'w) init_step" where
  "initializeKVGRPCServer en r =
     (case transport_NewServer (en_listen en) (cfg_kvAddr (rt_cfg r)) of
        Inl err \<Rightarrow> (Some (Wrapf ''create KV gRPC server'' [err]), r)
      | Inr srv \<Rightarrow>
          if rt_server r = None then (Some (Wrapf ''create KV gRPC service'' [Message ''kv store is required'']), r)
          else case RegisterKVService (rt_server r) (Some srv) of
            (Some err, _) \<Rightarrow> (Some (Wrapf ''register KV gRPC service'' [err]), r)
          | (None, srv') \<Rightarrow> (None, r\<lparr>rt_kvServer := srv'\<rparr>))"

definition initializeMetricsServer :: "'cert process_env \<Rightarrow> ('cert, 'w) init_step" where
  "initializeMetricsServer en r =
     (case NewMetricsServer (en_listen en) (cfg_metricsAddr (rt_cfg r)) True of
        Inl err \<Rightarrow> (Some (Wrapf ''create metrics server'' [err]), r)
      | Inr srv \<Rightarrow> (None, r\<lparr>rt_metricsServer := Some srv\<rparr>))"

definition initializeHealthServer :: "'cert process_env \<Rightarrow> ('cert, 'w) init_step" where
  "initializeHealthServer en r =
     (case NewHealthServer (en_listen en) (cfg_healthAddr (rt_cfg r)) of
        Inl err \<Rightarrow> (Some (Wrapf ''create health server'' [err]), r)
      | Inr srv \<Rightarrow>
        (case RegisterReadinessProbe ''raft'' (Some (RaftReadinessProbe Some)) (Some srv) of
           (Some err, _) \<Rightarrow> (Some (Wrapf ''register Raft readiness probe'' [err]), r)
         | (None, srv') \<Rightarrow> (None, r\<lparr>rt_healthServer := srv'\<rparr>)))"

fun run_steps :: "('cert, 'w) init_step list \<Rightarrow> ('cert, 'w) init_step" where
  "run_steps [] r = (None, r)"
| "run_steps (f # fs) r = (case f r of (Some err, r1) \<Rightarrow> (Some err, r1) | (None, r1) \<Rightarrow> run_steps fs r1)"

definition initializeServers :: "'cert process_env \<Rightarrow> ('cert, 'w) init_step" where
  "initializeServers en = run_steps
     [initializeRaftGRPCServer en, initializeKVGRPCServer en, initializeMetricsServer en, initializeHealthServer en]"

definition rt_initialize :: "'cert process_env \<Rightarrow> ('cert, 'w) init_step" where
  "rt_initialize en = run_steps
     [rt_initializeTLS en, initializeStorage en, initializeRaft, initializeApplication, initializeScheduler, initializeWorkers,
      initializeTransport en, initializeServers en]"

section \<open>Shutdown\<close>

text \<open>The outcomes of the calls, in order; an error is logged and the shutdown goes on.  It runs once.\<close>

definition shutdownServers :: "'cert process_env \<Rightarrow> ('cert, 'w) runtime \<Rightarrow> go_error option list" where
  "shutdownServers en r = [transport_Shutdown (Some (en_stop en ''raft'')) (rt_raftServer r), transport_Shutdown (Some (en_stop en ''kv'')) (rt_kvServer r)]"

definition shutdownApplication :: "('cert, 'w) runtime \<Rightarrow> ('cert, 'w) runtime" where
  "shutdownApplication r = r\<lparr>rt_serving := False\<rparr>"

definition shutdownNode :: "('cert, 'w) runtime \<Rightarrow> ('cert, 'w) runtime" where
  "shutdownNode r = (if rt_node r = None then r else r\<lparr>rt_run := node_Stop (rt_run r)\<rparr>)"

definition shutdownRuntimeServices :: "'cert process_env \<Rightarrow> ('cert, 'w) runtime \<Rightarrow> go_error option list" where
  "shutdownRuntimeServices en r =
     [health_Shutdown (en_http en ''health'') (rt_healthServer r), metrics_Shutdown True (en_http en ''metrics'') (rt_metricsServer r)]"

definition closeStorage :: "('cert, 'w) runtime \<Rightarrow> go_error option \<times> ('cert, 'w) runtime" where
  "closeStorage r =
     (case rt_node r of
        Some n \<Rightarrow> (case wal_Close (n_storage n) of (err, s) \<Rightarrow> (err, r\<lparr>rt_node := Some (n\<lparr>n_storage := s\<rparr>)\<rparr>))
      | None \<Rightarrow>
        (case rt_store r of
           None \<Rightarrow> (None, r)
         | Some s \<Rightarrow> (case wal_Close s of (err, s') \<Rightarrow> (err, r\<lparr>rt_store := Some s'\<rparr>))))"

definition shutdownPersistence :: "'cert process_env \<Rightarrow> ('cert, 'w) runtime \<Rightarrow> go_error option list \<times> ('cert, 'w) runtime" where
  "shutdownPersistence en r =
     (case (case rt_transport r of None \<Rightarrow> (None, r) | Some t \<Rightarrow> (case gt_Close (en_close en) t of (err, t') \<Rightarrow> (err, r\<lparr>rt_transport := Some t'\<rparr>))) of
        (err, r1) \<Rightarrow> (case closeStorage r1 of (err2, r2) \<Rightarrow> ([err, err2], r2)))"

definition rt_Shutdown :: "'cert process_env \<Rightarrow> ('cert, 'w) runtime \<Rightarrow> go_error option list \<times> ('cert, 'w) runtime" where
  "rt_Shutdown en r =
     (if rt_shutdown r then ([], r)
      else let r1 = r\<lparr>rt_shutdown := True, rt_background := []\<rparr>; r2 = shutdownNode (shutdownApplication r1)
           in (case shutdownPersistence en r2 of (errs, r3) \<Rightarrow> (shutdownServers en r1 @ shutdownRuntimeServices en r2 @ errs, r3)))"

definition newRuntime :: "'cert process_env \<Rightarrow> config \<Rightarrow> go_error option \<times> ('cert, 'w) runtime" where
  "newRuntime en cfg =
     (case rt_initialize en (new_runtime cfg) of
        (Some err, r) \<Rightarrow> (Some err, snd (rt_Shutdown en r))
      | (None, r) \<Rightarrow> (None, r))"

section \<open>Start\<close>

text \<open>The servers start to serve, the application restores its snapshot, the node starts to run, and the background goroutines start; after an error
  what had started is stopped again.\<close>

definition rt_Start :: "'cert process_env \<Rightarrow> bool \<Rightarrow> ('cert, 'w) init_step" where
  "rt_Start en hasContext r =
     (if \<not> hasContext then (Some (Message ''runtime context is required''), r)
      else case (rt_node r, rt_applier r) of
        (Some n, Some app) \<Rightarrow>
          (case server_Start wal_ops n app of
             (Some err, app1) \<Rightarrow> (Some (Wrapf ''start application server'' [err]), r\<lparr>rt_applier := Some app1\<rparr>)
           | (None, app1) \<Rightarrow>
             (case node_Start (rt_run r) of
                (Some err, rs) \<Rightarrow> (Some (Wrapf ''start Raft node'' [err]), r\<lparr>rt_applier := Some app1, rt_run := rs\<rparr>)
              | (None, rs) \<Rightarrow> (None, r\<lparr>rt_applier := Some app1, rt_run := rs, rt_serving := True,
                  rt_background := ''scheduler'' # map wk_id (rt_workers r)\<rparr>)))
      | _ \<Rightarrow> (Some (Message ''runtime is not initialised''), r))"

text \<open>\<^verbatim>\<open>reportError\<close>: the channel holds one error per worker and six more; what does not fit is only logged.\<close>

definition reportError :: "go_error option \<Rightarrow> ('cert, 'w) runtime \<Rightarrow> ('cert, 'w) runtime" where
  "reportError err r =
     (case err of
        None \<Rightarrow> r
      | Some e \<Rightarrow> if length (rt_errors r) < length (cfg_workers (rt_cfg r)) + 6 then r\<lparr>rt_errors := rt_errors r @ [e]\<rparr> else r)"

definition isShutdownError :: "go_error \<Rightarrow> bool" where
  "isShutdownError err \<longleftrightarrow> errors_is err ContextCanceled \<or> errors_is err DeadlineExceeded"

section \<open>Shutting down\<close>

lemma rt_Shutdown_once: "rt_Shutdown en (snd (rt_Shutdown en r)) = ([], snd (rt_Shutdown en r))"
proof -
  have "rt_shutdown (snd (rt_Shutdown en r))"
    by (simp add: rt_Shutdown_def shutdownPersistence_def closeStorage_def shutdownNode_def shutdownApplication_def Let_def split: prod.split option.split)
  then show ?thesis by (simp add: rt_Shutdown_def [of en "snd (rt_Shutdown en r)"])
qed

text \<open>Unless closing the file fails, the log is closed afterwards, and so is the transport.\<close>

lemma rt_Shutdown_closes:
  assumes "rt_Shutdown en r = (errs, r')" "\<not> rt_shutdown r" "rt_node r = Some n" "w_calls (n_storage n) = []"
  shows "(\<exists>n'. rt_node r' = Some n' \<and> \<not> w_open (n_storage n')) \<and> \<not> rs_running (rt_run r') \<and> rt_background r' = [] \<and>
    (case rt_transport r' of None \<Rightarrow> True | Some t \<Rightarrow> gt_closed t)"
  using assms
  by (auto simp: rt_Shutdown_def shutdownPersistence_def closeStorage_def shutdownNode_def shutdownApplication_def node_Stop_def wal_Close_def syscall_def
      gt_Close_def Let_def split: prod.splits option.splits if_splits)

section \<open>What a node that was built has\<close>

lemma run_steps_Cons: "run_steps (f # fs) r = (None, r') \<longleftrightarrow> (\<exists>r1. f r = (None, r1) \<and> run_steps fs r1 = (None, r'))"
  by (auto split: option.splits prod.splits)

lemma dial_peers_ok:
  "dial_peers dial self ps t = (None, ids, t') \<Longrightarrow>
     ids = filter (\<lambda>i. i \<noteq> self) (map fst ps) \<and> [] \<notin> set ids \<and>
     gt_peers t' = fold (\<lambda>(i, a). fmupd i a) (filter (\<lambda>p. fst p \<noteq> self) ps) (gt_peers t)"
proof (induction dial self ps t arbitrary: ids t' rule: dial_peers.induct)
  case (2 dial self i address ps t)
  show ?case
  proof (cases "i = self")
    case False
    with "2.prems" obtain t1 ids1 where s: "gt_AddPeer dial i address t = (None, t1)" "dial_peers dial self ps t1 = (None, ids1, t')" "ids = i # ids1"
      by (auto split: prod.splits option.splits)
    have "i \<noteq> []" using s(1) by (auto simp: gt_AddPeer_def)
    with "2.IH"(2) [OF False s(1) [symmetric] refl s(2)] gt_AddPeer_registers [OF s(1)] False s(3) show ?thesis by auto
  qed (use 2 in auto)
qed simp

lemma fold_fmupd_others:
  "fold (\<lambda>(i, a). fmupd i a) (filter (\<lambda>p. fst p \<noteq> self) (map_range m)) fmempty = fmdrop self m"
proof (rule fmap_ext)
  fix k
  let ?es = "filter (\<lambda>p. fst p \<noteq> self) (map_range m)"
  have d: "distinct (map fst ?es)" by (simp add: distinct_map_filter distinct_keys_map_range)
  have "map_of ?es k = Some a \<longleftrightarrow> k \<noteq> self \<and> fmlookup m k = Some a" for a
    using map_of_eq_Some_iff [OF d, of k a] by (auto simp: set_map_range)
  then have "map_of ?es k = (if k = self then None else fmlookup m k)" by (metis not_None_eq)
  then show "fmlookup (fold (\<lambda>(i, a). fmupd i a) ?es fmempty) k = fmlookup (fmdrop self m) k" by (simp add: fold_fmupd [OF d] split: option.split)
qed

lemma bootstrap_voters_set: "set (bootstrap_voters n) = insert (n_id n) (set (n_peerIDs n)) - {[]}" "distinct (bootstrap_voters n)"
proof -
  have "distinct vs \<Longrightarrow> set (foldl (\<lambda>voters i. if i = [] \<or> i \<in> set voters then voters else voters @ [i]) vs is) = set vs \<union> (set is - {[]}) \<and>
    distinct (foldl (\<lambda>voters i. if i = [] \<or> i \<in> set voters then voters else voters @ [i]) vs is)" for vs "is" :: "string list"
    by (induction "is" arbitrary: vs) auto
  from this [of "[]" "n_id n # n_peerIDs n"] show "set (bootstrap_voters n) = insert (n_id n) (set (n_peerIDs n)) - {[]}" "distinct (bootstrap_voters n)"
    unfolding bootstrap_voters_def by auto
qed

text \<open>The steps before the transport leave a node that the storage was loaded into, and the steps after it leave node and transport alone.\<close>

abbreviation same_node :: "('cert, 'w) runtime \<Rightarrow> ('cert, 'w) runtime \<Rightarrow> bool" where
  "same_node r r' \<equiv> rt_cfg r' = rt_cfg r \<and> rt_node r' = rt_node r \<and> rt_transport r' = rt_transport r"

lemma add_workers_keep: "add_workers is r = (None, r') \<Longrightarrow> same_node r r'"
proof (induction "is" arbitrary: r)
  case (Cons i "is")
  from Cons.prems obtain k where "add_workers is (r\<lparr>rt_workers := rt_workers r @ [k]\<rparr>) = (None, r')"
    by (auto split: sum.splits prod.splits option.splits)
  from Cons.IH [OF this] show ?case by simp
qed simp

lemma initializeScheduler_keep: "initializeScheduler r = (None, r') \<Longrightarrow> same_node r r'"
  by (auto simp: initializeScheduler_def split: sum.splits)

lemma servers_keep:
  "initializeRaftGRPCServer en r = (None, r') \<Longrightarrow> same_node r r'"
  "initializeKVGRPCServer en r = (None, r') \<Longrightarrow> same_node r r'"
  "initializeMetricsServer en r = (None, r') \<Longrightarrow> same_node r r'"
  "initializeHealthServer en r = (None, r') \<Longrightarrow> same_node r r'"
  by (auto simp: initializeRaftGRPCServer_def initializeKVGRPCServer_def initializeMetricsServer_def initializeHealthServer_def
      split: sum.splits prod.splits option.splits if_splits)

lemma initializeServers_keep:
  assumes "initializeServers en r = (None, r')" shows "same_node r r'"
proof -
  from assms obtain r1 r2 r3 where "initializeRaftGRPCServer en r = (None, r1)" "initializeKVGRPCServer en r1 = (None, r2)"
    "initializeMetricsServer en r2 = (None, r3)" "initializeHealthServer en r3 = (None, r')"
    unfolding initializeServers_def run_steps_Cons by auto
  from servers_keep(1) [OF this(1)] servers_keep(2) [OF this(2)] servers_keep(3) [OF this(3)] servers_keep(4) [OF this(4)]
  show ?thesis by simp
qed

lemma NewRaftNode_id:
  "NewRaftNodeWithStorage ops i store = Inr n \<Longrightarrow> n_id n = i \<and> n_storage n = store \<and> op_LoadState ops store = Inr (node_persistent n)"
  by (auto simp: NewRaftNodeWithStorage_def Let_def split: sum.splits prod.splits option.splits if_splits)

lemma before_transport:
  assumes "run_steps [rt_initializeTLS en, initializeStorage en, initializeRaft, initializeApplication, initializeScheduler, initializeWorkers] (new_runtime cfg) = (None, r)"
  shows "rt_cfg r = cfg \<and> (\<exists>store n e outs calls data. en_disk en (wal_path cfg) = (e, outs, calls, data) \<and> OpenWAL e outs calls data = Inr store \<and>
    NewRaftNodeWithStorage wal_ops (cfg_nodeID cfg) store = Inr n \<and> rt_node r = Some (SetSnapshotRestore n))"
proof -
  let ?r0 = "new_runtime cfg :: ('a, 'b) runtime"
  from assms obtain r1 r2 r3 r4 r5 where s: "rt_initializeTLS en ?r0 = (None, r1)" "initializeStorage en r1 = (None, r2)" "initializeRaft r2 = (None, r3)"
    "initializeApplication r3 = (None, r4)" "initializeScheduler r4 = (None, r5)" "initializeWorkers r5 = (None, r)"
    unfolding run_steps_Cons by auto
  have "rt_cfg r1 = cfg" using s(1) by (auto simp: rt_initializeTLS_def new_runtime_def split: sum.splits)
  moreover from s(2) obtain store e outs calls data where "en_disk en (wal_path (rt_cfg r1)) = (e, outs, calls, data)"
    "OpenWAL e outs calls data = Inr store" "r2 = r1\<lparr>rt_store := Some store\<rparr>"
    by (auto simp: initializeStorage_def split: sum.splits option.splits prod.splits)
  moreover from s(3) this(3) obtain n where "NewRaftNodeWithStorage wal_ops (cfg_nodeID (rt_cfg r1)) store = Inr n" "r3 = r2\<lparr>rt_node := Some n\<rparr>"
    by (auto simp: initializeRaft_def split: sum.splits)
  moreover from s(4) this(2) have "rt_node r4 = Some (SetSnapshotRestore n)" "rt_cfg r4 = rt_cfg r3" by (auto simp: initializeApplication_def NewServer_def)
  ultimately show ?thesis using initializeScheduler_keep [OF s(5)] add_workers_keep [OF s(6) [unfolded initializeWorkers_def]] by simp
qed

lemma initializeTransport_ok:
  assumes "initializeTransport en r = (None, r')" "rt_node r = Some n" "Voters (Current (node_membership n)) = []" "Joint (node_membership n) = None" "n_id n \<noteq> []"
  shows "\<exists>n' t. rt_node r' = Some n' \<and> rt_transport r' = Some t \<and> n_id n' = n_id n \<and>
    gt_peers t = fmdrop (cfg_nodeID (rt_cfg r)) (cfg_peers (rt_cfg r)) \<and> set (n_peerIDs n') = fmdom' (gt_peers t) \<and>
    distinct (Voters (Current (node_membership n'))) \<and> set (Voters (Current (node_membership n'))) = insert (n_id n) (fmdom' (gt_peers t)) \<and>
    Joint (node_membership n') = None"
proof -
  let ?self = "cfg_nodeID (rt_cfg r)" and ?ps = "map_range (cfg_peers (rt_cfg r))"
  from assms(1,2) obtain t0 ids t n' where s: "SetTLSConfig (rt_tls r \<noteq> None) NewGRPCTransport = (None, t0)"
    "dial_peers (en_dial en) ?self ?ps t0 = (None, ids, t)" "BootstrapMembership wal_ops (SetTransport n ids) = (None, n')"
    "rt_node r' = Some n'" "rt_transport r' = Some t"
    by (auto simp: initializeTransport_def split: prod.splits option.splits)
  have "gt_peers t0 = fmempty" using s(1) by (auto simp: SetTLSConfig_def NewGRPCTransport_def split: if_splits)
  with dial_peers_ok [OF s(2)] have t: "ids = filter (\<lambda>i. i \<noteq> ?self) (map fst ?ps)" "[] \<notin> set ids" "gt_peers t = fmdrop ?self (cfg_peers (rt_cfg r))"
    by (auto simp: fold_fmupd_others)
  have "set (map fst ?ps) = fmdom' (cfg_peers (rt_cfg r))" by (auto simp: set_map_range image_iff fmlookup_dom'_iff)
  then have ids: "set ids = fmdom' (gt_peers t)" by (auto simp: t(1,3))
  let ?n = "SetTransport n ids"
  have v: "set (bootstrap_voters ?n) = insert (n_id n) (set ids)" "distinct (bootstrap_voters ?n)"
    using bootstrap_voters_set [of ?n] assms(5) t(2) by (auto simp: SetTransport_def)
  then have "bootstrap_voters ?n \<noteq> []" by auto
  with s(3) assms(3,4) have "node_membership n' = \<lparr>Current = \<lparr>Voters = bootstrap_voters ?n\<rparr>, Joint = None\<rparr>" "n_id n' = n_id n" "n_peerIDs n' = ids"
    by (auto simp: BootstrapMembership_def persistStateLocked_def SetTransport_def Let_def split: prod.splits option.splits)
  with s(4,5) v ids t(3) show ?thesis by auto
qed

lemma run_steps_append: "run_steps (fs @ gs) r = (None, r') \<longleftrightarrow> (\<exists>r1. run_steps fs r = (None, r1) \<and> run_steps gs r1 = (None, r'))"
  by (induction fs arbitrary: r) (auto split: prod.splits option.splits)

lemma OpenWAL_new_file: "OpenWAL e outs calls [] = Inr s \<Longrightarrow> w_open s \<and> w_state s = zero_persistent_state"
  by (auto simp: OpenWAL_def wal_recover_def empty_disk_def bind_result_def wrap_error_def split: option.splits if_splits sum.splits prod.splits)

text \<open>C8.  A new cluster agrees on its members.  When a node with a new log file has been built from its command line, it has the node's
  identity; its transport reaches exactly the other peers of the \<^verbatim>\<open>-peers\<close> flag, each at the address given there, and replication
  goes to exactly those; and the membership it has bootstrapped is simple, without repetitions, and consists of the
  peers of the flag and the node itself.  So nodes started with the same flag, each of them in it, start with the same set of voters.\<close>

theorem cluster_bootstraps:
  assumes "newRuntime en cfg = (None, r)" "validateConfig cfg = None" "en_disk en (wal_path cfg) = (e, outs, calls, [])"
  shows "\<exists>n t. rt_node r = Some n \<and> rt_transport r = Some t \<and> n_id n = cfg_nodeID cfg \<and>
    gt_peers t = fmdrop (cfg_nodeID cfg) (cfg_peers cfg) \<and> set (n_peerIDs n) = fmdom' (gt_peers t) \<and>
    Joint (node_membership n) = None \<and> distinct (Voters (Current (node_membership n))) \<and>
    set (Voters (Current (node_membership n))) = insert (cfg_nodeID cfg) (fmdom' (cfg_peers cfg))"
proof -
  let ?first = "[rt_initializeTLS en, initializeStorage en, initializeRaft, initializeApplication, initializeScheduler, initializeWorkers]"
  have "rt_initialize en (new_runtime cfg) = (None, r)" using assms(1) by (auto simp: newRuntime_def split: prod.splits option.splits)
  then have "run_steps (?first @ [initializeTransport en, initializeServers en]) (new_runtime cfg) = (None, r)" by (simp only: rt_initialize_def append.simps)
  then obtain r1 r2 where s: "run_steps ?first (new_runtime cfg) = (None, r1)" "initializeTransport en r1 = (None, r2)" "initializeServers en r2 = (None, r)"
    unfolding run_steps_append run_steps_Cons by auto
  from before_transport [OF s(1)] assms(3) obtain store n where r1: "rt_cfg r1 = cfg" "OpenWAL e outs calls [] = Inr store"
    "NewRaftNodeWithStorage wal_ops (cfg_nodeID cfg) store = Inr n" "rt_node r1 = Some (SetSnapshotRestore n)" by auto
  have "op_LoadState wal_ops store = Inr zero_persistent_state" using OpenWAL_new_file [OF r1(2)] by (simp add: wal_ops_def wal_LoadState_def)
  with NewRaftNode_id [OF r1(3)] have n: "n_id n = cfg_nodeID cfg" "node_persistent n = zero_persistent_state" by simp_all
  have "cfg_nodeID cfg \<noteq> []" using assms(2) by (auto simp: validateConfig_ok dest: blank_Nil)
  from initializeTransport_ok [OF s(2) r1(4)] n this initializeServers_keep [OF s(3)] r1(1) show ?thesis
    by (auto simp: SetSnapshotRestore_def zero_persistent_state_def)
qed

definition demo_process :: "string process_env" where
  "demo_process = \<lparr>en_tls = demo_env, en_MkdirAll = (\<lambda>_. None), en_disk = (\<lambda>_. (no_open_errors, [], [], [])), en_dial = (\<lambda>_ _. None),
     en_close = (\<lambda>_. None), en_listen = (\<lambda>a. Inr a), en_stop = (\<lambda>_. StoppedGracefully), en_http = (\<lambda>_. None)\<rparr>"

lemma demo_peers: "map_range (cfg_peers demo_config) = [(''a'', ''h:1''), (''b'', ''h:2'')]"
  by code_simp

lemma demo_selector: "NewHashWorkerSelector (cfg_workers demo_config) = Inr [''w'']"
  by code_simp

lemma demo_wal: "en_disk demo_process p = (no_open_errors, [], [], [])" "OpenWAL no_open_errors [] [] [] = Inr (wal_empty [])"
  by (simp_all add: demo_process_def OpenWAL_empty)

definition demo_membership :: persistent_state where
  "demo_membership = zero_persistent_state\<lparr>Membership := \<lparr>Current = \<lparr>Voters = [''a'', ''b'']\<rparr>, Joint = None\<rparr>\<rparr>"

lemma demo_saves: "\<exists>s. wal_SaveState demo_membership (wal_empty []) = (None, s) \<and> w_open s \<and> w_calls s = []"
proof -
  have "\<exists>r. encodeStateRecord demo_membership = Inr r"
    by (simp add: demo_membership_def encodeStateRecord_def encode_state_def encodeMembership_def encodeConfiguration_def zero_persistent_state_def
        demo_evals bind_result_def wrap_error_def)
  then show ?thesis by (auto simp: wal_SaveState_def append_then_def appendRecord_ok wal_empty_def)
qed

lemma demo_config_simps [simp]: "cfg_nodeID demo_config = ''a''" "cfg_raftAddr demo_config = '':7000''" "cfg_kvAddr demo_config = '':8000''"
  "cfg_metricsAddr demo_config = '':9090''" "cfg_healthAddr demo_config = '':8080''" "cfg_workers demo_config = [''w'']"
  by (simp_all add: demo_config_def defaultConfig_def)

lemma demo_tls: "\<exists>t. initializeTLS demo_env demo_config = Inr t"
proof -
  have "allowedPeerSANs demo_config = {''b.raftiq''}" by (simp add: allowedPeerSANs_def demo_peers peerServerName_def)
  then show ?thesis using check_files_valid [OF demo_config_valid(1)]
    by (simp add: initializeTLS_def LoadTLSClientConfig_def LoadTLSServerConfig_def LoadTLSKVServerConfig_def demo_material)
qed

lemma demo_node: "\<exists>n. NewRaftNodeWithStorage wal_ops ''a'' (wal_empty []) = Inr n \<and> n_id n = ''a'' \<and> n_storage n = wal_empty [] \<and>
    node_persistent n = zero_persistent_state"
  by (simp add: NewRaftNodeWithStorage_def wal_ops_def wal_LoadState_def wal_LoadEntries_def wal_LoadSnapshot_def wal_empty_def zero_snapshot_def Let_def)

lemma demo_bootstrap:
  assumes "n_id n = ''a''" "n_storage n = wal_empty []" "node_persistent n = zero_persistent_state"
  shows "\<exists>n'. BootstrapMembership wal_ops (SetTransport (SetSnapshotRestore n) [''b'']) = (None, n')"
proof -
  let ?n = "SetTransport (SetSnapshotRestore n) [''b'']"
  from demo_saves obtain s where s: "wal_SaveState demo_membership (wal_empty []) = (None, s)" "w_open s" "w_calls s = []" by blast
  have "bootstrap_voters ?n = [''a'', ''b'']" using assms(1) by (simp add: bootstrap_voters_def SetTransport_def SetSnapshotRestore_def)
  moreover have "node_persistent ?n = zero_persistent_state" "n_storage ?n = wal_empty []" using assms(2,3) by (simp_all add: SetTransport_def SetSnapshotRestore_def)
  moreover have "zero_persistent_state\<lparr>Membership := \<lparr>Current = \<lparr>Voters = [''a'', ''b'']\<rparr>, Joint = None\<rparr>\<rparr> = demo_membership" by (simp add: demo_membership_def)
  ultimately show ?thesis using s
    by (simp add: BootstrapMembership_def persistStateLocked_def wal_ops_def wal_Sync_def syscall_def Let_def)
qed

lemma demo_outside: "en_tls demo_process = demo_env" "en_MkdirAll demo_process p = None" "en_dial demo_process = (\<lambda>_ _. None)"
  "en_listen demo_process = Inr"
  by (simp_all add: demo_process_def fun_eq_iff)

definition before_steps :: "(string, unit) init_step list" where
  "before_steps = [rt_initializeTLS demo_process, initializeStorage demo_process, initializeRaft, initializeApplication, initializeScheduler, initializeWorkers]"

lemma demo_before:
  assumes "NewRaftNodeWithStorage wal_ops ''a'' (wal_empty []) = Inr n"
  shows "\<exists>r. run_steps before_steps (new_runtime demo_config) = (None, r) \<and> rt_cfg r = demo_config \<and> rt_tls r \<noteq> None \<and>
    rt_node r = Some (SetSnapshotRestore n) \<and> rt_server r \<noteq> None"
proof -
  obtain t where "initializeTLS demo_env demo_config = Inr t" using demo_tls by blast
  then show ?thesis using demo_selector assms
    by (simp add: before_steps_def rt_initializeTLS_def initializeStorage_def initializeRaft_def initializeApplication_def initializeScheduler_def
        initializeWorkers_def new_runtime_def demo_outside demo_wal NewServer_def NewScheduler_def NewWorker_def ConfigureLoop_def DefaultInterval_def DefaultLease_def)
qed

lemma demo_dials:
  "dial_peers (\<lambda>_ _. None) ''a'' [(''a'', ''h:1''), (''b'', ''h:2'')] (NewGRPCTransport\<lparr>gt_tls := True\<rparr>) =
    (None, [''b''], NewGRPCTransport\<lparr>gt_tls := True, gt_peers := fmupd ''b'' ''h:2'' fmempty\<rparr>)"
  by (simp add: gt_AddPeer_def NewGRPCTransport_def)

lemma demo_transport_set:
  assumes "rt_cfg r = demo_config" "rt_tls r \<noteq> None" "rt_node r = Some n" "BootstrapMembership wal_ops (SetTransport n [''b'']) = (None, n')"
  shows "\<exists>t. initializeTransport demo_process r = (None, r\<lparr>rt_node := Some n', rt_transport := Some t\<rparr>)"
proof -
  have "SetTLSConfig (rt_tls r \<noteq> None) NewGRPCTransport = (None, NewGRPCTransport\<lparr>gt_tls := True\<rparr>)"
    using assms(2) by (simp add: SetTLSConfig_def NewGRPCTransport_def)
  with assms have "initializeTransport demo_process r =
      (None, r\<lparr>rt_node := Some n', rt_transport := Some (NewGRPCTransport\<lparr>gt_tls := True, gt_peers := fmupd ''b'' ''h:2'' fmempty\<rparr>)\<rparr>)"
    by (simp add: initializeTransport_def demo_outside demo_peers demo_dials del: dial_peers.simps)
  then show ?thesis by (rule exI)
qed

lemma demo_servers:
  assumes "rt_cfg r = demo_config" "rt_node r \<noteq> None" "rt_server r \<noteq> None"
  shows "\<exists>r'. initializeServers demo_process r = (None, r')"
  using assms
  by (auto simp: initializeServers_def initializeRaftGRPCServer_def initializeKVGRPCServer_def initializeMetricsServer_def initializeHealthServer_def
      transport_NewServer_def RegisterRaftService_def RegisterKVService_def NewMetricsServer_def NewHealthServer_def RegisterReadinessProbe_def demo_outside)

lemma demo_process_starts: "\<exists>r. newRuntime demo_process demo_config = (None, r :: (string, unit) runtime)"
proof -
  obtain n where n: "NewRaftNodeWithStorage wal_ops ''a'' (wal_empty []) = Inr n" "n_id n = ''a''" "n_storage n = wal_empty []"
    "node_persistent n = zero_persistent_state" using demo_node by blast
  obtain n' where b: "BootstrapMembership wal_ops (SetTransport (SetSnapshotRestore n) [''b'']) = (None, n')" using demo_bootstrap [OF n(2-4)] by blast
  obtain r where r: "run_steps before_steps (new_runtime demo_config) = (None, r)" "rt_cfg r = demo_config" "rt_tls r \<noteq> None"
    "rt_node r = Some (SetSnapshotRestore n)" "rt_server r \<noteq> None" using demo_before [OF n(1)] by blast
  obtain t where t: "initializeTransport demo_process r = (None, r\<lparr>rt_node := Some n', rt_transport := Some t\<rparr>)"
    using demo_transport_set [OF r(2-4) b] by blast
  obtain r' where "initializeServers demo_process (r\<lparr>rt_node := Some n', rt_transport := Some t\<rparr>) = (None, r')"
    using demo_servers [of "r\<lparr>rt_node := Some n', rt_transport := Some t\<rparr>"] r(2,5) by auto
  with t have "run_steps [initializeTransport demo_process, initializeServers demo_process] r = (None, r')" by simp
  with r(1) have "run_steps (before_steps @ [initializeTransport demo_process, initializeServers demo_process]) (new_runtime demo_config) = (None, r')"
    unfolding run_steps_append by blast
  then show ?thesis by (simp add: newRuntime_def rt_initialize_def before_steps_def del: run_steps.simps)
qed

theorem cluster_bootstraps_witness:
  "\<exists>r n t. newRuntime demo_process demo_config = (None, r :: (string, unit) runtime) \<and> rt_node r = Some n \<and> rt_transport r = Some t \<and>
     n_id n = ''a'' \<and> set (n_peerIDs n) = {''b''} \<and> set (Voters (Current (node_membership n))) = {''a'', ''b''}"
proof -
  obtain r :: "(string, unit) runtime" where r: "newRuntime demo_process demo_config = (None, r)" using demo_process_starts by blast
  have dom: "fmdom' (cfg_peers demo_config) = {''a'', ''b''}" by (simp add: demo_config_def)
  from cluster_bootstraps [OF r demo_config_valid(1) demo_wal(1)] obtain n t where n: "rt_node r = Some n" "rt_transport r = Some t"
    "n_id n = ''a''" "gt_peers t = fmdrop ''a'' (cfg_peers demo_config)" "set (n_peerIDs n) = fmdom' (gt_peers t)"
    "set (Voters (Current (node_membership n))) = insert ''a'' (fmdom' (cfg_peers demo_config))" unfolding demo_config_simps(1) by blast
  have "set (n_peerIDs n) = {''b''}" "set (Voters (Current (node_membership n))) = {''a'', ''b''}" unfolding n(4-6) by (simp_all add: dom)
  with r n(1-3) show ?thesis by blast
qed

end
