(* ===== verification/Raft_Votes.thy ===== *)
theory Raft_Votes
  imports Raft_Snapshot
begin

text \<open>
  What every section of the node keeps of its vote: the persistent state only moves forward in
  \<open>vote_le\<close>, in memory and on disk, and a candidate or leader keeps its term and its votes until it
  steps down.  The lemmas are proved once for every storage that meets the contract.
\<close>

section \<open>The order of persistent states\<close>

definition vote_le :: "persistent_state \<Rightarrow> persistent_state \<Rightarrow> bool" where
  "vote_le p q \<longleftrightarrow> CurrentTerm p < CurrentTerm q \<or>
     CurrentTerm p = CurrentTerm q \<and> (VotedFor p = [] \<or> VotedFor p = VotedFor q)"

definition promised :: "persistent_state \<Rightarrow> raft_term \<Rightarrow> node_id \<Rightarrow> bool" where
  "promised p t x \<longleftrightarrow> t < CurrentTerm p \<or> t = CurrentTerm p \<and> VotedFor p = x"

lemma vote_le_refl [simp, intro]: "vote_le p p"
  by (simp add: vote_le_def)

lemma vote_le_trans: "vote_le p q \<Longrightarrow> vote_le q r \<Longrightarrow> vote_le p r"
  by (auto simp: vote_le_def)

lemma promised_mono: "promised p t x \<Longrightarrow> vote_le p q \<Longrightarrow> x \<noteq> [] \<Longrightarrow> promised q t x"
  by (auto simp: promised_def vote_le_def)

lemma promised_unique: "promised p t x \<Longrightarrow> promised p t y \<Longrightarrow> t = CurrentTerm p \<Longrightarrow> x = y"
  by (auto simp: promised_def)

section \<open>Moves of a node\<close>

text \<open>
  \<open>disk_ok\<close> bounds what a storage step may add to the durable states (\<open>Q\<close>) and to the durable log
  entries (\<open>X\<close>); \<open>node_move\<close> does the same for a step of a node.
\<close>

definition disk_entries :: "('s \<Rightarrow> disk set) \<Rightarrow> 's \<Rightarrow> log_entry set" where
  "disk_entries durable s = (\<Union>d \<in> durable s. set (d_entries d))"

definition disk_ok ::
  "('s \<Rightarrow> disk set) \<Rightarrow> ('s \<Rightarrow> bool) \<Rightarrow> persistent_state set \<Rightarrow> log_entry set \<Rightarrow> 's \<Rightarrow> 's \<Rightarrow> bool" where
  "disk_ok durable sinv Q X s s' \<longleftrightarrow> sinv s' \<and> d_state ` durable s' \<subseteq> d_state ` durable s \<union> Q \<and>
     disk_entries durable s' \<subseteq> disk_entries durable s \<union> X"

definition node_move ::
  "('s \<Rightarrow> disk set) \<Rightarrow> ('s \<Rightarrow> bool) \<Rightarrow> log_entry set \<Rightarrow> 's raft_node \<Rightarrow> 's raft_node \<Rightarrow> bool" where
  "node_move durable sinv X n n' \<longleftrightarrow> n_id n' = n_id n \<and> n_peerIDs n' = n_peerIDs n \<and> vote_le (node_persistent n) (node_persistent n') \<and>
     node_membership n' = node_membership n \<and>
     set (log_entries (n_log n')) \<subseteq> set (log_entries (n_log n)) \<union> X \<and>
     disk_ok durable sinv {q. vote_le (node_persistent n) q \<and> Membership q = node_membership n} X
       (n_storage n) (n_storage n')"

definition keeps_votes :: "'s raft_node \<Rightarrow> 's raft_node \<Rightarrow> bool" where
  "keeps_votes n n' \<longleftrightarrow> (node_role n' \<noteq> Follower \<longrightarrow> node_role n' = node_role n \<and>
     node_term n' = node_term n \<and> Election (n_state n') = Election (n_state n))"

definition quiet ::
  "('s \<Rightarrow> disk set) \<Rightarrow> ('s \<Rightarrow> bool) \<Rightarrow> log_entry set \<Rightarrow> 's raft_node \<Rightarrow> 's raft_node \<Rightarrow> bool" where
  "quiet durable sinv X n n' \<longleftrightarrow> node_move durable sinv X n n' \<and> keeps_votes n n'"

lemma disk_ok_trans:
  "disk_ok durable sinv Q X s s' \<Longrightarrow> disk_ok durable sinv Q X s' s'' \<Longrightarrow> disk_ok durable sinv Q X s s''"
  unfolding disk_ok_def by blast

lemma disk_ok_mono:
  "disk_ok durable sinv Q X s s' \<Longrightarrow> Q \<subseteq> Q' \<Longrightarrow> X \<subseteq> X' \<Longrightarrow> disk_ok durable sinv Q' X' s s'"
  unfolding disk_ok_def by blast

lemma node_move_trans:
  assumes "node_move durable sinv X n n'" "node_move durable sinv X n' n''"
  shows "node_move durable sinv X n n''"
proof -
  have "disk_ok durable sinv {q. vote_le (node_persistent n) q \<and> Membership q = node_membership n} X
      (n_storage n') (n_storage n'')"
    using assms by (auto simp: node_move_def intro: vote_le_trans elim!: disk_ok_mono)
  from disk_ok_trans [OF _ this] assms
  have "disk_ok durable sinv {q. vote_le (node_persistent n) q \<and> Membership q = node_membership n} X
      (n_storage n) (n_storage n'')" by (simp add: node_move_def)
  moreover have "vote_le (node_persistent n) (node_persistent n'')"
    using assms vote_le_trans unfolding node_move_def by blast
  moreover have "set (log_entries (n_log n'')) \<subseteq> set (log_entries (n_log n)) \<union> X"
    using assms unfolding node_move_def by blast
  ultimately show ?thesis using assms by (simp add: node_move_def)
qed

lemma node_move_mono:
  assumes "node_move durable sinv X n n'" "X \<subseteq> Y"
  shows "node_move durable sinv Y n n'"
  using assms(1) disk_ok_mono [OF _ order_refl assms(2)] assms(2) unfolding node_move_def by fast

lemma quiet_mono: "quiet durable sinv X n n' \<Longrightarrow> X \<subseteq> Y \<Longrightarrow> quiet durable sinv Y n n'"
  unfolding quiet_def using node_move_mono by blast

lemma quiet_trans: "quiet durable sinv X n n' \<Longrightarrow> quiet durable sinv X n' n'' \<Longrightarrow> quiet durable sinv X n n''"
  unfolding quiet_def keeps_votes_def using node_move_trans by fastforce

lemma quiet_sinv: "quiet durable sinv X n n' \<Longrightarrow> sinv (n_storage n')"
  by (simp add: quiet_def node_move_def disk_ok_def)

lemma quietI:
  assumes "n_id n' = n_id n" "n_peerIDs n' = n_peerIDs n" "node_persistent n' = node_persistent n"
    and "set (log_entries (n_log n')) \<subseteq> set (log_entries (n_log n)) \<union> X"
    and "disk_ok durable sinv {} X (n_storage n) (n_storage n')"
    and "node_role n' \<noteq> Follower \<Longrightarrow> node_role n' = node_role n \<and> Election (n_state n') = Election (n_state n)"
  shows "quiet durable sinv X n n'"
  using assms by (auto simp: quiet_def node_move_def keeps_votes_def elim!: disk_ok_mono)

section \<open>What the log operations keep of the entries\<close>

lemma log_append_all_entries: "log_append_all l es = (r, l') \<Longrightarrow>
    set (log_entries l') \<subseteq> set (log_entries l) \<union> set es"
  by (induction es arbitrary: l) (fastforce simp: log_Append_def Let_def split: sum.splits if_splits)+

lemma TruncateFrom_entries: "set (log_entries (TruncateFrom l i)) \<subseteq> set (log_entries l)"
  by (auto simp: TruncateFrom_def dest: set_takeWhileD)

lemma log_Compact_entries: "log_Compact l sn = Inr l' \<Longrightarrow> set (log_entries l') \<subseteq> set (log_entries l)"
  by (erule log_Compact_cases) auto

lemma log_RestoreSnapshot_entries:
  "log_RestoreSnapshot l sn = Inr l' \<Longrightarrow> set (log_entries l') \<subseteq> set (log_entries l)"
  by (auto simp: log_RestoreSnapshot_def Let_def split: if_splits)

lemma first_new_entries: "first_new l es = Some (i, es') \<Longrightarrow> set es' \<subseteq> set es"
  by (induction es) (auto split: option.splits if_splits)

section \<open>What role and commit changes leave alone\<close>

lemma becomeLeaderLocked_frame [simp]:
  "n_id (becomeLeaderLocked n) = n_id n" "n_storage (becomeLeaderLocked n) = n_storage n"
  "node_persistent (becomeLeaderLocked n) = node_persistent n"
  "Election (n_state (becomeLeaderLocked n)) = Election (n_state n)"
  "node_role (becomeLeaderLocked n) = Leader" "n_log (becomeLeaderLocked n) = n_log n"
  "Volatile (n_state (becomeLeaderLocked n)) = Volatile (n_state n)"
  "n_peerIDs (becomeLeaderLocked n) = n_peerIDs n"
proof -
  have "n_id (fold initializeReplicationStateLocked ps m) = n_id m \<and>
    n_storage (fold initializeReplicationStateLocked ps m) = n_storage m \<and>
    node_persistent (fold initializeReplicationStateLocked ps m) = node_persistent m \<and>
    Election (n_state (fold initializeReplicationStateLocked ps m)) = Election (n_state m) \<and>
    node_role (fold initializeReplicationStateLocked ps m) = node_role m \<and>
    n_log (fold initializeReplicationStateLocked ps m) = n_log m \<and>
    Volatile (n_state (fold initializeReplicationStateLocked ps m)) = Volatile (n_state m) \<and>
    n_peerIDs (fold initializeReplicationStateLocked ps m) = n_peerIDs m" for ps and m :: "'a raft_node"
    by (induction ps arbitrary: m) (auto simp: initializeReplicationStateLocked_def)
  then show "n_id (becomeLeaderLocked n) = n_id n" "n_storage (becomeLeaderLocked n) = n_storage n"
  "node_persistent (becomeLeaderLocked n) = node_persistent n"
  "Election (n_state (becomeLeaderLocked n)) = Election (n_state n)"
  "node_role (becomeLeaderLocked n) = Leader" "n_log (becomeLeaderLocked n) = n_log n"
  "Volatile (n_state (becomeLeaderLocked n)) = Volatile (n_state n)"
  "n_peerIDs (becomeLeaderLocked n) = n_peerIDs n"
    by (simp_all add: becomeLeaderLocked_def)
qed

lemma set_commit_frame [simp]:
  "n_id (set_commit i n) = n_id n" "n_storage (set_commit i n) = n_storage n" "n_log (set_commit i n) = n_log n"
  "node_persistent (set_commit i n) = node_persistent n" "node_role (set_commit i n) = node_role n"
  "Election (n_state (set_commit i n)) = Election (n_state n)" "node_commit (set_commit i n) = i"
  "LeaderProgress (n_state (set_commit i n)) = LeaderProgress (n_state n)"
  "n_peerIDs (set_commit i n) = n_peerIDs n" "node_applied (set_commit i n) = node_applied n"
  by (simp_all add: set_commit_def)

lemma fold_commit_frame [simp]:
  "n_id (fold commit_step is n) = n_id n" "n_storage (fold commit_step is n) = n_storage n"
  "n_log (fold commit_step is n) = n_log n" "node_persistent (fold commit_step is n) = node_persistent n"
  "node_role (fold commit_step is n) = node_role n" "node_applied (fold commit_step is n) = node_applied n"
  "Election (n_state (fold commit_step is n)) = Election (n_state n)"
  "LeaderProgress (n_state (fold commit_step is n)) = LeaderProgress (n_state n)"
  "n_peerIDs (fold commit_step is n) = n_peerIDs n"
  by (induction "is" arbitrary: n) (simp_all add: commit_step_def)

lemma advanceCommit_frame [simp]:
  "n_id (snd (advanceCommitIndexLocked n)) = n_id n"
  "n_peerIDs (snd (advanceCommitIndexLocked n)) = n_peerIDs n"
  "n_storage (snd (advanceCommitIndexLocked n)) = n_storage n"
  "n_log (snd (advanceCommitIndexLocked n)) = n_log n"
  "node_persistent (snd (advanceCommitIndexLocked n)) = node_persistent n"
  "node_role (snd (advanceCommitIndexLocked n)) = node_role n"
  "node_applied (snd (advanceCommitIndexLocked n)) = node_applied n"
  "Election (n_state (snd (advanceCommitIndexLocked n))) = Election (n_state n)"
  "LeaderProgress (n_state (snd (advanceCommitIndexLocked n))) = LeaderProgress (n_state n)"
  by (simp_all add: advanceCommitIndexLocked_def Let_def)

section \<open>Disk and node moves under the contract\<close>

text \<open>The entry a leader appends for a proposal.\<close>

definition proposed_entry :: "bytes \<Rightarrow> 's raft_node \<Rightarrow> log_entry" where
  "proposed_entry data n = \<lparr>Index = inc64 (LastIndex (n_log n)), Term = node_term n, Data = data\<rparr>"

context raft_storage
begin

abbreviation qt :: "log_entry set \<Rightarrow> 's raft_node \<Rightarrow> 's raft_node \<Rightarrow> bool" where
  "qt \<equiv> quiet durable sinv"
abbreviation dok :: "persistent_state set \<Rightarrow> log_entry set \<Rightarrow> 's \<Rightarrow> 's \<Rightarrow> bool" where
  "dok \<equiv> disk_ok durable sinv"

lemma dok_refl: "sinv s \<Longrightarrow> dok {} X s s"
  by (simp add: disk_ok_def)

lemma qt_refl: "sinv (n_storage n) \<Longrightarrow> qt X n n"
  by (simp add: quietI dok_refl)

lemma dok_writes:
  assumes "sinv s" "sinv (snd rs)" "writes view durable s d rs" "d_state d = d_state (view s)"
    and "set (d_entries d) \<subseteq> set (d_entries (view s)) \<union> X"
  shows "dok {} X s (snd rs)"
proof -
  have "d_state d \<in> d_state ` durable s" using assms(4) view_durable [OF assms(1)] by auto
  moreover have "set (d_entries d) \<subseteq> disk_entries durable s \<union> X"
    using assms(5) view_durable [OF assms(1)] by (auto simp: disk_entries_def)
  ultimately show ?thesis using assms(2,3) by (auto simp: disk_ok_def writes_def disk_entries_def)
qed

lemma dok_AppendEntries: "sinv s \<Longrightarrow> op_AppendEntries ops es s = (r, s') \<Longrightarrow> dok {} (set es) s s'"
  using dok_writes [of s "(r, s')"] AppendEntries [of s es] by force

lemma dok_ReplaceSuffix: "sinv s \<Longrightarrow> op_ReplaceSuffix ops i es s = (r, s') \<Longrightarrow> dok {} (set es) s s'"
proof -
  assume s: "sinv s" "op_ReplaceSuffix ops i es s = (r, s')"
  have "set (replaceSuffixCopy (d_entries (view s)) i es) \<subseteq> set (d_entries (view s)) \<union> set es"
    by (auto simp: replaceSuffixCopy_def appendEntriesCopy_def dest: set_takeWhileD)
  with s ReplaceSuffix [OF s(1), of i es] dok_writes [OF s(1), of "(r, s')"] show ?thesis by force
qed

lemma dok_SaveSnapshot: "sinv s \<Longrightarrow> op_SaveSnapshot ops sn s = (r, s') \<Longrightarrow> dok {} X s s'"
  using dok_writes [of s "(r, s')"] SaveSnapshot [of s sn] by force

lemma dok_Compact: "sinv s \<Longrightarrow> op_Compact ops sn s = (r, s') \<Longrightarrow> dok {} X s s'"
proof -
  assume "sinv s" "op_Compact ops sn s = (r, s')"
  with Compact [of s sn] obtain sn' where "sinv s'"
    "writes view durable s (compacted sn ((view s)\<lparr>d_snapshot := sn'\<rparr>)) (r, s')" by auto
  with dok_writes [OF \<open>sinv s\<close>, of "(r, s')" _ X] show ?thesis by (force simp: compacted_def)
qed

lemma dok_Sync: "sinv s \<Longrightarrow> op_Sync ops s = (r, s') \<Longrightarrow> dok {} X s s'"
  using Sync [of s] view_durable [of s] by (auto simp: disk_ok_def disk_entries_def split: if_splits)

lemma dok_persist: "sinv s \<Longrightarrow> persist ops p s = (r, s') \<Longrightarrow> dok {p} X s s'"
  using persist_spec(1,2) [of s p r s'] view_durable [of s] by (force simp: disk_ok_def disk_entries_def)

lemma dok_sinv: "dok Q X s s' \<Longrightarrow> sinv s'"
  by (simp add: disk_ok_def)

text \<open>Publishing a persistent state that is on disk, or failing to put it there.\<close>

lemma move_persist:
  assumes "sinv (n_storage n)" "persist ops p (n_storage n) = (r, s)"
    and "vote_le (node_persistent n) p" "Membership p = node_membership n"
    and "n_id n' = n_id n" "n_peerIDs n' = n_peerIDs n" "n_log n' = n_log n" "n_storage n' = s"
    and "node_persistent n' = p \<or> node_persistent n' = node_persistent n"
  shows "node_move durable sinv X n n'"
  using dok_persist [OF assms(1,2), of X] assms(3-) by (auto simp: node_move_def elim!: disk_ok_mono)

lemma quiet_persist:
  assumes "sinv (n_storage n)" "persist ops p (n_storage n) = (r, s)"
    and "vote_le (node_persistent n) p" "Membership p = node_membership n"
    and "n_id n' = n_id n" "n_peerIDs n' = n_peerIDs n" "n_log n' = n_log n" "n_storage n' = s"
    and "node_persistent n' = p \<or> node_persistent n' = node_persistent n" "keeps_votes n n'"
  shows "qt X n n'"
  using move_persist [OF assms(1-9)] assms(10) by (simp add: quiet_def)

lemma move_refl: "sinv (n_storage n) \<Longrightarrow> node_move durable sinv X n n"
  using qt_refl [of n X] by (simp add: quiet_def)

lemma adopt_term_quiet:
  assumes "sinv (n_storage n)" "node_term n < t" "adopt_term ops t n = (b, n')"
  shows "qt X n n'" "b \<Longrightarrow> node_term n' = t \<and> node_role n' = Follower"
proof -
  let ?p = "(node_persistent n)\<lparr>CurrentTerm := t, VotedFor := []\<rparr>"
  obtain r s where p: "persist ops ?p (n_storage n) = (r, s)" by fastforce
  show "qt X n n'"
    by (rule quiet_persist [OF assms(1) p])
      (use assms(2,3) p in \<open>auto simp: adopt_term_def vote_le_def keeps_votes_def split: option.splits\<close>)
  show "b \<Longrightarrow> node_term n' = t \<and> node_role n' = Follower"
    using assms(3) p by (auto simp: adopt_term_def split: option.splits)
qed

section \<open>Votes\<close>

lemma grant_vote_quiet:
  assumes "sinv (n_storage n)" "grant_vote ops args n = (reply, n')"
  shows "qt {} n n'" "rvr_VoteGranted reply \<Longrightarrow> rvr_Term reply = node_term n \<and> rvr_VoterID reply = n_id n \<and>
    membershipIsVoter (node_membership n) (rv_CandidateID args) \<and>
    node_persistent n' = (node_persistent n)\<lparr>VotedFor := rv_CandidateID args\<rparr> \<and>
    (\<forall>d \<in> durable (n_storage n'). d_state d = node_persistent n')"
proof -
  let ?p = "(node_persistent n)\<lparr>VotedFor := rv_CandidateID args\<rparr>"
  obtain r s where p: "persist ops ?p (n_storage n) = (r, s)" by fastforce
  let ?yes = "membershipIsVoter (node_membership n) (rv_CandidateID args) \<and>
    (VotedFor (node_persistent n) = [] \<or> VotedFor (node_persistent n) = rv_CandidateID args) \<and>
    isCandidateLogUpToDate n (rv_LastLogIndex args) (rv_LastLogTerm args)"
  show "qt {} n n'"
  proof (cases ?yes)
    case True
    show ?thesis
      by (rule quiet_persist [OF assms(1) p])
        (use True assms(2) p in \<open>auto simp: grant_vote_def vote_le_def keeps_votes_def Let_def split: option.splits\<close>)
  next
    case False
    with assms(2) have "n' = n" by (auto simp: grant_vote_def Let_def split: if_splits)
    with assms(1) show ?thesis by (auto intro: qt_refl)
  qed
  assume granted: "rvr_VoteGranted reply"
  then have yes: ?yes and "r = None" using assms(2) p
    by (auto simp: grant_vote_def Let_def split: if_splits option.splits)
  with granted assms(2) p persist_spec(3) [OF assms(1) p]
  show "rvr_Term reply = node_term n \<and> rvr_VoterID reply = n_id n \<and>
    membershipIsVoter (node_membership n) (rv_CandidateID args) \<and>
    node_persistent n' = (node_persistent n)\<lparr>VotedFor := rv_CandidateID args\<rparr> \<and>
    (\<forall>d \<in> durable (n_storage n'). d_state d = node_persistent n')"
    by (auto simp: grant_vote_def Let_def split: if_splits)
qed

lemma RequestVote_quiet:
  assumes "sinv (n_storage n)" "RequestVote ops args n = (reply, n')"
  shows "qt {} n n'" "rvr_VoteGranted reply \<Longrightarrow> rvr_Term reply = rv_Term args \<and> rvr_VoterID reply = n_id n \<and>
    rv_CandidateID args \<noteq> [] \<and> node_term n' = rv_Term args \<and>
    VotedFor (node_persistent n') = rv_CandidateID args \<and>
    (\<forall>d \<in> durable (n_storage n'). d_state d = node_persistent n')"
proof -
  have ne: "membershipIsVoter m x \<Longrightarrow> x \<noteq> []" for m x by (simp add: membershipIsVoter_iff)
  show "qt {} n n'"
  proof (cases "rv_Term args > node_term n")
    case True
    obtain b n1 where a: "adopt_term ops (rv_Term args) n = (b, n1)" by fastforce
    note ad = adopt_term_quiet [OF assms(1) True a]
    show ?thesis
    proof (cases b)
      case True
      with assms(2) a \<open>rv_Term args > node_term n\<close> have "grant_vote ops args n1 = (reply, n')"
        by (simp add: RequestVote_def Let_def)
      from grant_vote_quiet(1) [OF quiet_sinv [OF ad(1)] this] ad(1) show ?thesis by (rule quiet_trans [rotated])
    next
      case False
      with assms(2) a \<open>rv_Term args > node_term n\<close> ad(1) show ?thesis by (simp add: RequestVote_def Let_def)
    qed
  next
    case False
    with assms(2) have "n' = n \<or> grant_vote ops args n = (reply, n')"
      by (auto simp: RequestVote_def Let_def split: if_splits)
    with assms(1) grant_vote_quiet(1) show ?thesis by (auto intro: qt_refl)
  qed
  assume granted: "rvr_VoteGranted reply"
  show "rvr_Term reply = rv_Term args \<and> rvr_VoterID reply = n_id n \<and>
    rv_CandidateID args \<noteq> [] \<and> node_term n' = rv_Term args \<and>
    VotedFor (node_persistent n') = rv_CandidateID args \<and>
    (\<forall>d \<in> durable (n_storage n'). d_state d = node_persistent n')"
  proof (cases "rv_Term args > node_term n")
    case True
    obtain b n1 where a: "adopt_term ops (rv_Term args) n = (b, n1)" by fastforce
    note ad = adopt_term_quiet [OF assms(1) True a]
    from granted assms(2) a True have b: b and g: "grant_vote ops args n1 = (reply, n')"
      by (auto simp: RequestVote_def Let_def split: bool.splits)
    from ad(1) have "n_id n1 = n_id n" by (simp add: quiet_def node_move_def)
    with grant_vote_quiet(2) [OF quiet_sinv [OF ad(1)] g granted] ad(2) [OF b] ne show ?thesis by auto
  next
    case False
    with granted assms(2) have t: "rv_Term args = node_term n" and g: "grant_vote ops args n = (reply, n')"
      by (auto simp: RequestVote_def Let_def split: if_splits)
    from grant_vote_quiet(2) [OF assms(1) g granted] ne t show ?thesis by auto
  qed
qed

lemma startElection_spec:
  assumes "sinv (n_storage n)" "Suc (node_term n) < 2 ^ 64" "startElection ops n = (r, n')"
  shows "node_move durable sinv {} n n'" "r = Inl err \<Longrightarrow> keeps_votes n n'"
    "r = Inr t \<Longrightarrow> t = Suc (node_term n) \<and> node_term n' = t \<and> node_role n' = Candidate \<and>
       VotesReceived (Election (n_state n')) = {n_id n} \<and> VotedFor (node_persistent n') = n_id n \<and>
       n_id n \<noteq> [] \<and> (\<forall>d \<in> durable (n_storage n'). d_state d = node_persistent n')"
proof -
  let ?p = "(node_persistent n)\<lparr>CurrentTerm := Suc (node_term n), VotedFor := n_id n\<rparr>"
  obtain pr s where p: "persist ops ?p (n_storage n) = (pr, s)" by fastforce
  note inc = inc64_Suc [OF assms(2)]
  show "node_move durable sinv {} n n'"
    using assms(1,3) p
    by (auto simp: startElection_def inc vote_le_def Let_def split: if_splits option.splits
        intro!: move_refl move_persist [OF assms(1) p])
  show "r = Inl err \<Longrightarrow> keeps_votes n n'"
    using assms(3) p by (auto simp: startElection_def inc keeps_votes_def Let_def split: if_splits option.splits)
  show "r = Inr t \<Longrightarrow> t = Suc (node_term n) \<and> node_term n' = t \<and> node_role n' = Candidate \<and>
       VotesReceived (Election (n_state n')) = {n_id n} \<and> VotedFor (node_persistent n') = n_id n \<and>
       n_id n \<noteq> [] \<and> (\<forall>d \<in> durable (n_storage n'). d_state d = node_persistent n')"
    using assms(3) p persist_spec(3) [OF assms(1) p]
    by (auto simp: startElection_def inc membershipIsVoter_iff Let_def split: if_splits option.splits)
qed

lemma handleVoteReply_spec:
  assumes "sinv (n_storage n)" "handleVoteReply ops t reply n = n'"
  shows "node_move durable sinv {} n n'"
    "keeps_votes n n' \<or> (node_role n' = Candidate \<and> node_role n = Candidate \<and> node_term n' = node_term n \<and>
       rvr_VoteGranted reply \<and> rvr_Term reply = node_term n \<and> t = node_term n \<and>
       VotesReceived (Election (n_state n')) = insert (rvr_VoterID reply) (VotesReceived (Election (n_state n))))"
proof -
  let ?p = "(node_persistent n)\<lparr>CurrentTerm := rvr_Term reply, VotedFor := []\<rparr>"
  obtain pr s where p: "persist ops ?p (n_storage n) = (pr, s)" by fastforce
  show "node_move durable sinv {} n n'"
  proof (cases "rvr_Term reply > node_term n")
    case True
    with assms(2) p show ?thesis
      by (intro move_persist [OF assms(1) p]) (auto simp: handleVoteReply_def vote_le_def Let_def split: option.splits)
  next
    case False
    with assms(2) move_refl [OF assms(1), of "{}"] show ?thesis
      by (auto simp: handleVoteReply_def node_move_def split: if_splits)
  qed
  show "keeps_votes n n' \<or> (node_role n' = Candidate \<and> node_role n = Candidate \<and> node_term n' = node_term n \<and>
       rvr_VoteGranted reply \<and> rvr_Term reply = node_term n \<and> t = node_term n \<and>
       VotesReceived (Election (n_state n')) = insert (rvr_VoterID reply) (VotesReceived (Election (n_state n))))"
    using assms(2) p
    by (auto simp: handleVoteReply_def keeps_votes_def Let_def split: if_splits option.splits)
qed

section \<open>Every other section is quiet\<close>

lemma tryBecomeLeader_spec:
  assumes "sinv (n_storage n)" "tryBecomeLeader n = (b, n')"
  shows "node_move durable sinv {} n n'"
    "b \<Longrightarrow> node_role n = Candidate \<and> node_role n' = Leader \<and> node_term n' = node_term n \<and>
       Election (n_state n') = Election (n_state n) \<and>
       membershipHasQuorum (node_membership n) (VotesReceived (Election (n_state n)))"
    "\<not> b \<Longrightarrow> n' = n"
proof -
  have "qt {} n n" by (rule qt_refl [OF assms(1)])
  then show "node_move durable sinv {} n n'"
    using assms(2) by (auto simp: tryBecomeLeader_def quiet_def node_move_def split: if_splits)
  show "b \<Longrightarrow> node_role n = Candidate \<and> node_role n' = Leader \<and> node_term n' = node_term n \<and>
       Election (n_state n') = Election (n_state n) \<and>
       membershipHasQuorum (node_membership n) (VotesReceived (Election (n_state n)))" "\<not> b \<Longrightarrow> n' = n"
    using assms(2) by (auto simp: tryBecomeLeader_def split: if_splits)
qed

lemma Propose_quiet:
  assumes "sinv (n_storage n)" "Propose ops data n = (r, b, n')"
  shows "qt {proposed_entry data n} n n'"
proof -
  let ?e = "proposed_entry data n"
  obtain r1 s1 where 1: "op_AppendEntries ops [?e] (n_storage n) = (r1, s1)" by fastforce
  obtain r2 s2 where 2: "op_Sync ops s1 = (r2, s2)" by fastforce
  have d1: "dok {} {?e} (n_storage n) s1" using dok_AppendEntries [OF assms(1) 1] by simp
  note d2 = disk_ok_trans [OF d1 dok_Sync [OF dok_sinv [OF d1] 2]]
  have "dok {} {?e} (n_storage n) (n_storage n')"
    using assms(2) 1 2 d1 d2 dok_refl [OF assms(1)]
    by (auto simp: Propose_def Let_def stepDownForStorageFailureLocked_def proposed_entry_def
        split: if_splits option.splits sum.splits prod.splits dest: arg_cong [where f = "\<lambda>x. n_storage (snd x)"])
  moreover have "log_entries (n_log n') \<in> {log_entries (n_log n), log_entries (n_log n) @ [?e]}"
    using assms(2) 1 2
    by (auto simp: Propose_def Let_def stepDownForStorageFailureLocked_def log_Append_def proposed_entry_def
        split: if_splits option.splits prod.splits dest!: arg_cong [where f = "\<lambda>x. log_entries (n_log (snd x))"])
  then have "set (log_entries (n_log n')) \<subseteq> set (log_entries (n_log n)) \<union> {?e}" by auto
  ultimately show ?thesis
    using assms(2) 1 2
    by (intro quietI) (auto simp: Propose_def Let_def stepDownForStorageFailureLocked_def proposed_entry_def
        split: if_splits option.splits sum.splits prod.splits
        dest: arg_cong [where f = "\<lambda>x. (n_id (snd x), n_peerIDs (snd x), node_persistent (snd x), node_role (snd x), Election (n_state (snd x)))"])
qed

lemma reconcile_quiet:
  assumes "sinv (n_storage n)" "reconcileReplicatedEntriesLocked ops es n = (r, n')"
  shows "dok {} (set es) (n_storage n) (n_storage n')" "n_state n' = n_state n" "n_id n' = n_id n"
    "n_peerIDs n' = n_peerIDs n" "set (log_entries (n_log n')) \<subseteq> set (log_entries (n_log n)) \<union> set es"
proof -
  show "n_state n' = n_state n" "n_id n' = n_id n" "n_peerIDs n' = n_peerIDs n"
    using assms(2) by (auto simp: reconcileReplicatedEntriesLocked_def split: if_splits option.splits prod.splits)
  show "set (log_entries (n_log n')) \<subseteq> set (log_entries (n_log n)) \<union> set es"
    using assms(2) TruncateFrom_entries
    by (auto simp: reconcileReplicatedEntriesLocked_def split: if_splits option.splits prod.splits
        dest!: log_append_all_entries first_new_entries) blast+
  show "dok {} (set es) (n_storage n) (n_storage n')"
  proof (cases "first_new (n_log n) es")
    case None
    with assms dok_refl [OF assms(1)] show ?thesis by (simp add: reconcileReplicatedEntriesLocked_def)
  next
    case (Some f)
    obtain i es' where f: "f = (i, es')" by (cases f)
    obtain r1 s1 where 1: "(if i > 0 then op_ReplaceSuffix ops i es' (n_storage n)
        else op_AppendEntries ops es' (n_storage n)) = (r1, s1)" by fastforce
    obtain r2 s2 where 2: "op_Sync ops s1 = (r2, s2)" by fastforce
    have "dok {} (set es') (n_storage n) s1"
      using 1 dok_ReplaceSuffix [OF assms(1)] dok_AppendEntries [OF assms(1)] by (auto split: if_splits)
    with first_new_entries [OF Some [unfolded f]] have d1: "dok {} (set es) (n_storage n) s1"
      by (auto elim!: disk_ok_mono)
    note d2 = disk_ok_trans [OF d1 dok_Sync [OF dok_sinv [OF d1] 2]]
    from assms(2) Some f 1 2 d1 d2 show ?thesis
      by (auto simp: reconcileReplicatedEntriesLocked_def split: if_splits option.splits prod.splits)
  qed
qed

lemma append_in_term_quiet:
  assumes "sinv (n_storage n)" "append_in_term ops args n = (r, n')"
  shows "qt (set (ae_Entries args)) n n'"
proof -
  let ?n = "n\<lparr>n_state := (n_state n)\<lparr>Role := Follower, LeaderID := ae_LeaderID args\<rparr>, n_electionElapsed := 0\<rparr>"
  obtain r1 n1 where 1: "reconcileReplicatedEntriesLocked ops (ae_Entries args) ?n = (r1, n1)" by fastforce
  from assms(1) have "sinv (n_storage ?n)" by simp
  note rq = reconcile_quiet [OF this 1]
  from assms(2) 1 have "n' = n \<or> (n_storage n' = n_storage n1 \<and> n_id n' = n_id n1 \<and> n_peerIDs n' = n_peerIDs n1 \<and>
      node_persistent n' = node_persistent n1 \<and> node_role n' = node_role n1 \<and> n_log n' = n_log n1)"
    by (auto simp: append_in_term_def advance_follower_commit_def Let_def split: if_splits option.splits prod.splits)
  with rq assms(1) show ?thesis by (auto intro!: quietI dok_refl)
qed

text \<open>A handler that first adopts a higher term and then works in it is quiet when the work is.\<close>

lemma adopt_then_quiet:
  assumes "sinv (n_storage n)" "node_term n < t" "adopt_term ops t n = (b, n1)"
    and "if b then qt X n1 n' else n' = n1"
  shows "qt X n n'"
  using adopt_term_quiet(1) [OF assms(1-3)] assms(4) by (cases b) (auto intro: quiet_trans)

lemma AppendEntries_quiet:
  assumes "sinv (n_storage n)" "AppendEntries ops args n = (r, n')"
  shows "qt (set (ae_Entries args)) n n'"
proof (cases "ae_Term args > node_term n")
  case True
  obtain b n1 where a: "adopt_term ops (ae_Term args) n = (b, n1)" by fastforce
  note sv = quiet_sinv [OF adopt_term_quiet(1) [OF assms(1) True a]]
  have "if b then qt (set (ae_Entries args)) n1 n' else n' = n1"
    using assms(2) a True append_in_term_quiet [OF sv, of args r n'] by (auto simp: AppendEntries_def Let_def)
  with assms(1) True a show ?thesis by (rule adopt_then_quiet)
next
  case False
  with assms(2) have "n' = n \<or> append_in_term ops args n = (r, n')"
    by (auto simp: AppendEntries_def Let_def split: if_splits)
  with append_in_term_quiet [OF assms(1), of args r n'] qt_refl [OF assms(1)] show ?thesis by blast
qed

lemma handleAppendEntriesReply_quiet:
  assumes "sinv (n_storage n)" "handleAppendEntriesReply ops p args reply n = (b, n')"
  shows "qt {} n n'"
proof (cases "aer_Term reply > node_term n")
  case True
  with assms(2) adopt_term_quiet(1) [OF assms(1) True surjective_pairing] show ?thesis
    by (simp add: handleAppendEntriesReply_def)
next
  case False
  with assms show ?thesis
    by (intro quietI)
      (auto simp: handleAppendEntriesReply_def dok_refl Let_def split: if_splits
        dest: arg_cong [where f = "\<lambda>x. (n_id (snd x), n_peerIDs (snd x), n_log (snd x), n_storage (snd x), node_persistent (snd x),
          node_role (snd x), Election (n_state (snd x)))"])
qed

lemma handleInstallSnapshotReply_quiet:
  assumes "sinv (n_storage n)" "handleInstallSnapshotReply ops p args reply n = (b, n')"
  shows "qt {} n n'"
proof (cases "isr_Term reply > node_term n")
  case True
  with assms(2) adopt_term_quiet(1) [OF assms(1) True surjective_pairing] show ?thesis
    by (simp add: handleInstallSnapshotReply_def)
next
  case False
  with assms show ?thesis
    by (intro quietI)
      (auto simp: handleInstallSnapshotReply_def dok_refl Let_def split: if_splits
        dest: arg_cong [where f = "\<lambda>x. (n_id (snd x), n_peerIDs (snd x), n_log (snd x), n_storage (snd x), node_persistent (snd x),
          node_role (snd x), Election (n_state (snd x)))"])
qed

lemma persistSnapshot_dok:
  assumes "sinv (n_storage n)" "persistSnapshotLocked ops sn n = (r, n')"
  shows "\<exists>s. n' = n\<lparr>n_storage := s\<rparr> \<and> dok {} {} (n_storage n) s"
  using assms
  by (auto simp: persistSnapshotLocked_def split: option.splits prod.splits
      intro: dok_SaveSnapshot disk_ok_trans [OF dok_SaveSnapshot dok_Sync] dest: dok_sinv [OF dok_SaveSnapshot])

lemma CreateSnapshot_quiet:
  assumes "sinv (n_storage n)" "CreateSnapshot ops i data n = (r, n')"
  shows "qt {} n n'"
proof (cases "validateSnapshotRequestLocked i n")
  case (Inl err)
  with assms show ?thesis by (simp add: CreateSnapshot_def qt_refl)
next
  case (Inr e)
  let ?sn = "\<lparr>LastIncludedIndex = i, LastIncludedTerm = Term e, SnapData = data\<rparr>"
  obtain r1 s1 where 1: "op_SaveSnapshot ops ?sn (n_storage n) = (r1, s1)" by fastforce
  obtain r2 s2 where 2: "op_Sync ops s1 = (r2, s2)" by fastforce
  obtain r3 s3 where 3: "op_Compact ops ?sn s2 = (r3, s3)" by fastforce
  note d1 = dok_SaveSnapshot [OF assms(1) 1]
  note d2 = disk_ok_trans [OF d1 dok_Sync [OF dok_sinv [OF d1] 2]]
  note d3 = disk_ok_trans [OF d2 dok_Compact [OF dok_sinv [OF d2] 3]]
  from assms(2) Inr 1 2 3 have "n_id n' = n_id n \<and> n_peerIDs n' = n_peerIDs n \<and> n_state n' = n_state n \<and> n_storage n' \<in> {s1, s2, s3} \<and>
      set (log_entries (n_log n')) \<subseteq> set (log_entries (n_log n))"
    by (auto simp: CreateSnapshot_def persistAndCompactSnapshotLocked_def split: option.splits sum.splits
        dest: log_Compact_entries [THEN subsetD])
  with d1 d2 d3 show ?thesis by (auto intro!: quietI)
qed

lemma install_in_term_quiet:
  assumes "sinv (n_storage n)" "install_in_term ops args n = (r, n')"
  shows "qt {} n n'" "node_role n' = Follower"
proof -
  let ?n = "n\<lparr>n_state := (n_state n)\<lparr>Role := Follower, LeaderID := is_LeaderID args\<rparr>, n_electionElapsed := 0\<rparr>"
  let ?sn = "\<lparr>LastIncludedIndex = is_LastIncludedIndex args, LastIncludedTerm = is_LastIncludedTerm args,
    SnapData = is_Data args\<rparr>"
  obtain r1 n1 where 1: "persistSnapshotLocked ops ?sn ?n = (r1, n1)" by fastforce
  from persistSnapshot_dok [OF _ 1] assms(1) obtain s where s: "n1 = ?n\<lparr>n_storage := s\<rparr>" "dok {} {} (n_storage n) s"
    by auto
  from assms(2) 1 have "n' = ?n \<or> n' = n1"
    by (auto simp: install_in_term_def Let_def split: if_splits option.splits)
  with s assms(1) show "qt {} n n'" "node_role n' = Follower" by (auto intro!: quietI dok_refl)
qed

lemma InstallSnapshot_begin_quiet:
  assumes "sinv (n_storage n)" "InstallSnapshot_begin ops args n = (r, n')"
  shows "qt {} n n'"
proof (cases "is_Term args > node_term n")
  case True
  let ?p = "(node_persistent n)\<lparr>CurrentTerm := is_Term args, VotedFor := []\<rparr>"
  obtain pr s where p: "persist ops ?p (n_storage n) = (pr, s)" by fastforce
  let ?n = "n\<lparr>n_storage := s, n_state := (n_state n)\<lparr>Persistent := ?p\<rparr>\<rparr>"
  note dp = dok_persist [OF assms(1) p]
  have mv: "node_move durable sinv {} n ?n"
    using True by (intro move_persist [OF assms(1) p]) (auto simp: vote_le_def)
  show ?thesis
  proof (cases pr)
    case None
    with assms(2) True p have "install_in_term ops args ?n = (r, n')" by (simp add: InstallSnapshot_begin_def Let_def)
    from install_in_term_quiet [OF _ this] dok_sinv [OF dp] have "qt {} ?n n'" "node_role n' = Follower" by simp_all
    with node_move_trans [OF mv] show ?thesis by (simp add: quiet_def keeps_votes_def)
  next
    case (Some err)
    with assms(2) True p have "n' = n\<lparr>n_storage := s\<rparr>" by (simp add: InstallSnapshot_begin_def Let_def)
    then show ?thesis using True by (intro quiet_persist [OF assms(1) p]) (auto simp: vote_le_def keeps_votes_def)
  qed
next
  case False
  with assms(2) have "n' = n \<or> install_in_term ops args n = (r, n')"
    by (auto simp: InstallSnapshot_begin_def Let_def split: if_splits)
  with install_in_term_quiet(1) [OF assms(1), of args r n'] qt_refl [OF assms(1)] show ?thesis by blast
qed

lemma InstallSnapshot_finish_quiet:
  assumes "sinv (n_storage n)" "InstallSnapshot_finish ops sn reply n = (r, n')"
  shows "qt {} n n'"
proof -
  obtain r1 s where 1: "op_Compact ops sn (n_storage n) = (r1, s)" by fastforce
  from assms(2) 1 have "n_id n' = n_id n \<and> n_peerIDs n' = n_peerIDs n \<and> node_persistent n' = node_persistent n \<and> n_storage n' = s \<and>
      node_role n' = node_role n \<and> Election (n_state n') = Election (n_state n) \<and>
      set (log_entries (n_log n')) \<subseteq> set (log_entries (n_log n))"
    by (auto simp: InstallSnapshot_finish_def Let_def split: option.splits sum.splits if_splits
        dest: log_RestoreSnapshot_entries [THEN subsetD])
  with dok_Compact [OF assms(1) 1] show ?thesis by (intro quietI) auto
qed

lemma applyNext_quiet:
  assumes "sinv (n_storage n)" "applyNext ops n = (out, n')"
    and "\<And>e. log_Get (n_log n) (node_applied n + 1) = Some e \<Longrightarrow> \<not> IsConfigurationEntry (Data e)"
  shows "n' = n"
  using assms(2,3) by (auto simp: applyNext_def Let_def split: if_splits option.splits)

end

end
