(* ===== verification/Raft_Cluster.thy ===== *)
theory Raft_Cluster
  imports Raft_Votes "HOL-Library.Multiset"
begin

text \<open>
  A cluster of nodes with a fixed set of voters: every section of a node is one step, messages may be
  lost, duplicated, delayed and reordered, storage operations may fail as the contract allows, and a
  node may crash at any moment and restart from what its storage kept.  The read index of
  \<^verbatim>\<open>node_readindex.go\<close> is not a step of this relation, and clients do not propose
  configuration entries, so the membership stays the bootstrapped one.  Pre-votes only read the
  state, and an election may start here at any time, with or without one.
\<close>

section \<open>States and steps\<close>

datatype message =
    VoteRequest request_vote_args
  | VoteReply node_id raft_term request_vote_reply
  | AppendRequest node_id append_entries_args
  | AppendReply node_id node_id append_entries_args append_entries_reply
  | SnapshotRequest node_id install_snapshot_args
  | SnapshotReply node_id node_id install_snapshot_args install_snapshot_reply

text \<open>What a handler has still to do after it released the mutex.\<close>

datatype continuation =
    MarkApplied log_index
  | FinishInstall install_snapshot_args snapshot install_snapshot_reply

text \<open>\<open>granted\<close> and \<open>elected\<close> record every vote ever given and every leader ever elected.\<close>

record 's cluster =
  nodes :: "node_id \<Rightarrow> 's raft_node"
  msgs :: "message set"
  pend :: "node_id \<Rightarrow> continuation set"
  granted :: "(node_id \<times> raft_term \<times> node_id) set"
  elected :: "(raft_term \<times> node_id) set"

definition put :: "node_id \<Rightarrow> 's raft_node \<Rightarrow> 's cluster \<Rightarrow> 's cluster" where
  "put i n c = c\<lparr>nodes := (nodes c)(i := n)\<rparr>"

definition send :: "message set \<Rightarrow> 's cluster \<Rightarrow> 's cluster" where
  "send ms c = c\<lparr>msgs := msgs c \<union> ms\<rparr>"

definition later :: "node_id \<Rightarrow> continuation set \<Rightarrow> 's cluster \<Rightarrow> 's cluster" where
  "later i ks c = c\<lparr>pend := (pend c)(i := pend c i \<union> ks)\<rparr>"

definition vote_for :: "node_id \<Rightarrow> raft_term \<Rightarrow> node_id \<Rightarrow> bool \<Rightarrow> 's cluster \<Rightarrow> 's cluster" where
  "vote_for v t x b c = (if b then c\<lparr>granted := insert (v, t, x) (granted c)\<rparr> else c)"

definition elect :: "raft_term \<Rightarrow> node_id \<Rightarrow> bool \<Rightarrow> 's cluster \<Rightarrow> 's cluster" where
  "elect t x b c = (if b then c\<lparr>elected := insert (t, x) (elected c)\<rparr> else c)"

definition peers_of :: "node_id list \<Rightarrow> node_id \<Rightarrow> node_id list" where
  "peers_of V i = filter (\<lambda>v. v \<noteq> i) V"

definition boot :: "'s storage_ops \<Rightarrow> node_id list \<Rightarrow> node_id \<Rightarrow> 's \<Rightarrow> 's raft_node result" where
  "boot ops V i s =
     (case NewRaftNodeWithStorage ops i s of
        Inl err \<Rightarrow> Inl err
      | Inr n \<Rightarrow> Inr (SetSnapshotRestore (SetTransport n (peers_of V i))))"

inductive cluster_step ::
  "'s storage_ops \<Rightarrow> ('s \<Rightarrow> 's \<Rightarrow> bool) \<Rightarrow> node_id list \<Rightarrow> 's cluster \<Rightarrow> 's cluster \<Rightarrow> bool"
  for ops recovers V where
  Timer: "i \<in> set V \<Longrightarrow> tick (nodes c i) = (due, n) \<Longrightarrow> cluster_step ops recovers V c (put i n c)"
| ResetTimer: "i \<in> set V \<Longrightarrow> cluster_step ops recovers V c (put i (resetElectionTimer (nodes c i)) c)"
| Bootstrap: "i \<in> set V \<Longrightarrow> BootstrapMembership ops (nodes c i) = (r, n) \<Longrightarrow>
    cluster_step ops recovers V c (put i n c)"
| StartElection: "i \<in> set V \<Longrightarrow> Suc (node_term (nodes c i)) < 2 ^ 64 \<Longrightarrow>
    startElection ops (nodes c i) = (r, n) \<Longrightarrow>
    cluster_step ops recovers V c (vote_for i (node_term n) i (is_ok r) (put i n c))"
| RequestVotes: "i \<in> set V \<Longrightarrow> requestVotes (nodes c i) = Some (ps, args) \<Longrightarrow>
    cluster_step ops recovers V c (send {VoteRequest args} c)"
| ReceiveVoteRequest: "i \<in> set V \<Longrightarrow> VoteRequest args \<in> msgs c \<Longrightarrow>
    RequestVote ops args (nodes c i) = (reply, n) \<Longrightarrow>
    cluster_step ops recovers V c
      (send {VoteReply (rv_CandidateID args) (rv_Term args) reply}
        (vote_for i (rv_Term args) (rv_CandidateID args) (rvr_VoteGranted reply) (put i n c)))"
| ReceiveVoteReply: "i \<in> set V \<Longrightarrow> VoteReply i t reply \<in> msgs c \<Longrightarrow>
    cluster_step ops recovers V c (put i (handleVoteReply ops t reply (nodes c i)) c)"
| BecomeLeader: "i \<in> set V \<Longrightarrow> tryBecomeLeader (nodes c i) = (b, n) \<Longrightarrow>
    cluster_step ops recovers V c (elect (node_term n) i b (put i n c))"
| ClientProposal: "i \<in> set V \<Longrightarrow> \<not> IsConfigurationEntry data \<Longrightarrow>
    Suc (LastIndex (n_log (nodes c i))) < 2 ^ 64 \<Longrightarrow> Propose ops data (nodes c i) = (r, b, n) \<Longrightarrow>
    cluster_step ops recovers V c (put i n c)"
| SendAppend: "i \<in> set V \<Longrightarrow> buildAppendEntries p (nodes c i) = Some args \<Longrightarrow>
    cluster_step ops recovers V c (send {AppendRequest p args} c)"
| ReceiveAppend: "i \<in> set V \<Longrightarrow> AppendRequest i args \<in> msgs c \<Longrightarrow>
    AppendEntries ops args (nodes c i) = ((reply, b), n) \<Longrightarrow>
    cluster_step ops recovers V c (send {AppendReply (ae_LeaderID args) i args reply} (put i n c))"
| ReceiveAppendReply: "i \<in> set V \<Longrightarrow> AppendReply i p args reply \<in> msgs c \<Longrightarrow>
    handleAppendEntriesReply ops p args reply (nodes c i) = (b, n) \<Longrightarrow>
    cluster_step ops recovers V c (put i n c)"
| ApplyEntry: "i \<in> set V \<Longrightarrow> applyNext ops (nodes c i) = (out, n) \<Longrightarrow>
    cluster_step ops recovers V c
      (later i (case out of ApplySend e \<Rightarrow> {MarkApplied (node_applied n + 1)} | _ \<Rightarrow> {}) (put i n c))"
| EntryApplied: "i \<in> set V \<Longrightarrow> MarkApplied k \<in> pend c i \<Longrightarrow>
    cluster_step ops recovers V c (put i (markApplied k (nodes c i)) c)"
| TakeSnapshot: "i \<in> set V \<Longrightarrow> CreateSnapshot ops k data (nodes c i) = (r, n) \<Longrightarrow>
    cluster_step ops recovers V c (put i n c)"
| SendSnapshot: "i \<in> set V \<Longrightarrow> buildInstallSnapshot ops p (nodes c i) = Some sargs \<Longrightarrow>
    cluster_step ops recovers V c (send {SnapshotRequest p sargs} c)"
| ReceiveSnapshot: "i \<in> set V \<Longrightarrow> SnapshotRequest i sargs \<in> msgs c \<Longrightarrow>
    InstallSnapshot_begin ops sargs (nodes c i) = ((sreply, sn), n) \<Longrightarrow>
    cluster_step ops recovers V c
      (later i (case sn of None \<Rightarrow> {} | Some snap \<Rightarrow> {FinishInstall sargs snap sreply})
        (send (case sn of None \<Rightarrow> {SnapshotReply (is_LeaderID sargs) i sargs sreply} | Some snap \<Rightarrow> {})
          (put i n c)))"
| SnapshotRestored: "i \<in> set V \<Longrightarrow> FinishInstall sargs snap sreply \<in> pend c i \<Longrightarrow>
    InstallSnapshot_finish ops snap sreply (nodes c i) = (sreply', n) \<Longrightarrow>
    cluster_step ops recovers V c (send {SnapshotReply (is_LeaderID sargs) i sargs sreply'} (put i n c))"
| SnapshotNotRestored: "i \<in> set V \<Longrightarrow> FinishInstall sargs snap sreply \<in> pend c i \<Longrightarrow>
    cluster_step ops recovers V c (send {SnapshotReply (is_LeaderID sargs) i sargs sreply} c)"
| ReceiveSnapshotReply: "i \<in> set V \<Longrightarrow> SnapshotReply i p sargs sreply \<in> msgs c \<Longrightarrow>
    handleInstallSnapshotReply ops p sargs sreply (nodes c i) = (b, n) \<Longrightarrow>
    cluster_step ops recovers V c (put i n c)"
| Restart: "i \<in> set V \<Longrightarrow> recovers (n_storage (nodes c i)) s \<Longrightarrow> boot ops V i s = Inr n \<Longrightarrow>
    cluster_step ops recovers V c (put i n (c\<lparr>pend := (pend c)(i := {})\<rparr>))"

text \<open>Every node starts on an empty storage.\<close>

definition cluster_init :: "'s storage_ops \<Rightarrow> node_id list \<Rightarrow> ('s \<Rightarrow> bool) \<Rightarrow> 's cluster \<Rightarrow> bool" where
  "cluster_init ops V fresh c \<longleftrightarrow> distinct V \<and> [] \<notin> set V \<and> msgs c = {} \<and> pend c = (\<lambda>_. {}) \<and> granted c = {} \<and>
     elected c = {} \<and> (\<forall>i \<in> set V. \<exists>s. fresh s \<and> boot ops V i s = Inr (nodes c i))"

definition cluster_reachable ::
  "'s storage_ops \<Rightarrow> ('s \<Rightarrow> 's \<Rightarrow> bool) \<Rightarrow> ('s \<Rightarrow> bool) \<Rightarrow> node_id list \<Rightarrow> 's cluster \<Rightarrow> bool" where
  "cluster_reachable ops recovers fresh V c \<longleftrightarrow>
     (\<exists>c0. cluster_init ops V fresh c0 \<and> (cluster_step ops recovers V)\<^sup>*\<^sup>* c0 c)"

lemma put_simps [simp]:
  "nodes (put i n c) = (nodes c)(i := n)" "msgs (put i n c) = msgs c" "pend (put i n c) = pend c"
  "granted (put i n c) = granted c" "elected (put i n c) = elected c"
  by (simp_all add: put_def)

lemma put_self [simp]: "put i (nodes c i) c = c"
  by (simp add: put_def)

lemma send_simps [simp]:
  "nodes (send ms c) = nodes c" "msgs (send ms c) = msgs c \<union> ms" "pend (send ms c) = pend c"
  "granted (send ms c) = granted c" "elected (send ms c) = elected c"
  by (simp_all add: send_def)

lemma later_simps [simp]:
  "nodes (later i ks c) = nodes c" "msgs (later i ks c) = msgs c"
  "pend (later i ks c) = (pend c)(i := pend c i \<union> ks)"
  "granted (later i ks c) = granted c" "elected (later i ks c) = elected c"
  by (simp_all add: later_def)

lemma vote_for_simps [simp]:
  "nodes (vote_for v t x b c) = nodes c" "msgs (vote_for v t x b c) = msgs c" "pend (vote_for v t x b c) = pend c"
  "granted (vote_for v t x b c) = (if b then insert (v, t, x) (granted c) else granted c)"
  "elected (vote_for v t x b c) = elected c"
  by (simp_all add: vote_for_def)

lemma elect_simps [simp]:
  "nodes (elect t x b c) = nodes c" "msgs (elect t x b c) = msgs c" "pend (elect t x b c) = pend c"
  "granted (elect t x b c) = granted c"
  "elected (elect t x b c) = (if b then insert (t, x) (elected c) else elected c)"
  by (simp_all add: elect_def)

end
