(* ===== verification/Raft_Election_Safety.thy ===== *)
theory Raft_Election_Safety
  imports Raft_Cluster
begin

text \<open>
  At most one leader per term.  The invariant \<open>einv\<close> says that every vote ever given is still honoured by
  the voter, in memory and by whatever a crash may leave on its disk, and that candidates and leaders
  only count votes that were given to them.
\<close>

section \<open>Memberships that agree with the bootstrapped voters\<close>

definition memb_ok :: "node_id list \<Rightarrow> membership \<Rightarrow> bool" where
  "memb_ok V m \<longleftrightarrow> Joint m = None \<and> (Voters (Current m) = [] \<or> mset (Voters (Current m)) = mset V)"

lemma configurationHasQuorum_mset:
  assumes "mset xs = mset ys"
  shows "configurationHasQuorum \<lparr>Voters = xs\<rparr> Q \<longleftrightarrow> configurationHasQuorum \<lparr>Voters = ys\<rparr> Q"
proof -
  have "mset (filter (\<lambda>v. v \<in> Q) xs) = mset (filter (\<lambda>v. v \<in> Q) ys)" using assms by simp
  then have "length (filter (\<lambda>v. v \<in> Q) xs) = length (filter (\<lambda>v. v \<in> Q) ys)" by (rule mset_eq_length)
  with mset_eq_length [OF assms] show ?thesis by (simp add: configurationHasQuorum_iff)
qed

lemma memb_ok_quorum:
  assumes "memb_ok V m" "membershipHasQuorum m Q"
  shows "configurationHasQuorum \<lparr>Voters = V\<rparr> Q"
proof -
  from assms have q: "configurationHasQuorum (Current m) Q" by (simp add: memb_ok_def membershipHasQuorum_def)
  then have "Voters (Current m) \<noteq> []" using configurationHasQuorum_empty by blast
  with assms(1) have "mset (Voters (Current m)) = mset V" by (simp add: memb_ok_def)
  from configurationHasQuorum_mset [OF this, of Q] q show ?thesis by (cases "Current m") simp
qed

definition plain :: "log_entry set \<Rightarrow> bool" where
  "plain X \<longleftrightarrow> (\<forall>e \<in> X. \<not> IsConfigurationEntry (Data e))"

lemma plain_subset: "plain Y \<Longrightarrow> X \<subseteq> Y \<Longrightarrow> plain X"
  by (auto simp: plain_def)

lemma plain_Un [simp]: "plain (X \<union> Y) \<longleftrightarrow> plain X \<and> plain Y"
  by (auto simp: plain_def)

lemma plain_empty [simp]: "plain {}"
  by (simp add: plain_def)

section \<open>Bootstrapping\<close>

lemma bootstrap_fold:
  "distinct (acc @ xs) \<Longrightarrow> [] \<notin> set xs \<Longrightarrow>
     foldl (\<lambda>voters i. if i = [] \<or> i \<in> set voters then voters else voters @ [i]) acc xs = acc @ xs"
  by (induction xs arbitrary: acc) auto

lemma bootstrap_voters_peers:
  assumes "n_id n = i" "n_peerIDs n = peers_of V i" "i \<in> set V" "distinct V" "[] \<notin> set V"
  shows "mset (bootstrap_voters n) = mset V"
proof -
  have "bootstrap_voters n = i # peers_of V i"
    using assms bootstrap_fold [of "[]" "i # peers_of V i"] by (auto simp: bootstrap_voters_def peers_of_def)
  moreover have "distinct (i # peers_of V i)" "set (i # peers_of V i) = set V"
    using assms by (auto simp: peers_of_def)
  ultimately show ?thesis using assms(4) set_eq_iff_mset_eq_distinct by metis
qed

lemma persistStateLocked_storage:
  "persistStateLocked ops n = (r, n') \<Longrightarrow> n' = n\<lparr>n_storage := snd (persist ops (node_persistent n) (n_storage n))\<rparr>"
  by (auto simp: persistStateLocked_def persist_def split: option.splits prod.splits)

section \<open>The invariant\<close>

definition message_ok :: "(node_id \<times> raft_term \<times> node_id) set \<Rightarrow> message \<Rightarrow> bool" where
  "message_ok G m \<longleftrightarrow> (case m of
     VoteReply x t reply \<Rightarrow> rvr_VoteGranted reply \<longrightarrow> (rvr_VoterID reply, rvr_Term reply, x) \<in> G
   | AppendRequest p args \<Rightarrow> plain (set (ae_Entries args))
   | _ \<Rightarrow> True)"

definition tally_ok :: "(node_id \<times> raft_term \<times> node_id) set \<Rightarrow> 's raft_node \<Rightarrow> bool" where
  "tally_ok G n \<longleftrightarrow> (node_role n \<noteq> Follower \<longrightarrow>
     (\<forall>u \<in> VotesReceived (Election (n_state n)). (u, node_term n, n_id n) \<in> G))"

definition won :: "node_id list \<Rightarrow> (node_id \<times> raft_term \<times> node_id) set \<Rightarrow> raft_term \<Rightarrow> node_id \<Rightarrow> bool" where
  "won V G t x \<longleftrightarrow> (\<exists>Q. configurationHasQuorum \<lparr>Voters = V\<rparr> Q \<and> (\<forall>u \<in> Q \<inter> set V. (u, t, x) \<in> G))"

definition one_vote :: "(node_id \<times> raft_term \<times> node_id) set \<Rightarrow> bool" where
  "one_vote G \<longleftrightarrow> (\<forall>v t x y. (v, t, x) \<in> G \<longrightarrow> (v, t, y) \<in> G \<longrightarrow> x = y)"

context crash_storage
begin

definition node_inv :: "node_id list \<Rightarrow> node_id \<Rightarrow> 'a raft_node \<Rightarrow> bool" where
  "node_inv V i n \<longleftrightarrow> n_id n = i \<and> n_peerIDs n = peers_of V i \<and> sinv (n_storage n) \<and>
     memb_ok V (node_membership n) \<and> (\<forall>d \<in> durable (n_storage n). memb_ok V (Membership (d_state d))) \<and>
     plain (set (log_entries (n_log n))) \<and> plain (disk_entries durable (n_storage n))"

definition vote_move :: "'a raft_node \<Rightarrow> 'a raft_node \<Rightarrow> bool" where
  "vote_move n n' \<longleftrightarrow> vote_le (node_persistent n) (node_persistent n') \<and>
     (\<forall>q \<in> d_state ` durable (n_storage n'). q \<in> d_state ` durable (n_storage n) \<or> vote_le (node_persistent n) q)"

definition honours :: "'a raft_node \<Rightarrow> raft_term \<Rightarrow> node_id \<Rightarrow> bool" where
  "honours n t x \<longleftrightarrow> x \<noteq> [] \<and> promised (node_persistent n) t x \<and>
     (\<forall>d \<in> durable (n_storage n). promised (d_state d) t x)"

definition einv :: "node_id list \<Rightarrow> 'a cluster \<Rightarrow> bool" where
  "einv V c \<longleftrightarrow> distinct V \<and> [] \<notin> set V \<and>
     (\<forall>i \<in> set V. node_inv V i (nodes c i) \<and> tally_ok (granted c) (nodes c i) \<and>
        (node_role (nodes c i) = Leader \<longrightarrow> (node_term (nodes c i), i) \<in> elected c)) \<and>
     one_vote (granted c) \<and> (\<forall>v t x. (v, t, x) \<in> granted c \<longrightarrow> v \<in> set V \<and> honours (nodes c v) t x) \<and>
     (\<forall>m \<in> msgs c. message_ok (granted c) m) \<and>
     (\<forall>t x. (t, x) \<in> elected c \<longrightarrow> won V (granted c) t x)"

lemma message_ok_mono: "message_ok G m \<Longrightarrow> G \<subseteq> H \<Longrightarrow> message_ok H m"
  by (auto simp: message_ok_def split: message.splits)

lemma tally_ok_mono: "tally_ok G n \<Longrightarrow> G \<subseteq> H \<Longrightarrow> tally_ok H n"
  by (auto simp: tally_ok_def)

lemma won_mono: "won V G t x \<Longrightarrow> G \<subseteq> H \<Longrightarrow> won V H t x"
  unfolding won_def by blast

lemma honours_move:
  assumes "honours n t x" "vote_move n n'"
  shows "honours n' t x"
proof -
  from assms(1) have x: "x \<noteq> []" and p: "promised (node_persistent n) t x"
    and old: "\<And>q. q \<in> d_state ` durable (n_storage n) \<Longrightarrow> promised q t x"
    by (auto simp: honours_def)
  have "promised q t x" if "q \<in> d_state ` durable (n_storage n')" for q
    using assms(2) that old [of q] promised_mono [OF p _ x, of q] by (auto simp: vote_move_def)
  moreover from assms(2) have "promised (node_persistent n') t x"
    by (auto simp: vote_move_def intro: promised_mono [OF p _ x])
  ultimately show ?thesis using x by (auto simp: honours_def)
qed

lemma node_move_vote: "node_move durable sinv X n n' \<Longrightarrow> vote_move n n'"
  unfolding node_move_def vote_move_def disk_ok_def by blast

lemma node_inv_move:
  assumes "node_inv V i n" "node_move durable sinv X n n'" "plain X"
  shows "node_inv V i n'"
proof -
  have "memb_ok V (Membership q)" if "q \<in> d_state ` durable (n_storage n')" for q
  proof -
    from assms(2) that have "q \<in> d_state ` durable (n_storage n) \<or> Membership q = node_membership n"
      unfolding node_move_def disk_ok_def by blast
    with assms(1) show ?thesis by (auto simp: node_inv_def)
  qed
  moreover have "plain (set (log_entries (n_log n')))"
    by (rule plain_subset [of "set (log_entries (n_log n)) \<union> X"])
      (use assms in \<open>simp_all add: node_inv_def node_move_def\<close>)
  moreover have "plain (disk_entries durable (n_storage n'))"
    by (rule plain_subset [of "disk_entries durable (n_storage n) \<union> X"])
      (use assms in \<open>simp_all add: node_inv_def node_move_def disk_ok_def\<close>)
  ultimately show ?thesis using assms by (simp add: node_inv_def node_move_def disk_ok_def)
qed

text \<open>One step changes one node and adds messages, votes and winners.\<close>

lemma einv_update:
  assumes inv: "einv V c" and i: "i \<in> set V" and n: "node_inv V i n" "vote_move (nodes c i) n"
    and c': "nodes c' = (nodes c)(i := n)" "msgs c' = msgs c \<union> M" "granted c' = granted c \<union> G"
      "elected c' = elected c \<union> E"
    and G: "\<And>v t x. (v, t, x) \<in> G \<Longrightarrow> v = i \<and> t = node_term n \<and> honours n t x"
    and tally: "tally_ok (granted c') n" and lead: "node_role n = Leader \<Longrightarrow> (node_term n, i) \<in> elected c'"
    and M: "\<And>m. m \<in> M \<Longrightarrow> message_ok (granted c') m"
    and E: "\<And>t x. (t, x) \<in> E \<Longrightarrow> won V (granted c') t x"
  shows "einv V c'"
proof -
  have sub: "granted c \<subseteq> granted c'" using c'(3) by blast
  have "\<forall>j \<in> set V. node_inv V j (nodes c' j) \<and> tally_ok (granted c') (nodes c' j) \<and>
      (node_role (nodes c' j) = Leader \<longrightarrow> (node_term (nodes c' j), j) \<in> elected c')"
    using inv n(1) tally lead tally_ok_mono [OF _ sub] by (auto simp: einv_def c'(1,4))
  moreover have hon: "v \<in> set V \<and> honours (nodes c' v) t x" if "(v, t, x) \<in> granted c'" for v t x
  proof (cases "(v, t, x) \<in> granted c")
    case True
    with inv have "v \<in> set V" "honours (nodes c v) t x" by (auto simp: einv_def)
    with honours_move [OF _ n(2)] show ?thesis by (auto simp: c'(1))
  next
    case False
    with that c'(3) G [of v t x] i show ?thesis by (auto simp: c'(1))
  qed
  moreover have "one_vote (granted c')"
    unfolding one_vote_def
  proof (intro allI impI)
    fix v t x y
    assume that: "(v, t, x) \<in> granted c'" "(v, t, y) \<in> granted c'"
    show "x = y"
    proof (cases "(v, t, x) \<in> granted c \<and> (v, t, y) \<in> granted c")
      case True
      with inv show ?thesis unfolding einv_def one_vote_def by blast
    next
      case False
      with that c'(3) have "(v, t, x) \<in> G \<or> (v, t, y) \<in> G" by blast
      with G have "v = i" "t = node_term n" by blast+
      with hon [OF that(1)] hon [OF that(2)] c'(1) show ?thesis by (simp add: honours_def promised_def)
    qed
  qed
  moreover have "\<forall>m \<in> msgs c'. message_ok (granted c') m"
    using inv M message_ok_mono [OF _ sub] by (auto simp: einv_def c'(2))
  moreover have "\<forall>t x. (t, x) \<in> elected c' \<longrightarrow> won V (granted c') t x"
    using inv E won_mono [OF _ sub] by (auto simp: einv_def c'(4))
  ultimately show ?thesis using inv by (auto simp: einv_def)
qed

lemma tally_ok_kept:
  assumes "tally_ok G n" "keeps_votes n n'" "n_id n' = n_id n"
  shows "tally_ok G n'"
  using assms by (auto simp: tally_ok_def keeps_votes_def)

lemma einv_node: "einv V c \<Longrightarrow> i \<in> set V \<Longrightarrow> node_inv V i (nodes c i)"
  by (simp add: einv_def)

lemma einv_sinv: "einv V c \<Longrightarrow> i \<in> set V \<Longrightarrow> sinv (n_storage (nodes c i))"
  using einv_node by (auto simp: node_inv_def)

text \<open>A step that leaves the votes alone.\<close>

lemma einv_kept:
  assumes inv: "einv V c" and i: "i \<in> set V" and n: "node_inv V i n" "vote_move (nodes c i) n" "keeps_votes (nodes c i) n"
    and c': "nodes c' = (nodes c)(i := n)" "msgs c' = msgs c \<union> M" "granted c' = granted c" "elected c' = elected c"
    and M: "\<And>m. m \<in> M \<Longrightarrow> message_ok (granted c) m"
  shows "einv V c'"
proof (rule einv_update [OF inv i n(1,2) c'(1,2), of "{}" "{}"])
  from inv i n(1) have "tally_ok (granted c) (nodes c i)" "n_id n = n_id (nodes c i)"
    and l: "node_role (nodes c i) = Leader \<Longrightarrow> (node_term (nodes c i), i) \<in> elected c"
    by (auto simp: einv_def node_inv_def)
  with n(3) c'(3) show "tally_ok (granted c') n" using tally_ok_kept by metis
  show "(node_term n, i) \<in> elected c'" if "node_role n = Leader"
    using that n(3) l c'(4) by (auto simp: keeps_votes_def)
qed (use c' M in simp_all)

lemma einv_quiet:
  assumes "einv V c" "i \<in> set V" "quiet durable sinv X (nodes c i) n" "plain X"
    and "nodes c' = (nodes c)(i := n)" "msgs c' = msgs c \<union> M" "granted c' = granted c" "elected c' = elected c"
    and "\<And>m. m \<in> M \<Longrightarrow> message_ok (granted c) m"
  shows "einv V c'"
proof -
  from assms(3) have mv: "node_move durable sinv X (nodes c i) n" and k: "keeps_votes (nodes c i) n"
    by (simp_all add: quiet_def)
  show ?thesis
    using node_inv_move [OF einv_node [OF assms(1,2)] mv assms(4)] node_move_vote [OF mv] k assms(5-9)
    by (rule einv_kept [OF assms(1,2)])
qed

lemma einv_send:
  assumes "einv V c" "\<And>m. m \<in> M \<Longrightarrow> message_ok (granted c) m"
  shows "einv V (send M c)"
  using assms by (auto simp: einv_def)

section \<open>Bootstrapping and restarting\<close>

lemma BootstrapMembership_step:
  assumes inv: "node_inv V i n" and V: "i \<in> set V" "distinct V" "[] \<notin> set V"
    and "BootstrapMembership ops n = (r, n')"
  shows "node_inv V i n'" "vote_move n n'" "keeps_votes n n'"
proof -
  let ?m = "\<lparr>Current = \<lparr>Voters = bootstrap_voters n\<rparr>, Joint = None\<rparr>"
  let ?p = "(node_persistent n)\<lparr>Membership := ?m\<rparr>"
  let ?n = "n\<lparr>n_state := (n_state n)\<lparr>Persistent := ?p\<rparr>\<rparr>"
  obtain pr s where p: "persist ops ?p (n_storage n) = (pr, s)" by fastforce
  have s: "sinv (n_storage n)" using inv by (simp add: node_inv_def)
  have m: "memb_ok V ?m"
    using bootstrap_voters_peers [of n i V] inv V by (simp add: memb_ok_def node_inv_def)
  have "persistStateLocked ops ?n = (pr', n'') \<Longrightarrow> n'' = ?n\<lparr>n_storage := s\<rparr>" for pr' n''
    using persistStateLocked_storage [of ops ?n] p by simp
  with assms(5) have n': "n' = n \<or> n' = ?n\<lparr>n_storage := s\<rparr>"
    by (auto simp: BootstrapMembership_def Let_def split: if_splits option.splits prod.splits)
  have d: "dok {?p} {} (n_storage n) s" by (rule dok_persist [OF s p])
  have q: "q \<in> d_state ` durable (n_storage n) \<or> q = ?p" if "q \<in> d_state ` durable s" for q
    using d that unfolding disk_ok_def by blast
  have "vote_le (node_persistent n) ?p" by (simp add: vote_le_def)
  with q have "\<forall>q \<in> d_state ` durable s. q \<in> d_state ` durable (n_storage n) \<or> vote_le (node_persistent n) q"
    by metis
  with n' \<open>vote_le (node_persistent n) ?p\<close> show "vote_move n n'"
    unfolding vote_move_def by (elim disjE) simp_all
  show "keeps_votes n n'" using n' by (auto simp: keeps_votes_def)
  have "memb_ok V (Membership q)" if "q \<in> d_state ` durable s" for q
    using q [OF that] inv m by (auto simp: node_inv_def)
  moreover have "plain (disk_entries durable s)"
    using d inv plain_subset by (auto simp: disk_ok_def node_inv_def)
  moreover have "sinv s" using d by (simp add: disk_ok_def)
  ultimately show "node_inv V i n'" using n' inv m by (auto simp: node_inv_def)
qed

lemma boot_spec:
  assumes "sinv s" "boot ops V i s = Inr n"
  shows "n_id n = i" "n_peerIDs n = peers_of V i" "n_storage n = s" "node_persistent n = d_state (view s)"
    "node_role n = Follower" "set (log_entries (n_log n)) \<subseteq> set (d_entries (view s))"
proof -
  have entries: "set (log_entries l) \<subseteq> set es" if "log_append_all NewLog es = (None, l)" for es l
    using log_append_all_entries [OF that] by (simp add: NewLog_def)
  from assms(2) show "n_id n = i" "n_peerIDs n = peers_of V i" "n_storage n = s" "node_role n = Follower"
    by (auto simp: boot_def NewRaftNodeWithStorage_def SetSnapshotRestore_def SetTransport_def Let_def
        split: sum.splits option.splits prod.splits if_splits)
  from assms show "node_persistent n = d_state (view s)"
    by (auto simp: boot_def NewRaftNodeWithStorage_def SetSnapshotRestore_def SetTransport_def Let_def LoadState
        split: sum.splits option.splits prod.splits if_splits)
  from assms show "set (log_entries (n_log n)) \<subseteq> set (d_entries (view s))"
    by (auto simp: boot_def NewRaftNodeWithStorage_def SetSnapshotRestore_def SetTransport_def Let_def
        split: sum.splits option.splits prod.splits if_splits
        dest!: LoadEntries [OF assms(1)] entries log_RestoreSnapshot_entries)
qed

lemma restart_step:
  assumes inv: "node_inv V i n" and "recovers (n_storage n) s" "boot ops V i s = Inr n'"
  shows "node_inv V i n'" "\<And>t x. honours n t x \<Longrightarrow> honours n' t x" "node_role n' = Follower"
proof -
  have sv: "sinv (n_storage n)" using inv by (simp add: node_inv_def)
  note r = recovers [OF sv assms(2)]
  note b = boot_spec [OF conjunct1 [OF r] assms(3)]
  have "plain (set (d_entries (view s)))" "memb_ok V (Membership (d_state (view s)))"
    using inv r by (auto simp: node_inv_def disk_entries_def plain_def)
  then show "node_inv V i n'"
    using r b plain_subset by (auto simp: node_inv_def disk_entries_def)
  show "honours n t x \<Longrightarrow> honours n' t x" for t x using r b by (auto simp: honours_def)
  show "node_role n' = Follower" by (fact b(5))
qed

lemma einv_restart:
  assumes inv: "einv V c" and i: "i \<in> set V" and "recovers (n_storage (nodes c i)) s" "boot ops V i s = Inr n"
  shows "einv V (put i n (c\<lparr>pend := (pend c)(i := {})\<rparr>))"
proof -
  note r = restart_step [OF einv_node [OF inv i] assms(3,4)]
  let ?N = "(nodes c)(i := n)"
  have "tally_ok (granted c) n" using r(3) by (simp add: tally_ok_def)
  with inv r(1,3) have "\<forall>j \<in> set V. node_inv V j (?N j) \<and> tally_ok (granted c) (?N j) \<and>
      (node_role (?N j) = Leader \<longrightarrow> (node_term (?N j), j) \<in> elected c)"
    by (simp add: einv_def)
  moreover have "\<forall>v t x. (v, t, x) \<in> granted c \<longrightarrow> honours (?N v) t x"
    using inv r(2) by (simp add: einv_def)
  ultimately show ?thesis using inv by (auto simp: einv_def)
qed

section \<open>The steps that move votes\<close>

lemma einv_StartElection:
  assumes inv: "einv V c" and i: "i \<in> set V" and "Suc (node_term (nodes c i)) < 2 ^ 64"
    "startElection ops (nodes c i) = (r, n)"
  shows "einv V (vote_for i (node_term n) i (is_ok r) (put i n c))"
proof -
  note sp = startElection_spec [OF einv_sinv [OF inv i] assms(3,4)]
  note ni = node_inv_move [OF einv_node [OF inv i] sp(1) plain_empty] and vm = node_move_vote [OF sp(1)]
  have id: "n_id (nodes c i) = i" "n_id n = i" using einv_node [OF inv i] ni by (simp_all add: node_inv_def)
  show ?thesis
  proof (cases r)
    case (Inl err)
    from einv_kept [OF inv i ni vm sp(2) [OF Inl], of _ "{}"] Inl show ?thesis by (simp add: is_ok_def)
  next
    case (Inr t)
    note e = sp(3) [OF Inr]
    show ?thesis
      by (rule einv_update [OF inv i ni vm, of _ "{}" "{(i, node_term n, i)}" "{}"])
        (use e id Inr in \<open>auto simp: honours_def promised_def tally_ok_def is_ok_def\<close>)
  qed
qed

lemma einv_ReceiveVoteRequest:
  assumes inv: "einv V c" and i: "i \<in> set V" and "RequestVote ops args (nodes c i) = (reply, n)"
  shows "einv V (send {VoteReply (rv_CandidateID args) (rv_Term args) reply}
        (vote_for i (rv_Term args) (rv_CandidateID args) (rvr_VoteGranted reply) (put i n c)))"
    (is "einv V ?c")
proof -
  note rq = RequestVote_quiet [OF einv_sinv [OF inv i] assms(3)]
  have mv: "node_move durable sinv {} (nodes c i) n" and k: "keeps_votes (nodes c i) n"
    using rq(1) by (simp_all add: quiet_def)
  note ni = node_inv_move [OF einv_node [OF inv i] mv plain_empty] and vm = node_move_vote [OF mv]
  let ?G = "if rvr_VoteGranted reply then {(i, rv_Term args, rv_CandidateID args)} else {}"
  have id: "n_id (nodes c i) = i" "n_id n = i" using einv_node [OF inv i] ni by (simp_all add: node_inv_def)
  have old: "tally_ok (granted c) (nodes c i)"
    "node_role (nodes c i) = Leader \<Longrightarrow> (node_term (nodes c i), i) \<in> elected c"
    using inv i by (simp_all add: einv_def)
  show ?thesis
  proof (rule einv_update [OF inv i ni vm, of _ "{VoteReply (rv_CandidateID args) (rv_Term args) reply}" ?G "{}"])
    show "v = i \<and> t = node_term n \<and> honours n t x" if "(v, t, x) \<in> ?G" for v t x
      using that rq(2) by (auto simp: honours_def promised_def split: if_splits)
    show "tally_ok (granted ?c) n"
      using tally_ok_mono [OF tally_ok_kept [OF old(1) k]] id by auto
    show "node_role n = Leader \<Longrightarrow> (node_term n, i) \<in> elected ?c"
      using old(2) k by (simp add: keeps_votes_def)
    show "message_ok (granted ?c) m" if "m \<in> {VoteReply (rv_CandidateID args) (rv_Term args) reply}" for m
      using that rq(2) id by (auto simp: message_ok_def)
  qed auto
qed

lemma einv_ReceiveVoteReply:
  assumes inv: "einv V c" and i: "i \<in> set V" and m: "VoteReply i t reply \<in> msgs c"
  shows "einv V (put i (handleVoteReply ops t reply (nodes c i)) c)"
proof -
  let ?n = "handleVoteReply ops t reply (nodes c i)"
  note sp = handleVoteReply_spec [OF einv_sinv [OF inv i] refl, of t reply]
  note ni = node_inv_move [OF einv_node [OF inv i] sp(1) plain_empty] and vm = node_move_vote [OF sp(1)]
  have id: "n_id (nodes c i) = i" "n_id ?n = i" using einv_node [OF inv i] ni by (simp_all add: node_inv_def)
  have old: "tally_ok (granted c) (nodes c i)" and g: "message_ok (granted c) (VoteReply i t reply)"
    using inv i m by (auto simp: einv_def)
  show ?thesis
  proof (cases "keeps_votes (nodes c i) ?n")
    case True
    from einv_kept [OF inv i ni vm True, of _ "{}"] show ?thesis by simp
  next
    case False
    with sp(2) have new: "node_role ?n = Candidate" "node_role (nodes c i) = Candidate"
      "node_term ?n = node_term (nodes c i)" "rvr_VoteGranted reply" "rvr_Term reply = node_term (nodes c i)"
      "VotesReceived (Election (n_state ?n)) = insert (rvr_VoterID reply) (VotesReceived (Election (n_state (nodes c i))))"
      by auto
    show ?thesis
      by (rule einv_update [OF inv i ni vm, of _ "{}" "{}" "{}"])
        (use old g new id in \<open>auto simp: tally_ok_def message_ok_def\<close>)
  qed
qed

lemma einv_BecomeLeader:
  assumes inv: "einv V c" and i: "i \<in> set V" and "tryBecomeLeader (nodes c i) = (b, n)"
  shows "einv V (elect (node_term n) i b (put i n c))"
proof -
  note sp = tryBecomeLeader_spec [OF einv_sinv [OF inv i] assms(3)]
  note ni = node_inv_move [OF einv_node [OF inv i] sp(1) plain_empty] and vm = node_move_vote [OF sp(1)]
  have id: "n_id (nodes c i) = i" "n_id n = i" using einv_node [OF inv i] ni by (simp_all add: node_inv_def)
  have old: "tally_ok (granted c) (nodes c i)" and mo: "memb_ok V (node_membership (nodes c i))"
    using inv i by (auto simp: einv_def node_inv_def)
  show ?thesis
  proof (cases b)
    case False
    with sp(3) inv show ?thesis by (simp add: elect_def)
  next
    case True
    note w = sp(2) [OF True]
    let ?Q = "VotesReceived (Election (n_state (nodes c i)))"
    from w memb_ok_quorum [OF mo] have "configurationHasQuorum \<lparr>Voters = V\<rparr> ?Q" by blast
    with old w id have "won V (granted c) (node_term n) i" by (auto simp: won_def tally_ok_def)
    with w old id True show ?thesis
      by (intro einv_update [OF inv i ni vm, of _ "{}" "{}" "{(node_term n, i)}"]) (auto simp: tally_ok_def)
  qed
qed

section \<open>Every step\<close>

lemma log_Get_plain:
  assumes "plain (set (log_entries l))" "log_Get l k = Some e"
  shows "\<not> IsConfigurationEntry (Data e)"
proof -
  from assms(2) have "e \<in> set (log_entries l) \<or> Data e = []"
    by (auto simp: log_Get_def find_Some_iff split: if_splits)
  with assms(1) show ?thesis by (auto simp: plain_def IsConfigurationEntry_def configurationEntryMagic_def)
qed

lemma buildAppendEntries_plain:
  assumes "plain (set (log_entries (n_log n)))" "buildAppendEntries p n = Some args"
  shows "plain (set (ae_Entries args))"
proof -
  have "plain (set es)" if "those (map (log_Get (n_log n)) ks) = Some es" for es ks
    using that
  proof (induction ks arbitrary: es)
    case (Cons k ks)
    then show ?case using log_Get_plain [OF assms(1), of k] by (auto simp: plain_def split: option.splits)
  qed simp
  with assms(2) show ?thesis
    by (auto simp: buildAppendEntries_def Let_def simp del: upt_Suc split: if_splits option.splits)
qed

lemma einv_SendAppend:
  assumes inv: "einv V c" and i: "i \<in> set V" and "buildAppendEntries p (nodes c i) = Some args"
  shows "einv V (send {AppendRequest p args} c)"
proof (rule einv_send [OF inv])
  have "plain (set (log_entries (n_log (nodes c i))))" using einv_node [OF inv i] by (simp add: node_inv_def)
  from buildAppendEntries_plain [OF this assms(3)]
  show "message_ok (granted c) m" if "m \<in> {AppendRequest p args}" for m using that by (simp add: message_ok_def)
qed

lemma einv_ApplyEntry:
  assumes inv: "einv V c" and i: "i \<in> set V" and "applyNext ops (nodes c i) = (out, n)"
  shows "n = nodes c i"
  using einv_node [OF inv i] log_Get_plain
  by (intro applyNext_quiet [OF einv_sinv [OF inv i] assms(3)]) (auto simp: node_inv_def)

lemma einv_Bootstrap:
  assumes inv: "einv V c" and i: "i \<in> set V" and "BootstrapMembership ops (nodes c i) = (r, n)"
  shows "einv V (put i n c)"
proof -
  have "distinct V" "[] \<notin> set V" using inv by (simp_all add: einv_def)
  from einv_kept [OF inv i BootstrapMembership_step [OF einv_node [OF inv i] i this assms(3)], of _ "{}"]
  show ?thesis by simp
qed

lemma tick_quiet: "sinv (n_storage n) \<Longrightarrow> tick n = (due, n') \<Longrightarrow> qt {} n n'"
  by (rule quietI) (auto simp: tick_def Let_def dok_refl split: if_splits)

lemma reset_quiet: "sinv (n_storage n) \<Longrightarrow> qt {} n (resetElectionTimer n)"
  by (rule quietI) (auto simp: resetElectionTimer_def dok_refl)

lemma mark_quiet: "sinv (n_storage n) \<Longrightarrow> qt {} n (markApplied k n)"
  by (rule quietI) (auto simp: markApplied_def dok_refl)

lemma einv_later: "einv V c \<Longrightarrow> einv V (later i ks c)"
  by (simp add: einv_def)

lemma einv_put: "einv V c \<Longrightarrow> i \<in> set V \<Longrightarrow> qt {} (nodes c i) n \<Longrightarrow> einv V (put i n c)"
  by (rule einv_quiet [where M = "{}" and X = "{}"]) simp_all

lemma einv_ReceiveAppend:
  assumes inv: "einv V c" and i: "i \<in> set V" and "AppendRequest i args \<in> msgs c"
    and "AppendEntries ops args (nodes c i) = ((reply, b), n)"
  shows "einv V (send {AppendReply (ae_LeaderID args) i args reply} (put i n c))"
proof -
  have "plain (set (ae_Entries args))" using inv assms(3) by (auto simp: einv_def message_ok_def)
  from einv_quiet [OF inv i AppendEntries_quiet [OF einv_sinv [OF inv i] assms(4)] this,
      of "put i n c" "{}"]
  show ?thesis by (intro einv_send) (auto simp: message_ok_def)
qed

lemma einv_ClientProposal:
  assumes inv: "einv V c" and i: "i \<in> set V" and "\<not> IsConfigurationEntry data" "Propose ops data (nodes c i) = (r, b, n)"
  shows "einv V (put i n c)"
  using assms(3) einv_quiet [OF inv i Propose_quiet [OF einv_sinv [OF inv i] assms(4)], of "put i n c" "{}"]
  by (simp add: plain_def proposed_entry_def)

theorem einv_step:
  assumes "cluster_step ops recovers V c c'" "einv V c"
  shows "einv V c'"
  using assms
proof (cases rule: cluster_step.cases)
  case (Timer i due n)
  with einv_put [OF assms(2)] tick_quiet [OF einv_sinv [OF assms(2)]] show ?thesis by blast
next
  case (ResetTimer i)
  with einv_put [OF assms(2)] reset_quiet [OF einv_sinv [OF assms(2)]] show ?thesis by blast
next
  case (RequestVotes i ps args)
  with assms(2) show ?thesis by (auto intro: einv_send simp: message_ok_def)
next
  case (ReceiveAppendReply i p args reply b n)
  with einv_put [OF assms(2)] handleAppendEntriesReply_quiet [OF einv_sinv [OF assms(2)]] show ?thesis by blast
next
  case (EntryApplied i k)
  with einv_put [OF assms(2)] mark_quiet [OF einv_sinv [OF assms(2)]] show ?thesis by blast
next
  case (TakeSnapshot i k data r n)
  with einv_put [OF assms(2)] CreateSnapshot_quiet [OF einv_sinv [OF assms(2)]] show ?thesis by blast
next
  case (SendSnapshot i p sargs)
  with assms(2) show ?thesis by (auto intro: einv_send simp: message_ok_def)
next
  case (ReceiveSnapshot i sargs sreply sn n)
  with einv_put [OF assms(2)] InstallSnapshot_begin_quiet [OF einv_sinv [OF assms(2)]] have "einv V (put i n c)" by blast
  then show ?thesis unfolding ReceiveSnapshot(1)
    by (intro einv_later einv_send) (auto simp: message_ok_def split: option.splits)
next
  case (SnapshotRestored i sargs snap sreply sreply' n)
  with einv_put [OF assms(2)] InstallSnapshot_finish_quiet [OF einv_sinv [OF assms(2)]] have "einv V (put i n c)" by blast
  then show ?thesis unfolding SnapshotRestored(1) by (intro einv_send) (auto simp: message_ok_def)
next
  case (SnapshotNotRestored i sargs snap sreply)
  with assms(2) show ?thesis by (auto intro: einv_send simp: message_ok_def)
next
  case (ReceiveSnapshotReply i p sargs sreply b n)
  with einv_put [OF assms(2)] handleInstallSnapshotReply_quiet [OF einv_sinv [OF assms(2)]] show ?thesis by blast
next
  case (ApplyEntry i out n)
  with einv_ApplyEntry assms(2) have "n = nodes c i" by blast
  with ApplyEntry(1) assms(2) show ?thesis by (simp add: einv_later)
qed (use assms(2) in \<open>blast intro: einv_Bootstrap einv_StartElection einv_ReceiveVoteRequest einv_ReceiveVoteReply
      einv_BecomeLeader einv_ClientProposal einv_SendAppend einv_ReceiveAppend einv_restart\<close>)+

section \<open>At most one leader per term\<close>

lemma einv_init:
  assumes "cluster_init ops V fresh c"
  shows "einv V c"
proof -
  have "node_inv V i (nodes c i) \<and> node_role (nodes c i) = Follower" if "i \<in> set V" for i
  proof -
    from that assms obtain s where s: "fresh s" and b: "boot ops V i s = Inr (nodes c i)" by (auto simp: cluster_init_def)
    note f = fresh [OF s]
    from f have "sinv s" by blast
    from boot_spec [OF this b] f show ?thesis
      by (auto simp: node_inv_def memb_ok_def plain_def disk_entries_def zero_persistent_state_def)
  qed
  with assms show ?thesis by (auto simp: einv_def cluster_init_def tally_ok_def one_vote_def)
qed

lemma einv_reachable:
  assumes "cluster_reachable ops recovers fresh V c"
  shows "einv V c"
proof -
  from assms obtain c0 where c0: "cluster_init ops V fresh c0" and "(cluster_step ops recovers V)\<^sup>*\<^sup>* c0 c"
    by (auto simp: cluster_reachable_def)
  from this(2) show ?thesis
    by (induction rule: rtranclp_induct) (use einv_init [OF c0] einv_step in blast)+
qed

lemma elected_unique:
  assumes "einv V c" "(t, a) \<in> elected c" "(t, b) \<in> elected c"
  shows "a = b"
proof -
  from assms have "won V (granted c) t a" "won V (granted c) t b" by (simp_all add: einv_def)
  then obtain A B where q: "configurationHasQuorum \<lparr>Voters = V\<rparr> A" "configurationHasQuorum \<lparr>Voters = V\<rparr> B"
    and g: "\<forall>u \<in> A \<inter> set V. (u, t, a) \<in> granted c" "\<forall>u \<in> B \<inter> set V. (u, t, b) \<in> granted c"
    unfolding won_def by blast
  have "configurationHasQuorum \<lparr>Voters = V\<rparr> (A \<inter> set V)" "configurationHasQuorum \<lparr>Voters = V\<rparr> (B \<inter> set V)"
    using q by (auto simp: configurationHasQuorum_iff cong: filter_cong)
  then show ?thesis
    by (rule conf.one_winner [where vote = "\<lambda>v x. (v, t, x) \<in> granted c"])
      (use g assms(1) in \<open>unfold einv_def one_vote_def, blast+\<close>)
qed

lemma votes_honoured:
  assumes "cluster_reachable ops recovers fresh V c" "(v, t, x) \<in> granted c"
  shows "(v, t, y) \<in> granted c \<Longrightarrow> y = x" "promised (node_persistent (nodes c v)) t x"
    "d \<in> durable (n_storage (nodes c v)) \<Longrightarrow> promised (d_state d) t x"
  using einv_reachable [OF assms(1)] assms(2) unfolding einv_def honours_def one_vote_def by metis+

lemma one_leader_per_term:
  assumes "cluster_reachable ops recovers fresh V c" "i \<in> set V" "j \<in> set V"
    "node_role (nodes c i) = Leader" "node_role (nodes c j) = Leader"
    "node_term (nodes c i) = node_term (nodes c j)"
  shows "i = j"
proof -
  note inv = einv_reachable [OF assms(1)]
  from inv assms(2-6) have "(node_term (nodes c i), i) \<in> elected c" "(node_term (nodes c i), j) \<in> elected c"
    by (auto simp: einv_def)
  with inv show ?thesis by (rule elected_unique)
qed

end

end
