(* ===== verification/Raft_Properties.thy ===== *)
theory Raft_Properties
  imports Raft_Election_Safety
begin

text \<open>
  Properties of the consensus module: elections and votes, for clusters whose nodes run on any
  storage that meets the contract; \<open>WAL_Properties\<close> shows that the write-ahead log and the in-memory storage do.
\<close>

section \<open>A run of three nodes\<close>

definition demo_voters :: "node_id list" where "demo_voters = [''a'', ''b'', ''c'']"

definition demo_node :: "node_id \<Rightarrow> memory_storage raft_node" where
  "demo_node i = (case boot memory_ops demo_voters i NewMemoryStorage of Inr n \<Rightarrow> n)"

definition demo_0 :: "memory_storage cluster" where
  "demo_0 = \<lparr>nodes = demo_node, msgs = {}, pend = (\<lambda>_. {}), granted = {}, elected = {}\<rparr>"

definition demo_bootstrap :: "node_id \<Rightarrow> memory_storage cluster \<Rightarrow> memory_storage cluster" where
  "demo_bootstrap i c = put i (snd (BootstrapMembership memory_ops (nodes c i))) c"

definition demo_start :: "node_id \<Rightarrow> memory_storage cluster \<Rightarrow> memory_storage cluster" where
  "demo_start i c = (let (r, n) = startElection memory_ops (nodes c i) in vote_for i (node_term n) i (is_ok r) (put i n c))"

definition demo_args :: request_vote_args where
  "demo_args = \<lparr>rv_Term = 1, rv_CandidateID = ''a'', rv_LastLogIndex = 0, rv_LastLogTerm = 0\<rparr>"

definition demo_vote :: "node_id \<Rightarrow> memory_storage cluster \<Rightarrow> memory_storage cluster" where
  "demo_vote i c = (let (reply, n) = RequestVote memory_ops demo_args (nodes c i) in
     send {VoteReply (rv_CandidateID demo_args) (rv_Term demo_args) reply}
       (vote_for i (rv_Term demo_args) (rv_CandidateID demo_args) (rvr_VoteGranted reply) (put i n c)))"

definition demo_reply :: request_vote_reply where
  "demo_reply = \<lparr>rvr_Term = 1, rvr_VoterID = ''b'', rvr_VoteGranted = True\<rparr>"

definition demo_count :: "memory_storage cluster \<Rightarrow> memory_storage cluster" where
  "demo_count c = put ''a'' (handleVoteReply memory_ops 1 demo_reply (nodes c ''a'')) c"

definition demo_lead :: "memory_storage cluster \<Rightarrow> memory_storage cluster" where
  "demo_lead c = (let (b, n) = tryBecomeLeader (nodes c ''a'') in elect (node_term n) ''a'' b (put ''a'' n c))"

definition demo_1 :: "memory_storage cluster" where
  "demo_1 = demo_start ''a'' (demo_bootstrap ''b'' (demo_bootstrap ''a'' demo_0))"

definition demo_2 :: "memory_storage cluster" where "demo_2 = demo_vote ''b'' (send {VoteRequest demo_args} demo_1)"

definition demo_3 :: "memory_storage cluster" where "demo_3 = demo_lead (demo_count demo_2)"

abbreviation demo_step :: "memory_storage cluster \<Rightarrow> memory_storage cluster \<Rightarrow> bool" where
  "demo_step \<equiv> cluster_step memory_ops (=) demo_voters"

lemma boot_fresh_memory: "\<exists>n. boot memory_ops V i NewMemoryStorage = Inr n"
  by (simp add: boot_def NewRaftNodeWithStorage_def memory_ops_def NewMemoryStorage_def mem_LoadState_def
      mem_LoadEntries_def mem_LoadSnapshot_def zero_snapshot_def Let_def)

lemma demo_init: "cluster_init memory_ops demo_voters ((=) NewMemoryStorage) demo_0"
proof -
  have "boot memory_ops demo_voters i NewMemoryStorage = Inr (demo_node i)" for i
    using boot_fresh_memory [of demo_voters i] by (auto simp: demo_node_def)
  then show ?thesis by (simp add: cluster_init_def demo_0_def) (simp add: demo_voters_def)
qed

lemma demo_bootstrap_step: "i \<in> set demo_voters \<Longrightarrow> demo_step c (demo_bootstrap i c)"
  unfolding demo_bootstrap_def by (rule cluster_step.Bootstrap [OF _ surjective_pairing])

lemma demo_lead_step: "demo_step c (demo_lead c)"
  unfolding demo_lead_def Let_def case_prod_beta
  by (rule cluster_step.BecomeLeader [OF _ surjective_pairing]) (simp add: demo_voters_def)

lemma demo_vote_step: "i \<in> set demo_voters \<Longrightarrow> VoteRequest demo_args \<in> msgs c \<Longrightarrow> demo_step c (demo_vote i c)"
  unfolding demo_vote_def Let_def case_prod_beta
  by (rule cluster_step.ReceiveVoteRequest [OF _ _ surjective_pairing])

lemma demo_start_step:
  "i \<in> set demo_voters \<Longrightarrow> Suc (node_term (nodes c i)) < 2 ^ 64 \<Longrightarrow> demo_step c (demo_start i c)"
  unfolding demo_start_def Let_def case_prod_beta
  by (rule cluster_step.StartElection [OF _ _ surjective_pairing])

lemma demo_start_term: "Suc (node_term (nodes (demo_bootstrap ''b'' (demo_bootstrap ''a'' demo_0)) ''a'')) < 2 ^ 64"
proof -
  have "node_term (nodes (demo_bootstrap ''b'' (demo_bootstrap ''a'' demo_0)) ''a'') = 0" by code_simp
  then show ?thesis by simp
qed

lemma demo_requests: "requestVotes (nodes demo_1 ''a'') = Some ([''b'', ''c''], demo_args)"
  by code_simp

lemma demo_replies: "fst (RequestVote memory_ops demo_args (nodes demo_1 ''b'')) = demo_reply"
  by code_simp

lemma demo_leader: "node_role (nodes demo_3 ''a'') = Leader" "node_term (nodes demo_3 ''a'') = 1"
  by code_simp+

lemma demo_follower: "node_term (nodes demo_3 ''b'') = 1"
  by code_simp

lemma demo_granted: "(''b'', 1, ''a'') \<in> granted demo_2"
  using demo_replies by (simp add: demo_2_def demo_vote_def Let_def case_prod_beta) (simp add: demo_args_def demo_reply_def)

lemma demo_reply_sent: "VoteReply ''a'' 1 demo_reply \<in> msgs demo_2"
  using demo_replies by (simp add: demo_2_def demo_vote_def Let_def case_prod_beta) (simp add: demo_args_def)

lemma demo_reachable: "cluster_reachable memory_ops (=) ((=) NewMemoryStorage) demo_voters demo_3"
proof -
  have V: "''a'' \<in> set demo_voters" "''b'' \<in> set demo_voters" by (simp_all add: demo_voters_def)
  let ?b = "demo_bootstrap ''b'' (demo_bootstrap ''a'' demo_0)" and ?q = "send {VoteRequest demo_args} demo_1"
  have "demo_step\<^sup>*\<^sup>* demo_0 (demo_bootstrap ''a'' demo_0)"
    by (rule r_into_rtranclp) (rule demo_bootstrap_step [OF V(1)])
  also have "demo_step (demo_bootstrap ''a'' demo_0) ?b" by (rule demo_bootstrap_step [OF V(2)])
  also have "demo_step ?b demo_1" unfolding demo_1_def by (rule demo_start_step [OF V(1) demo_start_term])
  also have "demo_step demo_1 ?q" by (rule cluster_step.RequestVotes [OF V(1) demo_requests])
  also have "demo_step ?q demo_2" unfolding demo_2_def by (rule demo_vote_step [OF V(2)]) simp
  also have "demo_step demo_2 (demo_count demo_2)"
    unfolding demo_count_def by (rule cluster_step.ReceiveVoteReply [OF V(1) demo_reply_sent])
  also have "demo_step (demo_count demo_2) demo_3" unfolding demo_3_def by (rule demo_lead_step)
  finally show ?thesis using demo_init by (auto simp: cluster_reachable_def)
qed

section \<open>Elections\<close>

text \<open>C1.  Election safety: on any storage that meets the contract, in every state a cluster can reach from
  fresh nodes (messages lost, duplicated, delayed and reordered, storage calls failing, nodes crashing at
  any step and restarting from what their storage kept, entries proposed, replicated, applied and
  compacted into snapshots), two voters that are leaders in the same term are the same node.  The membership is fixed and the steps
  of \<^verbatim>\<open>ReadIndex\<close> are not among those of the relation.\<close>

theorem election_safety:
  assumes "crash_storage ops view durable sinv recovers fresh"
    and "cluster_reachable ops recovers fresh V c" and "i \<in> set V" and "j \<in> set V"
    and "node_role (nodes c i) = Leader" and "node_role (nodes c j) = Leader"
    and "node_term (nodes c i) = node_term (nodes c j)"
  shows "i = j"
  using assms by (rule crash_storage.one_leader_per_term)

theorem election_safety_witness:
  "cluster_reachable memory_ops (=) ((=) NewMemoryStorage) demo_voters demo_3 \<and>
   node_role (nodes demo_3 ''a'') = Leader \<and> node_role (nodes demo_3 ''b'') \<noteq> Leader"
proof (intro conjI notI)
  show "cluster_reachable memory_ops (=) ((=) NewMemoryStorage) demo_voters demo_3" by (rule demo_reachable)
  show "node_role (nodes demo_3 ''a'') = Leader" by (rule demo_leader)
  assume "node_role (nodes demo_3 ''b'') = Leader"
  with demo_leader demo_follower have "''a'' = ''b''"
    by (intro election_safety [OF mc.crash_storage_axioms demo_reachable]) (simp_all add: demo_voters_def)
  then show False by simp
qed

text \<open>C19.  Votes are unique and outlive crashes: the grants a voter has ever given in a term are all for the
  same candidate, and for every grant the voter's state, in memory and in everything a crash may leave on its
  disk, is either still in that term with that vote or in a later term (with a fixed membership and without the steps of \<^verbatim>\<open>ReadIndex\<close>).\<close>

theorem votes_kept:
  assumes "crash_storage ops view durable sinv recovers fresh"
    and "cluster_reachable ops recovers fresh V c" and "(v, t, x) \<in> granted c"
  shows "(\<forall>y. (v, t, y) \<in> granted c \<longrightarrow> y = x) \<and> promised (node_persistent (nodes c v)) t x \<and>
     (\<forall>d \<in> durable (n_storage (nodes c v)). promised (d_state d) t x)"
  using crash_storage.votes_honoured [OF assms] by blast

theorem votes_kept_witness:
  "(''b'', 1, ''a'') \<in> granted demo_3 \<and> promised (ms_state (n_storage (nodes demo_3 ''b''))) 1 ''a''"
proof -
  have g: "(''b'', 1, ''a'') \<in> granted demo_3"
    using demo_granted by (simp add: demo_3_def demo_lead_def demo_count_def Let_def case_prod_beta)
  from votes_kept [OF mc.crash_storage_axioms demo_reachable g]
  have "promised (d_state (mem_view (n_storage (nodes demo_3 ''b'')))) 1 ''a''" by blast
  with g show ?thesis by (simp only: mem_view_def disk.simps simp_thms)
qed

end
