(* ===== verification/Spec2Isabelle.thy ===== *)
theory Spec2Isabelle
  imports Raft_Schedule Transport_Properties Runtime Raft_Properties WAL_Properties
begin

text \<open>
  \<^bold>\<open>Raftiq: a replicated key-value store, lock service and job queue on Raft.\<close>

  \<^bold>\<open>The program.\<close>  A client's request becomes a command (\<^verbatim>\<open>internal/kv/command.go\<close>) that the leader appends
  to its log (\<^verbatim>\<open>internal/raft\<close>), replicates to the other nodes and commits when a quorum holds it.  Every
  node applies the committed commands in order to its store (\<^verbatim>\<open>internal/kv\<close>), which holds plain keys, locks
  with fencing tokens (\<^verbatim>\<open>internal/lock\<close>), fenced keys and jobs.  What a node must not forget, its term, its vote,
  its membership, its log and its snapshot, goes through the interface \<^verbatim>\<open>internal/storage\<close>, to memory or
  to a write-ahead log.

  \<^bold>\<open>Conventions.\<close>  A byte slice or string is a list of characters, and a nil and an empty slice are the same.
  Unsigned 64- and 32-bit counters are natural numbers whose increments wrap (\<open>inc64\<close>, \<open>inc32\<close>).  A Go map is
  a finite map; a loop over one takes the keys in order.  \<^verbatim>\<open>(T, error)\<close> is the sum type \<open>result\<close>; an error
  is a sentinel, a message or a wrapping of others, and \<open>errors_is\<close> is \<^verbatim>\<open>errors.Is\<close> on it.  A section that runs
  under a mutex is one function; a method that releases the mutex is one function per section.  Metrics and log
  output are left out.  Times are integers, passed in by the caller as in the source.

  \<^bold>\<open>The replicated machine.\<close>
  \<^item> \<open>Prelude\<close>, \<open>Model_Types\<close>: the Go values above; \<^verbatim>\<open>internal/model\<close>.
  \<^item> \<open>Lock_State\<close>: the lock table (\<^verbatim>\<open>lock.State\<close>): \<open>lock_Acquire\<close>, \<open>lock_Expire\<close>, and that tokens only grow.
  \<^item> \<open>KV_Store\<close>, \<open>KV_Jobs\<close>: \<^verbatim>\<open>kv.Store\<close> and its operations, method by method, with every error.
  \<^item> \<open>KV_Command\<close>, \<open>KV_Apply\<close>: the commands with their JSON form, and \<^verbatim>\<open>applyCommand\<close>, which dispatches them.
  \<^item> \<open>KV_Safety\<close>: the invariant \<open>store_wf\<close> and what each command may change of a lock and of a job.
  \<^item> \<open>KV_Properties\<close>: for all command sequences, the invariant, the fencing of expired locks and reclaimed workers,
    the life cycle of a job, the listings, and the jobs that stay stuck once their lock expires on its own.
  \<^item> \<open>KV_Snapshot\<close>, \<open>KV_Restore\<close>: \<^verbatim>\<open>Store.Snapshot\<close> and \<^verbatim>\<open>Store.Restore\<close>, and which stores a snapshot restores.
  \<^item> \<open>KV_Applier\<close>: \<^verbatim>\<open>Applier\<close>: the loop that applies committed entries, when it stops, and catching up from a snapshot.

  \<^bold>\<open>Storage.\<close>
  \<^item> \<open>Storage_Iface\<close>: the interface as a record of operations, the validation helpers, and two locales:
    \<open>raft_storage\<close>, what an operation may do to the stored view and to what a crash leaves, and
    \<open>crash_storage\<close>, which adds restarts.  The Raft proofs use only these laws.
  \<^item> \<open>Storage_Memory\<close>: \<^verbatim>\<open>MemoryStorage\<close>, interpreted.
  \<^item> \<open>Decimal\<close>, \<open>Base64\<close>, \<open>Json\<close>, \<open>Json_Roundtrip\<close>, \<open>Json_Decode\<close>, \<open>Bytes_Codec\<close>: the parts of \<^verbatim>\<open>strconv\<close>,
    \<^verbatim>\<open>encoding/base64\<close>, \<^verbatim>\<open>encoding/json\<close> and \<^verbatim>\<open>encoding/binary\<close> the sources use.  The JSON parser runs with a fuel of
    twice the length of the text plus one; \<open>json_parse_print\<close> shows that it is enough for every printed value.
  \<^item> \<open>WAL_Codec\<close>, \<open>WAL_Roundtrip\<close>: records with their CRC-32 and their payloads, and that they are read back.
  \<^item> \<open>WAL_Storage\<close>: \<^verbatim>\<open>WALStorage\<close>.  The operating system is a parameter: lists of the outcomes of the coming
    writes and of the other calls.  \<^verbatim>\<open>writeFull\<close> and \<^verbatim>\<open>recover\<close> are recursive functions with termination proofs.
  \<^item> \<open>WAL_Recovery\<close>, \<open>WAL_Contract\<close>: replaying a file cut at any byte, and the interpretation of \<open>crash_storage\<close>.
  \<^item> \<open>WAL_Properties\<close>: crash atomicity, exact reopening, rollback of failed writes, and the file lost after a
    compaction.

  \<^bold>\<open>Consensus.\<close>
  \<^item> \<open>Raft_Log\<close>: \<^verbatim>\<open>log.go\<close>, with each operation proved against the partial map from indexes to entries.
  \<^item> \<open>Raft_Membership\<close>, \<open>Config_Entry\<close>: quorums, and the byte format of configuration entries.
  \<^item> \<open>Raft_Node\<close>, \<open>Raft_Election\<close>, \<open>Raft_Replication\<close>, \<open>Raft_Apply\<close>, \<open>Raft_Snapshot\<close>: the node, file by file.
  \<^item> \<open>Raft_Votes\<close>: what each section keeps of the vote, in memory and on disk.
  \<^item> \<open>Raft_Cluster\<close>, \<open>Raft_Election_Safety\<close>: the step relation of a cluster over any storage of the contract, and
    the invariant that gives one leader per term.
  \<^item> \<open>Raft_Properties\<close>: election safety and the persistence of votes, for a fixed membership and without reads.
  \<^item> \<open>Raft_Log_Properties\<close>: the commit rule, the order of application, and which storages a node starts from.
  \<^item> \<open>Raft_Schedule\<close>: runs of three nodes in which the heartbeats of \<^verbatim>\<open>ReadIndex\<close> commit a stale entry and elect two
    leaders in one term.
  \<^item> \<open>Raft_Peer\<close>: a node with its state machine as its peers see it, the transport interface and the locale
    \<open>peer_transport\<close>; \<open>Local_Transport\<close>: the in-process transport, interpreted.
  \<^item> \<open>GRPC_Transport\<close>: the gRPC transport, the Raft service and their messages.  The generated client is a parameter; the locale
    \<open>grpc_network\<close> says that a response is that of one run of the handler, and a sublocale makes the transport a
    \<open>peer_transport\<close>.  \<open>Transport_Properties\<close>: it agrees with the in-process one.
  \<^item> \<open>Raft_Drive\<close>: the methods that call the peers, from \<^verbatim>\<open>replicateTo\<close> to \<^verbatim>\<open>AddMember\<close>, over any transport; loops that may not end
    are partial functions.  \<open>Raft_Repair\<close>: replication repairs any diverged log, and does not end when a follower cannot store.

  \<^bold>\<open>The service.\<close>
  \<^item> \<open>Server\<close>, \<open>Scheduler\<close>, \<open>Worker\<close>: \<^verbatim>\<open>internal/server\<close>, \<^verbatim>\<open>internal/scheduler\<close> and \<^verbatim>\<open>internal/worker\<close> over a record
    \<open>cluster_env\<close> of what they call: the node, the applier's waiters, the store, the clock and the context.
  \<^item> \<open>Service_Contract\<close>, \<open>Job_Flow\<close>: the locale \<open>command_service\<close> (a command that is submitted is applied and its result
    returned), and what follows for the server's operations and for the passes of the scheduler and the worker.
  \<^item> \<open>Local_Cluster\<close>: a single-node cluster, node, applier and store together, and the interpretation of that locale.
  \<^item> \<open>Service_Properties\<close>: a job from its creation to its end, reads after writes, exclusive locks, leases at the edge of
    64 bits, a write that is acknowledged and lost, the jobs that the expiry of locks strands, the choice of a worker.

  \<^bold>\<open>The process.\<close>
  \<^item> \<open>Go_Strings\<close>, \<open>Node_Config\<close>: the functions of \<^verbatim>\<open>strings\<close> that the flags need; \<^verbatim>\<open>cmd/raftiq/config.go\<close>, and that the
    peers flag reads what it prints.
  \<^item> \<open>TLS_Config\<close>: \<^verbatim>\<open>tls.go\<close> and \<^verbatim>\<open>initializeTLS\<close>, with files and certificates as parameters, and which peers a node admits.
  \<^item> \<open>KV_Service\<close>: the KV service and the client library; the generated stub is a parameter with the locale \<open>kv_network\<close>.
  \<^item> \<open>Node_Servers\<close>: the gRPC, health and metrics servers.
  \<^item> \<open>Runtime\<close>: \<^verbatim>\<open>cmd/raftiq/runtime.go\<close>, which builds a node from its command line out of the components above, starts it and shuts it
    down; and that nodes started with the same peers agree on their members.

  \<^bold>\<open>Not modelled.\<close>  Goroutines, timers, channels and contexts, except as the order of steps they allow; the wire
  format and the stubs of gRPC, the TLS handshake, Prometheus collectors and the text of HTTP
  responses, which only call libraries; the tokens of the command line, which \<^verbatim>\<open>flag\<close> reads; the manual test program \<^verbatim>\<open>cmd/kvtest\<close>.
\<close>

end
